(* ===== verification/Prelude.thy ===== *)
theory Prelude
  imports Main "HOL-Library.Multiset" "HOL-Library.Product_Lexorder"
    "HOL-Library.List_Lexorder" "HOL-Library.Char_ord" "HOL-Library.AList"
begin

text \<open>
  Shared ground of the development: Go's fixed-width integer conversions and truncated
  division, the error values of the ledger packages, Go maps with a zero default, the
  \<open>sort.Slice\<close> interface and the list lemmas several components use.
\<close>

section \<open>Integers\<close>

text \<open>
  Go's \<open>int\<close>, \<open>int64\<close>, \<open>Micros\<close> and \<open>Cents\<close> are 64-bit two's complement and \<open>int32\<close> is
  32-bit.  A value of one of these types is an \<open>int\<close>; where the code can leave the range, the
  wrap-around is written out with \<open>int64\<close> and \<open>int32\<close>.
\<close>

definition int64 :: "int \<Rightarrow> int" where
  "int64 x = (x + 2 ^ 63) mod 2 ^ 64 - 2 ^ 63"

definition int32 :: "int \<Rightarrow> int" where
  "int32 x = (x + 2 ^ 31) mod 2 ^ 32 - 2 ^ 31"

definition in64 :: "int \<Rightarrow> bool" where
  "in64 x \<longleftrightarrow> - (2 ^ 63) \<le> x \<and> x < 2 ^ 63"

definition in32 :: "int \<Rightarrow> bool" where
  "in32 x \<longleftrightarrow> - (2 ^ 31) \<le> x \<and> x < 2 ^ 31"

lemma int64_id: "in64 x \<Longrightarrow> int64 x = x"
  by (simp add: int64_def in64_def)

lemma int32_id: "in32 x \<Longrightarrow> int32 x = x"
  by (simp add: int32_def in32_def)

lemma in32_int32 [simp]: "in32 (int32 x)"
  unfolding int32_def in32_def
  using pos_mod_bound [of "2 ^ 32 :: int" "x + 2 ^ 31"] pos_mod_sign [of "2 ^ 32 :: int" "x + 2 ^ 31"]
  by auto

lemma in64_int64 [simp]: "in64 (int64 x)"
  unfolding int64_def in64_def
  using pos_mod_bound [of "2 ^ 64 :: int" "x + 2 ^ 63"] pos_mod_sign [of "2 ^ 64 :: int" "x + 2 ^ 63"]
  by auto

lemma in32_in64: "in32 x \<Longrightarrow> in64 x"
  by (simp add: in32_def in64_def)

lemma in64_mono: "0 \<le> x \<Longrightarrow> x \<le> y \<Longrightarrow> in64 y \<Longrightarrow> in64 x"
  by (simp add: in64_def)

lemma in32_mono: "0 \<le> x \<Longrightarrow> x \<le> y \<Longrightarrow> in32 y \<Longrightarrow> in32 x"
  by (simp add: in32_def)

lemma int64_add_left [simp]: "int64 (int64 a + b) = int64 (a + b)"
  by (simp add: int64_def mod_simps algebra_simps)

text \<open>Go's \<open>/\<close> and \<open>%\<close> truncate towards zero; a zero divisor panics, and every caller
  below guards against it.\<close>

definition go_div :: "int \<Rightarrow> int \<Rightarrow> int" where
  "go_div a b = (if (a < 0) = (b < 0) then \<bar>a\<bar> div \<bar>b\<bar> else - (\<bar>a\<bar> div \<bar>b\<bar>))"

definition go_mod :: "int \<Rightarrow> int \<Rightarrow> int" where
  "go_mod a b = a - b * go_div a b"

lemma go_div_nonneg: "0 \<le> a \<Longrightarrow> 0 < b \<Longrightarrow> go_div a b = a div b"
  by (simp add: go_div_def)

lemma go_mod_nonneg: "0 \<le> a \<Longrightarrow> 0 < b \<Longrightarrow> go_mod a b = a mod b"
  by (simp add: go_mod_def go_div_nonneg minus_mult_div_eq_mod)

section \<open>Errors\<close>

text \<open>
  The error values of the ledger packages, as the sentinels \<open>errors.Is\<close> recognises.
  \<open>ErrConstraint\<close> is a statement Postgres refuses (a CHECK, a UNIQUE or a foreign key),
  \<open>ErrSerialization\<close> is SQLSTATE 40001, \<open>ErrInput\<close> is a message made by a parser or form check.
\<close>

datatype error =
    ErrTripNotFound
  | ErrInsufficientPoints
  | ErrImportInvalid
  | ErrImportNoEntries
  | ErrImportEntryNotFound
  | ErrImportEntryNotUsage
  | ErrImportEntryLinked
  | ErrImportDuplicateEntry
  | ErrImportPointsMismatch
  | ErrConstraint
  | ErrSerialization
  | ErrInput string

type_synonym 'a result = "error + 'a"

definition is_ok :: "'a result \<Rightarrow> bool" where
  "is_ok r = (case r of Inl _ \<Rightarrow> False | Inr _ \<Rightarrow> True)"

lemma is_ok_simps [simp]: "is_ok (Inr x)" "\<not> is_ok (Inl e)"
  by (simp_all add: is_ok_def)

text \<open>Sequencing of fallible steps: the early return of the first error.\<close>

definition and_then :: "'a result \<Rightarrow> ('a \<Rightarrow> 'b result) \<Rightarrow> 'b result" where
  "and_then r f = (case r of Inl e \<Rightarrow> Inl e | Inr x \<Rightarrow> f x)"

lemma and_then_simps [simp]: "and_then (Inl e) f = Inl e" "and_then (Inr x) f = f x"
  by (simp_all add: and_then_def)

lemma and_then_Inr: "and_then r f = Inr y \<longleftrightarrow> (\<exists>x. r = Inr x \<and> f x = Inr y)"
  by (cases r) simp_all

lemma and_then_Inl: "and_then r f = Inl e \<longleftrightarrow> r = Inl e \<or> (\<exists>x. r = Inr x \<and> f x = Inl e)"
  by (cases r) auto

lemma is_ok_iff: "is_ok r \<longleftrightarrow> (\<exists>x. r = Inr x)"
  by (cases r) auto


section \<open>Lists\<close>

lemma sum_list_filter_le:
  "(\<And>x. x \<in> set xs \<Longrightarrow> 0 \<le> (f x :: int)) \<Longrightarrow> sum_list (map f (filter P xs)) \<le> sum_list (map f xs)"
  by (induction xs) (auto intro: add_increasing)

lemma sum_list_filter_add:
  "sum_list (map f (filter P xs)) + sum_list (map f (filter (\<lambda>x. \<not> P x) xs)) = (sum_list (map f xs) :: int)"
  by (induction xs) auto

lemma sum_list_map_nonneg:
  "(\<And>y. y \<in> set xs \<Longrightarrow> 0 \<le> (f y :: int)) \<Longrightarrow> 0 \<le> sum_list (map f xs)"
  by (induction xs) auto

lemma sum_list_member_le:
  assumes "\<And>y. y \<in> set xs \<Longrightarrow> 0 \<le> (f y :: int)" and "x \<in> set xs"
  shows "f x \<le> sum_list (map f xs)"
  using assms
proof (induction xs)
  case (Cons y ys)
  have "0 \<le> sum_list (map f ys)" and "0 \<le> f y"
    using Cons.prems(1) by (auto intro!: sum_list_map_nonneg)
  with Cons show ?case by force
qed simp

lemma sum_list_indicator:
  "distinct ks \<Longrightarrow> (\<Sum>k\<leftarrow>ks. if a = k then c else 0) = (if a \<in> set ks then c else (0 :: int))"
  by (induction ks) auto

lemma sum_list_mset_cong:
  "mset xs = mset ys \<Longrightarrow> sum_list (map f xs) = (sum_list (map f ys) :: int)"
  by (metis mset_map sum_mset_sum_list)

lemma sum_list_filter_mset_cong:
  "mset xs = mset ys \<Longrightarrow> sum_list (map f (filter P xs)) = (sum_list (map f (filter P ys)) :: int)"
  by (rule sum_list_mset_cong) (simp add: mset_filter)

text \<open>Splitting a sum by a key that ranges over a duplicate-free list of classes.\<close>

lemma sum_list_partition:
  assumes "distinct ks" and "\<And>x. x \<in> set xs \<Longrightarrow> g x \<in> set ks"
  shows "(\<Sum>k\<leftarrow>ks. \<Sum>x\<leftarrow>filter (\<lambda>x. g x = k) xs. f x) = (\<Sum>x\<leftarrow>xs. f x :: int)"
  using assms(2)
proof (induction xs)
  case Nil
  then show ?case by (simp add: sum_list_0)
next
  case (Cons x xs)
  have one: "(\<Sum>k\<leftarrow>ks. if g x = k then f x else 0) = f x"
    using assms(1) Cons.prems [of x] by (simp add: sum_list_indicator)
  have split: "(\<Sum>k\<leftarrow>ks. \<Sum>y\<leftarrow>filter (\<lambda>y. g y = k) (x # xs). f y) =
      (\<Sum>k\<leftarrow>ks. (if g x = k then f x else 0) + (\<Sum>y\<leftarrow>filter (\<lambda>y. g y = k) xs. f y))"
    by (intro arg_cong [where f = sum_list] map_cong) auto
  show ?case
    unfolding split sum_list_addf one using Cons by simp
qed

section \<open>Go maps with a zero default\<close>

text \<open>
  Reading an absent key of a Go \<open>map[K]int\<close> gives 0, so such a map is a total function.
  \<open>acc_add\<close> is the loop \<open>for x in xs: m[key(x)] += val(x)\<close>.
\<close>

definition acc_add :: "('a \<Rightarrow> 'k) \<Rightarrow> ('a \<Rightarrow> int) \<Rightarrow> 'a list \<Rightarrow> ('k \<Rightarrow> int) \<Rightarrow> ('k \<Rightarrow> int)" where
  "acc_add key val xs m = foldl (\<lambda>r x. r(key x := r (key x) + val x)) m xs"

lemma acc_add_simps [simp]:
  "acc_add key val [] m = m"
  "acc_add key val (x # xs) m = acc_add key val xs (m(key x := m (key x) + val x))"
  by (simp_all add: acc_add_def)

lemma acc_add_apply:
  "acc_add key val xs m k = m k + (\<Sum>x\<leftarrow>filter (\<lambda>x. key x = k) xs. val x)"
  by (induction xs arbitrary: m) auto

section \<open>\<open>sort.Slice\<close>\<close>

text \<open>
  \<open>sort.Slice\<close> takes the comparison the caller writes; up to twelve elements Go runs the
  insertion sort below.  Its order among elements neither of which is less than the other is
  not part of its contract; the \<open>slice_sort\<close> interface is that contract, and the
  properties of the clients rest on it.
\<close>

fun insert_less :: "('a \<Rightarrow> 'a \<Rightarrow> bool) \<Rightarrow> 'a \<Rightarrow> 'a list \<Rightarrow> 'a list" where
  "insert_less lt x [] = [x]"
| "insert_less lt x (y # ys) = (if lt y x then y # insert_less lt x ys else x # y # ys)"

definition sort_slice :: "('a \<Rightarrow> 'a \<Rightarrow> bool) \<Rightarrow> 'a list \<Rightarrow> 'a list" where
  "sort_slice lt xs = foldr (insert_less lt) xs []"

lemma insert_less_key:
  fixes k :: "'a \<Rightarrow> 'k::linorder"
  assumes "\<And>a b. lt a b \<longleftrightarrow> k a < k b"
  shows "insert_less lt x ys = insort_key k x ys"
  by (induction ys) (auto simp: assms)

lemma sort_slice_key:
  fixes k :: "'a \<Rightarrow> 'k::linorder"
  assumes "\<And>a b. lt a b \<longleftrightarrow> k a < k b"
  shows "sort_slice lt xs = sort_key k xs"
  by (induction xs) (auto simp: sort_slice_def insert_less_key [OF assms])

locale slice_sort =
  fixes k :: "'a \<Rightarrow> 'k::linorder" and sorter :: "'a list \<Rightarrow> 'a list"
  assumes sorter_mset: "mset (sorter xs) = mset xs"
    and sorter_sorted: "sorted (map k (sorter xs))"
begin

lemma sorter_set: "set (sorter xs) = set xs"
  by (metis sorter_mset set_mset_mset)

lemma sorter_length: "length (sorter xs) = length xs"
  by (metis sorter_mset size_mset)

lemma sorter_distinct: "distinct (sorter xs) = distinct xs"
  by (metis sorter_mset mset_eq_imp_distinct_iff)

text \<open>With no ties the contract determines the result.\<close>

lemma sorter_unique:
  assumes "inj_on k (set xs)" and "mset ys = mset xs" and "sorted (map k ys)"
  shows "sorter xs = ys"
proof -
  have sets: "set ys = set xs" "set (sorter xs) = set xs"
    using assms(2) sorter_set by (metis set_mset_mset)+
  have "mset (map k (sorter xs)) = mset (map k ys)"
    using assms(2) by (simp add: sorter_mset)
  then have "map k (sorter xs) = map k ys"
    using sorter_sorted assms(3) by (metis sorted_sort_id properties_for_sort)
  then show ?thesis
    using assms(1) sets by (intro map_inj_on [of k]) auto
qed

lemma sorter_cong:
  assumes "inj_on k (set xs)" and "mset ys = mset xs"
  shows "sorter ys = sorter xs"
  using sorter_unique [OF assms(1), of "sorter ys"] assms(2)
  by (simp add: sorter_mset sorter_sorted)

text \<open>Every prefix of the result is below everything after it.\<close>

lemma sorter_split_le:
  assumes "sorter xs = as @ b # bs" and "a \<in> set as"
  shows "k a \<le> k b"
  using sorter_sorted [of xs] assms by (auto simp: sorted_append)

end

lemma slice_sort_key:
  fixes k :: "'a \<Rightarrow> 'k::linorder"
  assumes "\<And>a b. lt a b \<longleftrightarrow> k a < k b"
  shows "slice_sort k (sort_slice lt)"
  by unfold_locales (simp_all add: sort_slice_key [OF assms])

end
