(* ===== verification/Calendar.thy ===== *)
theory Calendar
  imports Prelude
begin

text \<open>
  What the code uses of Go's \<open>time\<close> package.  Every date of the program is a midnight in UTC
  (DATE columns, \<open>time.Parse\<close> of a date-only layout, \<open>time.Date(..., time.UTC)\<close>), so a
  \<open>time.Time\<close> is its day number, counted from 1970-01-01, \<open>Add(24*time.Hour)\<close> is \<open>+ 1\<close>, and
  \<open>.UTC().Truncate(24*time.Hour)\<close> is the identity.  The proleptic Gregorian calendar is computed
  on years that begin in March, so that the leap day is the last day of its year.
\<close>

type_synonym date = int
type_synonym month = int

section \<open>Day numbers and civil dates\<close>

definition is_leap :: "int \<Rightarrow> bool" where
  "is_leap y \<longleftrightarrow> y mod 4 = 0 \<and> (y mod 100 \<noteq> 0 \<or> y mod 400 = 0)"

definition days_in :: "month \<Rightarrow> int \<Rightarrow> int" where
  "days_in m y = (if m = 2 then (if is_leap y then 29 else 28)
     else if m = 4 \<or> m = 6 \<or> m = 9 \<or> m = 11 then 30 else 31)"

definition valid_civil :: "int \<Rightarrow> month \<Rightarrow> int \<Rightarrow> bool" where
  "valid_civil y m d \<longleftrightarrow> 1 \<le> m \<and> m \<le> 12 \<and> 1 \<le> d \<and> d \<le> days_in m y"

text \<open>Days before a year that begins in March, and before its \<open>mp\<close>-th month.\<close>

definition year_start :: "int \<Rightarrow> int" where
  "year_start y = 365 * y + y div 4 - y div 100 + y div 400 - 719468"

definition month_start :: "int \<Rightarrow> int" where
  "month_start mp = (153 * mp + 2) div 5"

definition march_year :: "int \<Rightarrow> month \<Rightarrow> int" where
  "march_year y m = (if m \<le> 2 then y - 1 else y)"

definition march_month :: "month \<Rightarrow> int" where
  "march_month m = (m + 9) mod 12"

definition days_from_civil :: "int \<Rightarrow> month \<Rightarrow> int \<Rightarrow> date" where
  "days_from_civil y m d = year_start (march_year y m) + month_start (march_month m) + d - 1"

text \<open>The March year and the day of that year of a day number.\<close>

definition year_doy :: "date \<Rightarrow> int \<times> int" where
  "year_doy z = (let z' = z + 719468; a = z' div 146097; r = z' mod 146097;
     b = min 3 (r div 36524); r1 = r - 36524 * b;
     c = r1 div 1461; r2 = r1 mod 1461;
     e = min 3 (r2 div 365)
   in (400 * a + 100 * b + 4 * c + e, r2 - 365 * e))"

definition civil :: "date \<Rightarrow> int \<times> month \<times> int" where
  "civil z = (let (y, doy) = year_doy z; mp = (5 * doy + 2) div 153;
     m = (if mp < 10 then mp + 3 else mp - 9)
   in (if m \<le> 2 then y + 1 else y, m, doy - month_start mp + 1))"

text \<open>\<open>Time.Year\<close>, \<open>Time.Month\<close>, \<open>Time.Day\<close> and \<open>Time.Weekday\<close> (Sunday is 0; 1970-01-01
  was a Thursday).\<close>

definition date_Year :: "date \<Rightarrow> int" where
  "date_Year z = fst (civil z)"

definition date_Month :: "date \<Rightarrow> month" where
  "date_Month z = fst (snd (civil z))"

definition date_Day :: "date \<Rightarrow> int" where
  "date_Day z = snd (snd (civil z))"

definition date_Weekday :: "date \<Rightarrow> int" where
  "date_Weekday z = (z + 4) mod 7"

text \<open>\<open>time.Date(y, m, d, 0, 0, 0, 0, time.UTC)\<close>, which normalises an out-of-range month or day.\<close>

definition go_Date :: "int \<Rightarrow> month \<Rightarrow> int \<Rightarrow> date" where
  "go_Date y m d = days_from_civil (y + (m - 1) div 12) ((m - 1) mod 12 + 1) d"

text \<open>\<open>int(out.Sub(in).Hours() / 24)\<close> of two UTC midnights: the whole days between them.  A \<open>Duration\<close>
  counts nanoseconds in 64 bits and \<open>Sub\<close> saturates, at a little under 106752 days.\<close>

definition days_between :: "date \<Rightarrow> date \<Rightarrow> int" where
  "days_between cin cout = max (- 106751) (min 106751 (cout - cin))"

section \<open>The two directions are inverse\<close>

lemma div_plus_one:
  assumes "0 < (n :: int)"
  shows "(y + 1) div n = y div n + (if (y + 1) mod n = 0 then 1 else 0)"
proof (cases "(y + 1) mod n = 0")
  case True
  then have "y = n * ((y + 1) div n - 1) + (n - 1)"
    using mult_div_mod_eq [of n "y + 1"] by (simp add: algebra_simps)
  then have "y div n = (y + 1) div n - 1"
    using assms by (intro int_div_pos_eq [where r = "n - 1"]) auto
  with True show ?thesis by simp
next
  case False
  then have "y = n * ((y + 1) div n) + ((y + 1) mod n - 1)" and "0 < (y + 1) mod n"
    using mult_div_mod_eq [of n "y + 1"] pos_mod_sign [OF assms, of "y + 1"] by (simp_all add: algebra_simps)
  then have "y div n = (y + 1) div n"
    using assms pos_mod_bound [OF assms, of "y + 1"]
    by (intro int_div_pos_eq [where r = "(y + 1) mod n - 1"]) auto
  with False show ?thesis by simp
qed

lemma min_quotient:
  assumes "0 \<le> r" and "r \<le> 4 * n" and "0 < (n :: int)" and "b = min 3 (r div n)"
  shows "0 \<le> b" and "b < 4" and "0 \<le> r - n * b" and "b < 3 \<Longrightarrow> r - n * b < n" and "r - n * b \<le> n"
proof -
  have q: "0 \<le> r div n" "r = n * (r div n) + r mod n" "0 \<le> r mod n" "r mod n < n"
    using assms by (auto simp: pos_imp_zdiv_nonneg_iff)
  then show "0 \<le> b" "b < 4" using assms(4) by auto
  have "r - n * b = r mod n \<or> b = 3 \<and> r - n * b = n"
  proof (cases "r div n \<le> 3")
    case True
    then show ?thesis using assms(4) by (simp add: minus_mult_div_eq_mod)
  next
    case False
    then have "n * 4 \<le> n * (r div n)" using assms(3) by (intro mult_left_mono) auto
    then have "r = 4 * n" using q assms(2) by linarith
    with False show ?thesis using assms(4) by simp
  qed
  with q(3,4) assms(3) show "0 \<le> r - n * b" "b < 3 \<Longrightarrow> r - n * b < n" "r - n * b \<le> n"
    by linarith+
qed

lemma year_start_Suc:
  "year_start (y + 1) = year_start y + 365 + (if is_leap (y + 1) then 1 else 0)"
proof -
  have "(4 :: int) dvd 100" "(100 :: int) dvd 400" by simp_all
  then have i: "(y + 1) mod 100 = 0 \<longrightarrow> (y + 1) mod 4 = 0" "(y + 1) mod 400 = 0 \<longrightarrow> (y + 1) mod 100 = 0"
    by (metis dvd_trans mod_eq_0_iff_dvd)+
  define A where "A = ((y + 1) mod 4 = 0)"
  define B where "B = ((y + 1) mod 100 = 0)"
  define C where "C = ((y + 1) mod 400 = 0)"
  have q: "(y + 1) div 4 = y div 4 + (if A then 1 else 0)"
    "(y + 1) div 100 = y div 100 + (if B then 1 else 0)"
    "(y + 1) div 400 = y div 400 + (if C then 1 else 0)"
    unfolding A_def B_def C_def by (rule div_plus_one; simp)+
  have "is_leap (y + 1) \<longleftrightarrow> A \<and> (\<not> B \<or> C)" "B \<longrightarrow> A" "C \<longrightarrow> B"
    using i unfolding is_leap_def A_def B_def C_def by simp_all
  note l = this
  have "(if A then 1 else 0) - (if B then 1 else 0) + (if C then 1 else 0) = (if is_leap (y + 1) then 1 else 0 :: int)"
    unfolding l(1) using l(2,3) by (cases A; cases B; cases C) simp_all
  moreover have "year_start (y + 1) = year_start y + 365 + ((if A then 1 else 0) - (if B then 1 else 0) + (if C then 1 else 0))"
    unfolding year_start_def q by (simp only: algebra_simps)
  ultimately show ?thesis by simp
qed

lemma year_start_le:
  assumes "x < y"
  shows "year_start (x + 1) \<le> year_start y"
  using assms
proof (induction y rule: int_gr_induct)
  case (step i)
  then show ?case by (simp add: year_start_Suc)
qed simp

lemma leap_days:
  assumes "0 \<le> b" "b < 4" "0 \<le> c" "c < 25" "0 \<le> e" "e < (4 :: int)"
  shows "year_start (400 * a + 100 * b + 4 * c + e) = 146097 * a + 36524 * b + 1461 * c + 365 * e - 719468"
proof -
  let ?y = "400 * a + 100 * b + 4 * c + e"
  have "?y div 4 = 100 * a + 25 * b + c"
    using assms by (intro int_div_pos_eq [where r = e]) auto
  moreover have "?y div 100 = 4 * a + b"
    using assms by (intro int_div_pos_eq [where r = "4 * c + e"]) auto
  moreover have "?y div 400 = a"
    using assms by (intro int_div_pos_eq [where r = "100 * b + 4 * c + e"]) auto
  ultimately show ?thesis
    unfolding year_start_def by (simp add: algebra_simps)
qed

lemma year_doy_start:
  assumes "year_doy z = (y, doy)"
  shows "year_start y + doy = z" and "0 \<le> doy" and "doy < 365 + (if is_leap (y + 1) then 1 else 0)"
proof -
  define a where "a = (z + 719468) div 146097"
  define r where "r = (z + 719468) mod 146097"
  define b where "b = min 3 (r div 36524)"
  define r1 where "r1 = r - 36524 * b"
  define c where "c = r1 div 1461"
  define r2 where "r2 = r1 mod 1461"
  define e where "e = min 3 (r2 div 365)"
  have y: "y = 400 * a + 100 * b + 4 * c + e" and d: "doy = r2 - 365 * e"
    using assms unfolding year_doy_def Let_def prod.inject
      a_def [symmetric] r_def [symmetric] b_def [symmetric] r1_def [symmetric]
      c_def [symmetric] r2_def [symmetric] e_def [symmetric] by simp_all
  have z: "z + 719468 = 146097 * a + r" and r: "0 \<le> r" "r < 146097"
    by (simp_all add: a_def r_def)
  have b: "0 \<le> b" "b < 4" "0 \<le> r1" "b < 3 \<Longrightarrow> r1 < 36524" "r1 \<le> 36524"
    using min_quotient [OF r(1) _ _ b_def] r(2) unfolding r1_def by auto
  have c: "0 \<le> c" "r1 = 1461 * c + r2" "0 \<le> r2" "r2 < 1461"
    using b(3) by (auto simp: c_def r2_def pos_imp_zdiv_nonneg_iff)
  have c25: "c < 25" using c b(5) by linarith
  have e: "0 \<le> e" "e < 4" "0 \<le> doy" "e < 3 \<Longrightarrow> doy < 365" "doy \<le> 365"
    using min_quotient [OF c(3) _ _ e_def] c(4) unfolding d by auto
  show "year_start y + doy = z" and "0 \<le> doy"
    using leap_days [OF b(1,2) c(1) c25 e(1,2), of a] z c(2) d e(3) by (simp_all add: y r1_def)
  have "e = 3 \<Longrightarrow> \<not> is_leap (y + 1) \<Longrightarrow> doy < 365"
  proof -
    assume e3: "e = 3" and nl: "\<not> is_leap (y + 1)"
    have y1: "y + 1 = 4 * (100 * a + 25 * b + c + 1)" by (simp add: y e3)
    have four: "(y + 1) mod 4 = 0" unfolding y1 by simp
    with nl have "(y + 1) mod 100 = 0" and n400: "(y + 1) mod 400 \<noteq> 0"
      unfolding is_leap_def by auto
    then have "100 dvd 4 * (100 * a + 25 * b + c + 1)"
      unfolding y1 mod_eq_0_iff_dvd by simp
    then have "25 dvd 100 * a + 25 * b + c + 1" by presburger
    moreover have "100 * a + 25 * b + c + 1 = 25 * (4 * a + b) + (c + 1)" by simp
    ultimately have "25 dvd c + 1"
      by (metis dvd_add_right_iff dvd_triv_left)
    then have c24: "c = 24" using c(1) c25 zdvd_imp_le [of 25 "c + 1"] by linarith
    have b3: "b < 3"
    proof (rule ccontr)
      assume "\<not> b < 3"
      then have "y + 1 = 400 * (a + 1)" using b(2) c24 e3 by (simp add: y)
      with n400 show False by simp
    qed
    show "doy < 365" using b(4) [OF b3] c(2) c24 d e3 by simp
  qed
  then show "doy < 365 + (if is_leap (y + 1) then 1 else 0)"
    using e by (cases "e = 3") auto
qed

lemma year_doy_unique:
  assumes "year_start y + doy = z" and "0 \<le> doy" and "doy < 365 + (if is_leap (y + 1) then 1 else 0)"
  shows "year_doy z = (y, doy)"
proof -
  obtain y' doy' where e: "year_doy z = (y', doy')" by (cases "year_doy z")
  note s = year_doy_start [OF e]
  have "\<not> y < y'" using year_start_le [of y y'] year_start_Suc [of y] assms s by auto
  moreover have "\<not> y' < y" using year_start_le [of y' y] year_start_Suc [of y'] assms s by auto
  ultimately have "y' = y" by simp
  with e s(1) assms(1) show ?thesis by auto
qed

lemma month_start_values:
  "month_start 0 = 0" "month_start 1 = 31" "month_start 2 = 61" "month_start 3 = 92"
  "month_start 4 = 122" "month_start 5 = 153" "month_start 6 = 184" "month_start 7 = 214"
  "month_start 8 = 245" "month_start 9 = 275" "month_start 10 = 306" "month_start 11 = 337"
  by (simp_all add: month_start_def)

lemma month_cases:
  assumes "1 \<le> m" and "m \<le> (12 :: int)"
  shows "m \<in> {1, 2, 3, 4, 5, 6, 7, 8, 9, 10, 11, 12}"
  using assms by (simp only: insert_iff empty_iff) presburger

lemma march_month_value:
  "1 \<le> m \<Longrightarrow> m \<le> 12 \<Longrightarrow> march_month m = (if m \<le> 2 then m + 9 else m - 3)"
  using month_cases [of m] by (auto simp: march_month_def)

text \<open>A valid civil date is a March year with a day inside that year, and back.\<close>

lemma valid_civil_doy:
  assumes "valid_civil y m d"
  shows "0 \<le> month_start (march_month m) + d - 1"
    and "month_start (march_month m) + d - 1
      < 365 + (if is_leap (march_year y m + 1) then 1 else 0)"
    and "(5 * (month_start (march_month m) + d - 1) + 2) div 153 = march_month m"
proof -
  have "m \<in> {1, 2, 3, 4, 5, 6, 7, 8, 9, 10, 11, 12}" and d: "1 \<le> d" "d \<le> days_in m y"
    using assms month_cases by (auto simp: valid_civil_def)
  then consider "m = 1" | "m = 2" | "m = 3" | "m = 4" | "m = 5" | "m = 6" | "m = 7" | "m = 8"
    | "m = 9" | "m = 10" | "m = 11" | "m = 12" by blast
  then show "0 \<le> month_start (march_month m) + d - 1"
    and "month_start (march_month m) + d - 1
      < 365 + (if is_leap (march_year y m + 1) then 1 else 0)"
    and "(5 * (month_start (march_month m) + d - 1) + 2) div 153 = march_month m"
    using d by (cases; auto simp: march_month_def march_year_def days_in_def month_start_values
        split: if_splits intro!: int_div_pos_eq)+
qed

lemma civil_days_from_civil:
  assumes "valid_civil y m d"
  shows "civil (days_from_civil y m d) = (y, m, d)"
proof -
  let ?doy = "month_start (march_month m) + d - 1"
  have "year_doy (days_from_civil y m d) = (march_year y m, ?doy)"
    using valid_civil_doy [OF assms] by (intro year_doy_unique) (auto simp: days_from_civil_def)
  moreover have "m \<in> {1, 2, 3, 4, 5, 6, 7, 8, 9, 10, 11, 12}"
    using assms month_cases by (auto simp: valid_civil_def)
  ultimately show ?thesis
    using valid_civil_doy(3) [OF assms]
    by (auto simp: civil_def Let_def march_month_def march_year_def)
qed

lemma doy_month:
  assumes "0 \<le> doy" and "doy < 365 + (if is_leap (y + 1) then 1 else (0 :: int))"
    and "mp = (5 * doy + 2) div 153" and "m = (if mp < 10 then mp + 3 else mp - 9)"
  shows "0 \<le> mp \<and> mp \<le> 11"
    and "1 \<le> doy - month_start mp + 1"
    and "doy - month_start mp + 1 \<le> days_in m (if m \<le> 2 then y + 1 else y)"
proof -
  have b: "153 * mp \<le> 5 * doy + 2" "5 * doy + 2 < 153 * mp + 153" "doy < 366"
    using assms(2,3) by (auto split: if_splits)
  then show mp: "0 \<le> mp \<and> mp \<le> 11" using assms(1) by auto
  then have "mp \<in> {0, 1, 2, 3, 4, 5, 6, 7, 8, 9, 10, 11}"
    using month_cases [of "mp + 1"] by auto
  then consider "mp = 0" | "mp = 1" | "mp = 2" | "mp = 3" | "mp = 4" | "mp = 5" | "mp = 6"
    | "mp = 7" | "mp = 8" | "mp = 9" | "mp = 10" | "mp = 11" by blast
  then show "1 \<le> doy - month_start mp + 1"
    and "doy - month_start mp + 1 \<le> days_in m (if m \<le> 2 then y + 1 else y)"
    using b assms(2,4) by (cases; auto simp: month_start_values days_in_def split: if_splits)+
qed

lemma civil_valid:
  assumes "civil z = (y, m, d)"
  shows "valid_civil y m d" and "days_from_civil y m d = z"
proof -
  obtain y' doy where e: "year_doy z = (y', doy)" by (cases "year_doy z")
  define mp where "mp = (5 * doy + 2) div 153"
  have m: "m = (if mp < 10 then mp + 3 else mp - 9)"
    and y: "y = (if m \<le> 2 then y' + 1 else y')" and d: "d = doy - month_start mp + 1"
    using assms e by (auto simp: civil_def Let_def mp_def)
  note s = year_doy_start [OF e]
  note f = doy_month [OF s(2,3) mp_def m]
  show "valid_civil y m d"
    using f m y d unfolding valid_civil_def by auto
  have "march_month m = mp" "march_year y m = y'"
    using f(1) m y by (auto simp: march_month_def march_year_def split: if_splits)
  then show "days_from_civil y m d = z"
    using s(1) d by (simp add: days_from_civil_def)
qed

lemma days_from_civil_civil: "days_from_civil (date_Year z) (date_Month z) (date_Day z) = z"
  by (rule civil_valid) (simp add: date_Year_def date_Month_def date_Day_def)

lemma date_valid: "valid_civil (date_Year z) (date_Month z) (date_Day z)"
  by (rule civil_valid) (simp add: date_Year_def date_Month_def date_Day_def)

lemma date_Month_range: "1 \<le> date_Month z" "date_Month z \<le> 12"
  using date_valid [of z] by (simp_all add: valid_civil_def)

lemma date_parts:
  assumes "valid_civil y m d"
  shows "date_Year (days_from_civil y m d) = y" "date_Month (days_from_civil y m d) = m"
    "date_Day (days_from_civil y m d) = d"
  using civil_days_from_civil [OF assms] by (simp_all add: date_Year_def date_Month_def date_Day_def)

lemma go_Date_in_range: "1 \<le> m \<Longrightarrow> m \<le> 12 \<Longrightarrow> go_Date y m d = days_from_civil y m d"
  by (simp add: go_Date_def)

lemma valid_civil_first: "1 \<le> m \<Longrightarrow> m \<le> 12 \<Longrightarrow> valid_civil y m 1"
  by (auto simp: valid_civil_def days_in_def)

section \<open>The order of day numbers is the order of civil dates\<close>

lemma days_from_civil_less:
  assumes "valid_civil y1 m1 d1" and "valid_civil y2 m2 d2"
    and "y1 < y2 \<or> y1 = y2 \<and> (m1 < m2 \<or> m1 = m2 \<and> d1 < d2)"
  shows "days_from_civil y1 m1 d1 < days_from_civil y2 m2 d2"
proof -
  let ?Y1 = "march_year y1 m1" and ?Y2 = "march_year y2 m2"
  let ?D1 = "month_start (march_month m1) + d1 - 1" and ?D2 = "month_start (march_month m2) + d2 - 1"
  note v1 = valid_civil_doy [OF assms(1)] and v2 = valid_civil_doy [OF assms(2)]
  have r: "1 \<le> m1" "m1 \<le> 12" "1 \<le> m2" "m2 \<le> 12"
    using assms(1,2) by (simp_all add: valid_civil_def)
  have le: "?Y1 \<le> ?Y2"
    using assms(3) r by (auto simp: march_year_def)
  show ?thesis
  proof (cases "?Y1 < ?Y2")
    case True
    then show ?thesis
      using year_start_le [OF True] year_start_Suc [of ?Y1] v1(2) v2(1)
      unfolding days_from_civil_def by simp
  next
    case False
    then have eq: "?Y1 = ?Y2" using le by simp
    have "march_month m1 < march_month m2 \<or> march_month m1 = march_month m2 \<and> d1 < d2"
      using assms(3) eq r by (auto simp: march_year_def march_month_value split: if_splits)
    then have "?D1 < ?D2"
    proof
      assume "march_month m1 < march_month m2"
      then have "(5 * ?D1 + 2) div 153 < (5 * ?D2 + 2) div 153" using v1(3) v2(3) by simp
      then have "\<not> 5 * ?D2 + 2 \<le> 5 * ?D1 + 2"
        using zdiv_mono1 [of "5 * ?D2 + 2" "5 * ?D1 + 2" 153] by (simp only: not_le)
      then show ?thesis by simp
    qed simp
    with eq show ?thesis by (simp add: days_from_civil_def)
  qed
qed

end
