(* ===== verification/DateText.thy ===== *)
theory DateText
  imports Calendar Strconv
begin

text \<open>
  Dates as text: \<open>Time.Format\<close> and \<open>time.Parse\<close> for the layouts the program uses
  (\<open>2006-01-02\<close>, \<open>1/2/2006\<close>, \<open>01/02/2006\<close>), and \<open>dvc.ParseDate\<close> of
  \<open>internal/dvc/search.go\<close>.
\<close>

section \<open>The layout 2006-01-02\<close>

definition format_date :: "date \<Rightarrow> string" where
  "format_date z =
     (let y = date_Year z in
      (if y < 0 then CHR ''-'' # zero_pad 4 (dec (nat (- y))) else zero_pad 4 (dec (nat y)))
      @ ''-'' @ zero_pad 2 (dec (nat (date_Month z)))
      @ ''-'' @ zero_pad 2 (dec (nat (date_Day z))))"

definition civil_date :: "nat \<Rightarrow> nat \<Rightarrow> nat \<Rightarrow> date option" where
  "civil_date y m d =
     (if valid_civil (int y) (int m) (int d) then Some (days_from_civil (int y) (int m) (int d)) else None)"

definition parse_iso :: "string \<Rightarrow> date option" where
  "parse_iso s =
     (if length s = 10 \<and> s ! 4 = CHR ''-'' \<and> s ! 7 = CHR ''-''
         \<and> list_all is_digit (take 4 s) \<and> list_all is_digit (take 2 (drop 5 s))
         \<and> list_all is_digit (drop 8 s)
      then civil_date (dec_val (take 4 s)) (dec_val (take 2 (drop 5 s))) (dec_val (drop 8 s))
      else None)"

section \<open>The slash layouts\<close>

text \<open>\<open>getnum\<close>: one or two digits, or exactly two when \<open>fixed\<close>.\<close>

fun getnum :: "bool \<Rightarrow> string \<Rightarrow> (nat \<times> string) option" where
  "getnum fixed [] = None"
| "getnum fixed [a] = (if is_digit a \<and> \<not> fixed then Some (dec_val [a], []) else None)"
| "getnum fixed (a # b # s) =
     (if \<not> is_digit a then None
      else if is_digit b then Some (dec_val [a, b], s)
      else if fixed then None else Some (dec_val [a], b # s))"

fun expect :: "char \<Rightarrow> string \<Rightarrow> string option" where
  "expect c [] = None"
| "expect c (x # s) = (if x = c then Some s else None)"

definition parse_slash :: "bool \<Rightarrow> string \<Rightarrow> date option" where
  "parse_slash fixed s =
     Option.bind (getnum fixed s) (\<lambda>(m, s1). if m < 1 \<or> 12 < m then None else
     Option.bind (expect (CHR ''/'') s1) (\<lambda>s2.
     Option.bind (getnum fixed s2) (\<lambda>(d, s3).
     Option.bind (expect (CHR ''/'') s3) (\<lambda>y.
       if length y = 4 \<and> list_all is_digit y then civil_date (dec_val y) m d else None))))"

definition ParseDate :: "string \<Rightarrow> date option" where
  "ParseDate s =
     (case parse_iso s of Some t \<Rightarrow> Some t
      | None \<Rightarrow> (case parse_slash False s of Some t \<Rightarrow> Some t
      | None \<Rightarrow> parse_slash True s))"

section \<open>Round trip\<close>

lemma two_digits: "0 \<le> n \<Longrightarrow> n < 100 \<Longrightarrow> length (zero_pad 2 (dec (nat n))) = 2"
  by (intro length_zero_pad length_dec) (auto simp: nat_less_iff)

lemma four_digits: "0 \<le> n \<Longrightarrow> n < 10000 \<Longrightarrow> length (zero_pad 4 (dec (nat n))) = 4"
  by (intro length_zero_pad length_dec) (auto simp: nat_less_iff)

lemma date_Day_range: "1 \<le> date_Day z" "date_Day z \<le> 31"
  using date_valid [of z] by (auto simp: valid_civil_def days_in_def split: if_splits)

lemma parse_format_date:
  assumes "0 \<le> date_Year z" and "date_Year z \<le> 9999"
  shows "parse_iso (format_date z) = Some z"
proof -
  let ?Y = "zero_pad 4 (dec (nat (date_Year z)))"
  let ?M = "zero_pad 2 (dec (nat (date_Month z)))" and ?D = "zero_pad 2 (dec (nat (date_Day z)))"
  have l: "length ?Y = 4" "length ?M = 2" "length ?D = 2"
    using assms date_Month_range [of z] date_Day_range [of z]
    by (auto intro!: two_digits four_digits)
  have f: "format_date z = ?Y @ CHR ''-'' # ?M @ CHR ''-'' # ?D"
    using assms by (simp add: format_date_def Let_def)
  have parts: "take 4 (format_date z) = ?Y" "take 2 (drop 5 (format_date z)) = ?M"
    "drop 8 (format_date z) = ?D" "length (format_date z) = 10"
    "format_date z ! 4 = CHR ''-''" "format_date z ! 7 = CHR ''-''"
    unfolding f by (simp_all add: l nth_append)
  have "civil_date (nat (date_Year z)) (nat (date_Month z)) (nat (date_Day z)) = Some z"
    using assms date_Month_range [of z] date_Day_range [of z]
    by (simp add: civil_date_def date_valid days_from_civil_civil)
  then show ?thesis
    unfolding parse_iso_def parts by (simp add: zero_pad_digits)
qed

text \<open>A date that parses is one the layout can print: the text is recovered.\<close>

lemma parse_iso_year: "parse_iso s = Some z \<Longrightarrow> 0 \<le> date_Year z \<and> date_Year z \<le> 9999"
proof -
  assume a: "parse_iso s = Some z"
  then have "length (take 4 s) = 4" and z: "date_Year z = int (dec_val (take 4 s))"
    by (auto simp: parse_iso_def civil_date_def date_parts split: if_splits)
  then show ?thesis using dec_val_less [of "take 4 s"] by simp
qed

lemma ParseDate_iso: "parse_iso s = Some z \<Longrightarrow> ParseDate s = Some z"
  by (simp add: ParseDate_def)

text \<open>A date written in the ledger's format reads back as the same date, for every year of four
  digits.\<close>

theorem date_roundtrip:
  assumes "0 \<le> date_Year z" and "date_Year z \<le> 9999"
  shows "ParseDate (format_date z) = Some z"
  using parse_format_date [OF assms] by (simp add: ParseDate_def)

theorem date_roundtrip_witness: "ParseDate (format_date 20600) = Some 20600"
proof -
  have "date_Year 20600 = 2026" by code_simp
  then show ?thesis using date_roundtrip [of 20600] by simp
qed

end
