(* ===== verification/Money.thy ===== *)
theory Money
  imports Strconv
begin

text \<open>
  \<open>internal/ledger/money.go\<close> and \<open>parse.go\<close>: \<open>Micros\<close> and \<open>Cents\<close> are 64-bit counts of
  millionths of a dollar and of cents; every operation on them is written with its wrap-around.
\<close>

type_synonym micros = int
type_synonym cents = int

definition microsPerCent :: int where
  "microsPerCent = 10000"

section \<open>Operations\<close>

definition divRound :: "int \<Rightarrow> int \<Rightarrow> int" where
  "divRound n d =
     (let neg = ((n < 0) \<noteq> (d < 0));
          n' = (if n < 0 then int64 (- n) else n);
          d' = (if d < 0 then int64 (- d) else d);
          q = go_div n' d'; r = go_mod n' d';
          q' = (if int64 (2 * r) \<ge> d' then int64 (q + 1) else q)
      in if neg then int64 (- q') else q')"

definition parseDecimal :: "string \<Rightarrow> nat \<Rightarrow> int result" where
  "parseDecimal orig scale =
     (let s = TrimSpace orig in
      if s = [] then Inr 0
      else
        let neg = HasPrefix s ''-'';
            s1 = (if neg then tl s else s);
            s2 = RemoveAll (TrimPrefix s1 ''$'') (CHR '','')
        in if s2 = [] then Inl (ErrInput ''no digits'')
        else
          let (whole, frac, hasFrac) = Cut s2 (CHR ''.'') in
          if hasFrac \<and> length frac > scale then Inl (ErrInput ''too many fractional digits'')
          else
            let frac' = (if hasFrac then frac @ replicate (scale - length frac) (CHR ''0'')
                         else replicate scale (CHR ''0''))
            in case ParseInt (whole @ frac') of
                 None \<Rightarrow> Inl (ErrInput ''parseDecimal'')
               | Some n \<Rightarrow> Inr (if neg then int64 (- n) else n))"

definition ParseMicros :: "string \<Rightarrow> micros result" where
  "ParseMicros s = parseDecimal s 6"

definition ParseCents :: "string \<Rightarrow> cents result" where
  "ParseCents s = parseDecimal s 2"

definition pow10 :: "nat \<Rightarrow> int" where
  "pow10 scale = ((\<lambda>p. int64 (p * 10)) ^^ scale) 1"

definition formatFixed :: "int \<Rightarrow> nat \<Rightarrow> string" where
  "formatFixed n scale =
     (let neg = (n < 0);
          n' = (if neg then int64 (- n) else n);
          pow = pow10 scale;
          s = fmt_d (go_div n' pow) @ ''.'' @ fmt_0d scale (go_mod n' pow)
      in if neg then ''-'' @ s else s)"

definition trimTrailingZeros :: "string \<Rightarrow> string" where
  "trimTrailingZeros s =
     (if CHR ''.'' \<notin> set s then s else TrimRight (TrimRight s (CHR ''0'')) (CHR ''.''))"

definition Micros_String :: "micros \<Rightarrow> string" where
  "Micros_String m = trimTrailingZeros (formatFixed m 6)"

definition Cents_String :: "cents \<Rightarrow> string" where
  "Cents_String c = formatFixed c 2"

fun group3 :: "string \<Rightarrow> string" where
  "group3 [] = []"
| "group3 (c # s) = CHR '','' # take 3 (c # s) @ group3 (drop 3 (c # s))"

definition groupThousands :: "string \<Rightarrow> string" where
  "groupThousands s =
     (let n = length s in
      if n \<le> 3 then s
      else let first = (if n mod 3 = 0 then 3 else n mod 3)
           in take first s @ group3 (drop first s))"

definition FormatUSD :: "cents \<Rightarrow> string" where
  "FormatUSD c =
     (let neg = (c < 0);
          c' = (if neg then int64 (- c) else c);
          (whole, frac, _) = Cut (formatFixed c' 2) (CHR ''.'');
          out = ''$'' @ groupThousands whole @ ''.'' @ frac
      in if neg then ''-'' @ out else out)"

definition FormatRate :: "micros \<Rightarrow> string" where
  "FormatRate m = ''$'' @ formatFixed (divRound m 100) 4"

definition PointCost :: "int \<Rightarrow> micros \<Rightarrow> micros \<Rightarrow> cents" where
  "PointCost points rate dues =
     (let total = int64 (points * int64 (rate + dues)) in divRound total microsPerCent)"

section \<open>Rounding\<close>

text \<open>The closed form, on the range where no intermediate value leaves 64 bits.\<close>

lemma divRound_pos:
  assumes "0 < d" and "d \<le> 2 ^ 62" and "- (2 ^ 63) < n" and "n < 2 ^ 63"
  shows "divRound n d = (if n < 0 then - ((2 * \<bar>n\<bar> + d) div (2 * d)) else (2 * \<bar>n\<bar> + d) div (2 * d))"
proof -
  define a where "a = \<bar>n\<bar>"
  define Q where "Q = a div d"
  define R where "R = a mod d"
  have q: "a = d * Q + R" "0 \<le> R" "R < d" "0 \<le> Q" "Q \<le> a"
    using assms(1) zdiv_mono2 [of a 1 d] by (auto simp: pos_imp_zdiv_nonneg_iff a_def Q_def R_def)
  have a: "a < 2 ^ 63" "0 \<le> a" using assms by (auto simp: a_def)
  have Q: "(2 * a + d) div (2 * d) = (if 2 * R \<ge> d then Q + 1 else Q)"
  proof (cases "2 * R \<ge> d")
    case True
    have "2 * a + d = 2 * d * (Q + 1) + (2 * R - d)"
      by (subst q(1)) (simp add: algebra_simps)
    then have "(2 * a + d) div (2 * d) = Q + 1"
      by (rule int_div_pos_eq) (use True q in auto)
    then show ?thesis using True by simp
  next
    case False
    have "2 * a + d = 2 * d * Q + (2 * R + d)"
      by (subst q(1)) (simp add: algebra_simps)
    then have "(2 * a + d) div (2 * d) = Q"
      by (rule int_div_pos_eq) (use False q assms in auto)
    then show ?thesis using False by simp
  qed
  have le: "Q + 1 \<le> 2 ^ 63 - 1 \<or> d = 1"
  proof (cases "d = 1")
    case False
    then have "2 * Q \<le> d * Q" using assms(1) q(4) by (intro mult_right_mono) auto
    then have "2 * Q \<le> a" using q(1,2) by linarith
    then show ?thesis using a by auto
  qed simp
  have i1: "int64 (if n < 0 then - n else n) = a" "int64 (2 * R) = 2 * R"
    using a q assms by (auto intro!: int64_id simp: in64_def a_def)
  have i2: "2 * R \<ge> d \<Longrightarrow> int64 (Q + 1) = Q + 1"
  proof -
    assume "2 * R \<ge> d"
    then have "d \<noteq> 1" using q(2,3) by auto
    then show ?thesis using le q(4) by (intro int64_id) (auto simp: in64_def)
  qed
  let ?q = "(if 2 * R \<ge> d then Q + 1 else Q)"
  have n': "(if n < 0 then int64 (- n) else n) = a"
    using a int64_id [of a] by (auto simp: a_def in64_def)
  have "0 \<le> ?q" "?q \<le> 2 ^ 63"
    using q(4,5) a by auto
  then have i3: "int64 (- ?q) = - ?q" by (intro int64_id) (auto simp: in64_def)
  have "divRound n d = (let q' = ?q in if n < 0 then int64 (- q') else q')"
    unfolding divRound_def Let_def n' using assms(1) a(2) i1(2) i2
    by (simp add: go_div_nonneg go_mod_nonneg Q_def R_def)
  then show ?thesis using i3 unfolding Q a_def [symmetric] by (auto simp: Let_def)
qed

lemma divRound_nonneg:
  "0 < d \<Longrightarrow> d \<le> 2 ^ 62 \<Longrightarrow> 0 \<le> n \<Longrightarrow> n < 2 ^ 63 \<Longrightarrow> divRound n d = (2 * n + d) div (2 * d)"
  by (simp add: divRound_pos)

text \<open>The rounded quotient is the nearest integer, and a tie goes away from zero.\<close>

lemma half_up_bounds:
  assumes "0 < (d :: int)" and "0 \<le> a"
  shows "2 * (d * ((2 * a + d) div (2 * d))) \<le> 2 * a + d" and "2 * a < 2 * (d * ((2 * a + d) div (2 * d))) + d"
proof -
  have "2 * a + d = 2 * d * ((2 * a + d) div (2 * d)) + (2 * a + d) mod (2 * d)" by simp
  moreover have "0 \<le> (2 * a + d) mod (2 * d)" "(2 * a + d) mod (2 * d) < 2 * d"
    using assms by simp_all
  ultimately show "2 * (d * ((2 * a + d) div (2 * d))) \<le> 2 * a + d"
    and "2 * a < 2 * (d * ((2 * a + d) div (2 * d))) + d"
    by (simp_all add: mult.assoc)
qed

text \<open>\<open>divRound\<close> returns the integer nearest to the quotient, and the one farther from zero when two
  are equally near, for every divisor up to 2^62 and every dividend but the smallest.\<close>

theorem divRound_nearest:
  assumes "0 < d" and "d \<le> 2 ^ 62" and "- (2 ^ 63) < n" and "n < 2 ^ 63"
  shows "2 * \<bar>d * divRound n d - n\<bar> \<le> d \<and>
    (2 * \<bar>d * divRound n d - n\<bar> = d \<longrightarrow> \<bar>n\<bar> < \<bar>d * divRound n d\<bar>)"
proof -
  let ?q = "(2 * \<bar>n\<bar> + d) div (2 * d)"
  note b = half_up_bounds [of d "\<bar>n\<bar>"]
  have q: "divRound n d = (if n < 0 then - ?q else ?q)"
    by (rule divRound_pos [OF assms])
  have "0 \<le> ?q" using assms(1) by (simp add: pos_imp_zdiv_nonneg_iff)
  then have p: "0 \<le> d * ?q" using assms(1) by simp
  define x where "x = d * ?q"
  have e: "d * divRound n d = (if n < 0 then - x else x)" by (simp add: q x_def)
  show ?thesis
    using b assms(1) p unfolding e x_def [symmetric]
    by (cases "n < 0"; cases "x \<le> \<bar>n\<bar>") auto
qed

theorem divRound_nearest_witness:
  "2 * \<bar>4 * divRound (- 10) 4 - (- 10)\<bar> \<le> (4 :: int) \<and> divRound (- 10) 4 = - 3"
  using divRound_nearest [of 4 "- 10"] by (simp add: divRound_pos)

lemma divRound_mono_bounds:
  assumes "0 < d" and "d \<le> 2 ^ 62" and "0 \<le> n" and "n < 2 ^ 63" and "d * lo \<le> n" and "n \<le> d * hi"
  shows "lo \<le> divRound n d" and "divRound n d \<le> hi"
proof -
  note b = half_up_bounds [OF assms(1,3)] and q = divRound_nonneg [OF assms(1-4)]
  let ?q = "divRound n d"
  have "d * lo < d * (?q + 1)" using b assms(1,5) unfolding q by (simp add: algebra_simps)
  then show "lo \<le> ?q" using assms(1) by simp
  have "d * ?q < d * (hi + 1)" using b assms(1,6) unfolding q by (simp add: algebra_simps)
  then show "?q \<le> hi" using assms(1) by simp
qed

lemma divRound_in64:
  assumes "0 < d" and "d \<le> 2 ^ 62" and "0 \<le> n" and "n < 2 ^ 63"
  shows "0 \<le> divRound n d" and "divRound n d < 2 ^ 63"
proof -
  have "1 * n \<le> d * n" using assms by (intro mult_right_mono) auto
  then show "0 \<le> divRound n d" "divRound n d < 2 ^ 63"
    using divRound_mono_bounds [OF assms, of 0 n] assms by auto
qed

section \<open>Fixed-point text\<close>

lemma pow10_small: "scale \<le> 18 \<Longrightarrow> pow10 scale = 10 ^ scale"
proof (induction scale)
  case (Suc k)
  have "(10 :: int) ^ Suc k \<le> 10 ^ 18" using Suc.prems by (intro power_increasing) auto
  moreover have "0 \<le> (10 :: int) ^ Suc k" by simp
  ultimately have "in64 (10 ^ k * 10)" unfolding in64_def power_Suc by (simp add: order_trans [of _ 0])
  with Suc show ?case by (simp add: pow10_def int64_id mult.commute)
qed (simp add: pow10_def)

text \<open>The text of a nonnegative count: whole digits, a point, exactly \<open>scale\<close> digits.\<close>

lemma formatFixed_nonneg:
  assumes "scale \<le> 18" and "0 \<le> n"
  shows "formatFixed n scale =
    dec (nat (n div 10 ^ scale)) @ ''.'' @ zero_pad scale (dec (nat (n mod 10 ^ scale)))"
proof -
  have "\<not> n div 10 ^ scale < 0" "\<not> n mod 10 ^ scale < 0"
    using assms(2) by (simp_all add: pos_imp_zdiv_nonneg_iff not_less)
  with assms show ?thesis
    by (simp add: formatFixed_def Let_def pow10_small go_div_nonneg go_mod_nonneg fmt_d_def fmt_0d_def)
qed

lemma formatFixed_neg:
  assumes "n < 0" and "- (2 ^ 63) < n"
  shows "formatFixed n scale = CHR ''-'' # formatFixed (- n) scale"
proof -
  have "int64 (- n) = - n" using assms by (intro int64_id) (simp add: in64_def)
  then show ?thesis using assms(1) by (simp add: formatFixed_def Let_def)
qed

lemma frac_digits:
  assumes "0 \<le> n" and "0 < scale"
  shows "length (zero_pad scale (dec (nat (n mod 10 ^ scale)))) = scale"
proof (rule length_zero_pad, rule length_dec)
  have "nat (n mod 10 ^ scale) < nat (10 ^ scale)" using assms by simp
  then show "nat (n mod 10 ^ scale) < 10 ^ scale" by (simp add: nat_power_eq)
qed (rule assms(2))

text \<open>Parsing such a text gives the count back: the two digit strings are joined.\<close>

lemma digit_neq:
  "is_digit c \<Longrightarrow> c \<noteq> CHR '','' \<and> c \<noteq> CHR ''.'' \<and> c \<noteq> CHR ''-'' \<and> c \<noteq> CHR ''$''"
  by (auto simp: is_digit_def digit_val_def)

definition parse_sign :: "bool \<Rightarrow> string" where
  "parse_sign neg = (if neg then ''-'' else '''')"

lemma parseDecimal_text:
  assumes "list_all is_digit w" and "w \<noteq> []" and "list_all is_digit f" and "length f \<le> scale"
    and "v = int (dec_val (w @ f @ replicate (scale - length f) (CHR ''0'')))" and "v < 2 ^ 63"
    and "g = '''' \<or> g = ''$''"
    and "RemoveAll t (CHR '','') = (if f = [] then w else w @ ''.'' @ f)"
    and "is_digit (hd t)" and "is_digit (last t)"
  shows "parseDecimal (parse_sign neg @ g @ t) scale = Inr (if neg then - v else v)"
proof -
  let ?u = "if f = [] then w else w @ ''.'' @ f"
  have t: "t \<noteq> []" using assms(2,8) by (auto simp: RemoveAll_def split: if_splits)
  then obtain c t' where c: "t = c # t'" "is_digit c" using assms(9) by (cases t) auto
  note nd = digit_neq [OF c(2)] is_digit_not_space [OF c(2)] is_digit_not_space [OF assms(10)]
  have ts: "TrimSpace (parse_sign neg @ g @ t) = parse_sign neg @ g @ t"
    using assms(7) t nd c(1) by (intro TrimSpace_id) (auto simp: is_space_def parse_sign_def)
  have hp: "HasPrefix (parse_sign neg @ g @ t) ''-'' = neg"
    using assms(7) nd c(1) by (auto simp: HasPrefix_def parse_sign_def)
  have s1: "(if neg then tl (parse_sign neg @ g @ t) else parse_sign neg @ g @ t) = g @ t"
    by (simp add: parse_sign_def)
  have ne: "parse_sign neg @ g @ t \<noteq> []" using t by simp
  have pre: "RemoveAll (TrimPrefix (g @ t) ''$'') (CHR '','') = ?u"
    using assms(7) nd c(1) assms(8) by (auto simp: TrimPrefix_def HasPrefix_def)
  have u: "?u \<noteq> []" using assms(2) by auto
  have wdot: "CHR ''.'' \<notin> set w" using assms(1) digit_neq by (auto simp: list_all_iff)
  have cut: "Cut ?u (CHR ''.'') = (if f = [] then (w, [], False) else (w, f, True))"
    using wdot by (simp add: Cut_found Cut_not_found)
  have P: "ParseInt (w @ f @ replicate (scale - length f) (CHR ''0'')) = Some v"
    using assms(1-3,5,6) unfolding assms(5)
    by (intro ParseInt_digits) (auto simp: in64_def list_all_iff is_digit_def digit_val_def)
  have v: "int64 (- v) = - v" using assms(5,6) by (intro int64_id) (auto simp: in64_def)
  show ?thesis
    unfolding parseDecimal_def Let_def ts hp s1 pre cut
    using ne u assms(4) P v by (cases "f = []") auto
qed

section \<open>Round trips\<close>

lemma strip_zeros:
  "F = TrimRight F (CHR ''0'') @ replicate (length F - length (TrimRight F (CHR ''0''))) (CHR ''0'')"
proof (induction F rule: rev_induct)
  case (snoc x F)
  show ?case
  proof (cases "x = CHR ''0''")
    case True
    have le: "length (TrimRight F (CHR ''0'')) \<le> length F"
      by (simp add: TrimRight_def) (metis length_dropWhile_le length_rev)
    have "TrimRight (F @ [x]) (CHR ''0'') = TrimRight F (CHR ''0'')"
      using True by (simp add: TrimRight_def)
    then show ?thesis
      using snoc.IH le True by (simp add: Suc_diff_le replicate_append_same [symmetric] del: replicate_Suc)
        (metis append_assoc replicate_Suc replicate_append_same)
  next
    case False
    then show ?thesis by (simp add: TrimRight_def)
  qed
qed (simp add: TrimRight_def)

lemma TrimRight_after_dot:
  "TrimRight (w @ ''.'' @ F) (CHR ''0'') = w @ ''.'' @ TrimRight F (CHR ''0'')"
  by (cases "\<forall>c \<in> set F. c = CHR ''0''")
     (auto simp: TrimRight_def dropWhile_append)

lemma TrimRight_last: "s \<noteq> [] \<Longrightarrow> last s \<noteq> c \<Longrightarrow> TrimRight s c = s"
  by (cases s rule: rev_cases) (auto simp: TrimRight_def)

lemma TrimRight_set: "set (TrimRight s c) \<subseteq> set s"
  unfolding TrimRight_def by (metis set_dropWhileD set_rev subsetI)

lemma trimTrailingZeros_fixed:
  assumes "list_all is_digit w" and "w \<noteq> []" and "list_all is_digit F"
  shows "trimTrailingZeros (w @ ''.'' @ F) =
    (if TrimRight F (CHR ''0'') = [] then w else w @ ''.'' @ TrimRight F (CHR ''0''))"
proof (cases "TrimRight F (CHR ''0'') = []")
  case True
  have "last w \<noteq> CHR ''.''" using assms(1,2) digit_neq by (auto simp: list_all_iff)
  then have "TrimRight (w @ ''.'') (CHR ''.'') = w"
    using assms(2) TrimRight_last [of w "CHR ''.''"] by (simp add: TrimRight_def)
  then show ?thesis using True TrimRight_after_dot [of w F] by (simp add: trimTrailingZeros_def)
next
  case False
  then have "last (TrimRight F (CHR ''0'')) \<in> set F"
    by (rule subsetD [OF TrimRight_set last_in_set])
  then have "last (TrimRight F (CHR ''0'')) \<noteq> CHR ''.''"
    using assms(3) digit_neq by (auto simp: list_all_iff)
  then show ?thesis
    using False TrimRight_after_dot [of w F] TrimRight_last [of "w @ ''.'' @ TrimRight F (CHR ''0'')"]
    by (simp add: trimTrailingZeros_def)
qed

text \<open>The digits of a count: whole part, fraction of exactly \<open>scale\<close> digits, and their value.\<close>

lemma fixed_digits:
  assumes "0 < scale" and "0 \<le> n"
  defines "w \<equiv> dec (nat (n div 10 ^ scale))" and "F \<equiv> zero_pad scale (dec (nat (n mod 10 ^ scale)))"
  shows "list_all is_digit w" and "w \<noteq> []" and "list_all is_digit F" and "length F = scale"
    and "int (dec_val (w @ F)) = n"
proof -
  show "list_all is_digit w" "w \<noteq> []" "list_all is_digit F"
    by (simp_all add: w_def F_def zero_pad_digits)
  show len: "length F = scale" unfolding F_def by (rule frac_digits [OF assms(2,1)])
  have "int (dec_val (w @ F)) = (n div 10 ^ scale) * 10 ^ scale + n mod 10 ^ scale"
    using assms(2) by (simp add: dec_val_append len) (simp add: w_def F_def pos_imp_zdiv_nonneg_iff)
  then show "int (dec_val (w @ F)) = n" by (simp only: div_mult_mod_eq)
qed

lemma parse_stripped:
  assumes "0 < scale" and "scale \<le> 18" and "0 \<le> n" and "n < 2 ^ 63"
  shows "parseDecimal (parse_sign neg @ trimTrailingZeros (formatFixed n scale)) scale
    = Inr (if neg then - n else n)"
proof -
  let ?w = "dec (nat (n div 10 ^ scale))" and ?F = "zero_pad scale (dec (nat (n mod 10 ^ scale)))"
  let ?S = "TrimRight ?F (CHR ''0'')"
  note d = fixed_digits [OF assms(1,3)]
  have F: "?F = ?S @ replicate (scale - length ?S) (CHR ''0'')"
    using strip_zeros [of ?F] d(4) by simp
  have S: "list_all is_digit ?S" using d(3) TrimRight_set by (fastforce simp: list_all_iff)
  have len: "length ?S \<le> scale" using arg_cong [OF F, of length] d(4) by simp
  let ?t = "if ?S = [] then ?w else ?w @ ''.'' @ ?S"
  have t: "trimTrailingZeros (formatFixed n scale) = ?t"
    using trimTrailingZeros_fixed [OF d(1-3)] assms by (simp add: formatFixed_nonneg)
  have "RemoveAll ?t (CHR '','') = ?t"
    using d(1) S digit_neq unfolding RemoveAll_def by (intro filter_True) (auto simp: list_all_iff)
  moreover have "is_digit (hd ?t)" "is_digit (last ?t)"
    using d(1,2) S by (auto simp: list_all_iff hd_append)
  ultimately show ?thesis
    using parseDecimal_text [OF d(1,2) S len _ assms(4), of "''''" ?t neg] F d(5) t by simp
qed

lemma parse_fixed:
  assumes "0 < scale" and "scale \<le> 18" and "0 \<le> n" and "n < 2 ^ 63"
    and "g = '''' \<or> g = ''$''" and "RemoveAll t (CHR '','') = formatFixed n scale"
    and "is_digit (hd t)" and "is_digit (last t)"
  shows "parseDecimal (parse_sign neg @ g @ t) scale = Inr (if neg then - n else n)"
proof -
  note d = fixed_digits [OF assms(1,3)]
  have "zero_pad scale (dec (nat (n mod 10 ^ scale))) \<noteq> []" using d(4) assms(1) by auto
  then show ?thesis
    using parseDecimal_text [OF d(1-3) _ _ assms(4,5), of scale t neg] assms(6-8) d(4,5) assms(2,3)
    by (simp add: formatFixed_nonneg)
qed

lemma Micros_roundtrip:
  assumes "- (2 ^ 63) < m" and "m < 2 ^ 63"
  shows "ParseMicros (Micros_String m) = Inr m"
proof (cases "m < 0")
  case True
  have "CHR ''.'' \<in> set (formatFixed (- m) 6)" using True by (simp add: formatFixed_nonneg)
  then have "Micros_String m = parse_sign True @ trimTrailingZeros (formatFixed (- m) 6)"
    using formatFixed_neg [OF True assms(1), of 6] True
    by (auto simp: Micros_String_def trimTrailingZeros_def parse_sign_def TrimRight_def formatFixed_nonneg
        dropWhile_append)
  then show ?thesis using parse_stripped [of 6 "- m" True] True assms by (simp add: ParseMicros_def)
next
  case False
  then have "Micros_String m = parse_sign False @ trimTrailingZeros (formatFixed m 6)"
    by (simp add: Micros_String_def parse_sign_def)
  then show ?thesis using parse_stripped [of 6 m False] False assms by (simp add: ParseMicros_def)
qed

lemma Cents_roundtrip:
  assumes "- (2 ^ 63) < c" and "c < 2 ^ 63"
  shows "ParseCents (Cents_String c) = Inr c"
proof -
  have p: "parseDecimal (parse_sign neg @ formatFixed n 2) 2 = Inr (if neg then - n else n)"
    if "0 \<le> n" "n < 2 ^ 63" for neg n
  proof -
    note d = fixed_digits [of 2, OF _ that(1)]
    let ?t = "formatFixed n 2"
    have t: "?t = dec (nat (n div 10 ^ 2)) @ ''.'' @ zero_pad 2 (dec (nat (n mod 10 ^ 2)))"
      using that(1) by (subst formatFixed_nonneg) simp_all
    have "zero_pad 2 (dec (nat (n mod 10 ^ 2))) \<noteq> []" using d(4) by auto
    then have "RemoveAll ?t (CHR '','') = ?t" "is_digit (hd ?t)" "is_digit (last ?t)"
      using d(1-3) digit_neq unfolding t RemoveAll_def
      by (auto simp: list_all_iff filter_id_conv hd_append)
    then show ?thesis using parse_fixed [of 2 n "''''" ?t neg] that by simp
  qed
  show ?thesis
    using p [of "- c" True] p [of c False] assms formatFixed_neg [of c 2]
    by (cases "c < 0") (simp_all add: ParseCents_def Cents_String_def parse_sign_def)
qed

lemma RemoveAll_group3: "RemoveAll (group3 s) (CHR '','') = RemoveAll s (CHR '','')"
proof (induction s rule: group3.induct)
  case (2 c s)
  have "RemoveAll (c # s) (CHR '','') =
      RemoveAll (take 3 (c # s)) (CHR '','') @ RemoveAll (drop 3 (c # s)) (CHR '','')"
    unfolding RemoveAll_def by (metis append_take_drop_id filter_append)
  with 2 show ?case by (simp add: RemoveAll_def)
qed simp

lemma RemoveAll_groupThousands: "RemoveAll (groupThousands s) (CHR '','') = RemoveAll s (CHR '','')"
proof -
  have "RemoveAll (take k s @ group3 (drop k s)) (CHR '','') = RemoveAll s (CHR '','')" for k
    using RemoveAll_group3 [of "drop k s"] unfolding RemoveAll_def
    by (metis append_take_drop_id filter_append)
  then show ?thesis by (simp add: groupThousands_def Let_def)
qed

lemma groupThousands_hd: "s \<noteq> [] \<Longrightarrow> groupThousands s \<noteq> [] \<and> hd (groupThousands s) = hd s"
  by (cases s) (auto simp: groupThousands_def Let_def take_Cons split: nat.split)

lemma FormatUSD_roundtrip:
  assumes "- (2 ^ 63) < c" and "c < 2 ^ 63"
  shows "ParseCents (FormatUSD c) = Inr c"
proof -
  have p: "parseDecimal (parse_sign neg @ ''$'' @ groupThousands (dec (nat (n div 10 ^ 2))) @ ''.''
        @ zero_pad 2 (dec (nat (n mod 10 ^ 2)))) 2 = Inr (if neg then - n else n)"
    (is "parseDecimal (_ @ _ @ ?g @ _ @ ?F) 2 = _")
    and cut: "Cut (formatFixed n 2) (CHR ''.'') =
      (dec (nat (n div 10 ^ 2)), zero_pad 2 (dec (nat (n mod 10 ^ 2))), True)"
    if "0 \<le> n" "n < 2 ^ 63" for neg n
  proof -
    note d = fixed_digits [of 2, OF _ that(1)]
    have t: "formatFixed n 2 = dec (nat (n div 10 ^ 2)) @ ''.'' @ ?F"
      using that(1) by (subst formatFixed_nonneg) simp_all
    have F: "?F \<noteq> []" using d(4) by auto
    note h = groupThousands_hd [OF d(2)]
    have "RemoveAll (?g @ ''.'' @ ?F) (CHR '','') = formatFixed n 2"
      using RemoveAll_groupThousands [of "dec (nat (n div 10 ^ 2))"] d(1,3) digit_neq
      unfolding t RemoveAll_def by (auto simp: list_all_iff filter_id_conv)
    moreover have "is_digit (hd (?g @ ''.'' @ ?F))" "is_digit (last (?g @ ''.'' @ ?F))"
      using h d(1,2,3) F by (auto simp: list_all_iff)
    ultimately show "parseDecimal (parse_sign neg @ ''$'' @ ?g @ ''.'' @ ?F) 2
        = Inr (if neg then - n else n)"
      using parse_fixed [of 2 n "''$''" "?g @ ''.'' @ ?F" neg] that by simp
    have "CHR ''.'' \<notin> set (dec (nat (n div 10 ^ 2)))"
      using d(1) digit_neq by (auto simp: list_all_iff)
    then show "Cut (formatFixed n 2) (CHR ''.'') = (dec (nat (n div 10 ^ 2)), ?F, True)"
      unfolding t by (simp add: Cut_found)
  qed
  have i: "c < 0 \<Longrightarrow> int64 (- c) = - c" using assms by (intro int64_id) (simp add: in64_def)
  show ?thesis
    using p [of "- c" True] p [of c False] cut [of "- c"] cut [of c] assms i
    by (cases "c < 0") (simp_all add: ParseCents_def FormatUSD_def parse_sign_def Let_def)
qed

text \<open>C34: The text of an amount reads back as the amount: a rate, a dollar amount, and a dollar amount
  with its sign, dollar mark and thousands separators, for every 64-bit value but the smallest.\<close>

theorem money_roundtrip:
  assumes "- (2 ^ 63) < x" and "x < 2 ^ 63"
  shows "ParseMicros (Micros_String x) = Inr x \<and> ParseCents (Cents_String x) = Inr x \<and>
    ParseCents (FormatUSD x) = Inr x"
  using Micros_roundtrip Cents_roundtrip FormatUSD_roundtrip assms by simp

theorem money_roundtrip_witness:
  "ParseMicros (Micros_String (- 1234567)) = Inr (- 1234567) \<and> ParseCents (FormatUSD 123456789) = Inr 123456789"
  using money_roundtrip [of "- 1234567"] money_roundtrip [of 123456789] by simp

text \<open>The smallest value does not survive: \<open>-n\<close> overflows and the text has two signs.\<close>

lemma Micros_String_min: "Micros_String (- (2 ^ 63)) = ''--9223372036854.-775808''"
  by (simp add: Micros_String_def formatFixed_def Let_def pow10_small int64_def go_div_def go_mod_def
      fmt_d_def fmt_0d_def dec.simps digit_def zero_pad_def trimTrailingZeros_def TrimRight_def)

theorem Micros_roundtrip_min: "ParseMicros (Micros_String (- (2 ^ 63))) = Inl (ErrInput ''too many fractional digits'')"
  unfolding Micros_String_min
  by (simp add: ParseMicros_def parseDecimal_def TrimSpace_def is_space_def Let_def HasPrefix_def
      TrimPrefix_def RemoveAll_def Cut_def ParseInt_def parse_digits_def is_digit_def digit_val_def)

text \<open>A sign after the sign is accepted: \<open>--5\<close> reads as \<open>5\<close> and \<open>$-5\<close> as \<open>-5\<close>.\<close>

theorem parseDecimal_double_sign:
  "ParseCents ''--5'' = Inr 500" "ParseCents ''$-5'' = Inr (- 500)"
  by (simp_all add: ParseCents_def parseDecimal_def TrimSpace_def is_space_def Let_def HasPrefix_def
      TrimPrefix_def RemoveAll_def Cut_def ParseInt_def parse_digits_def is_digit_def digit_val_def
      dec_val_def in64_def int64_def numeral_eq_Suc)

end
