(* ===== verification/LedgerTypes.thy ===== *)
theory LedgerTypes
  imports DateText Money
begin

text \<open>
  \<open>internal/ledger/types.go\<close> and \<open>parse.go\<close>: the ledger's data types, the use year of a
  date, and the parser of month names.  An entry as the table stores it is an \<open>entry_row\<close>;
  \<open>entry\<close> adds the four fields \<open>ListEntries\<close>, \<open>PriceEntries\<close> derive and never store.
\<close>

section \<open>Data\<close>

abbreviation KindAllocation :: string where "KindAllocation \<equiv> ''allocation''"
abbreviation KindUsage :: string where "KindUsage \<equiv> ''usage''"
abbreviation KindBonus :: string where "KindBonus \<equiv> ''bonus''"
abbreviation KindSingleUse :: string where "KindSingleUse \<equiv> ''single_use''"
abbreviation KindAdjustment :: string where "KindAdjustment \<equiv> ''adjustment''"

record entry_row =
  e_ID :: int
  e_UseYear :: int
  e_Date :: date
  e_Desc :: string
  e_Kind :: string
  e_Allotted :: int
  e_Used :: int
  e_Tag :: string
  e_ContractID :: "int option"

record entry = entry_row +
  RunningBalance :: int
  e_Cost :: cents
  e_CostKnown :: bool
  e_CostProjected :: bool

record contract =
  c_ID :: int
  c_Name :: string
  c_Number :: string
  c_HomeResort :: string
  c_AnnualPoints :: int
  c_UseYearMonth :: month
  c_TermYears :: int
  c_PurchasePrice :: cents
  c_ClosingCosts :: cents

record use_year_summary =
  s_UseYear :: int
  s_Allotted :: int
  s_Used :: int
  s_Net :: int
  s_OverBorrowed :: bool
  s_Cost :: cents
  s_CostKnown :: bool
  s_CostProjected :: bool

record dues_rate =
  d_UseYear :: int
  d_Rate :: micros

section \<open>Use years\<close>

definition UseYearForDate :: "date \<Rightarrow> month \<Rightarrow> int" where
  "UseYearForDate d startMonth = (if startMonth \<le> date_Month d then date_Year d else date_Year d - 1)"

definition UseYearStartMonth :: "contract list \<Rightarrow> month" where
  "UseYearStartMonth contracts = (case contracts of [] \<Rightarrow> 1 | c # _ \<Rightarrow> c_UseYearMonth c)"

text \<open>A use year begins on the first day of its start month; the later years hold exactly the
  dates from that day on.\<close>

lemma UseYearForDate_ge:
  assumes m: "1 \<le> m" "m \<le> 12"
  shows "y \<le> UseYearForDate d m \<longleftrightarrow> go_Date y m 1 \<le> d"
proof -
  let ?Y = "date_Year d" and ?M = "date_Month d" and ?D = "date_Day d"
  note v = date_valid [of d] valid_civil_first [OF m, of y]
  have day: "1 \<le> ?D" using date_Day_range(1) .
  have dd: "days_from_civil ?Y ?M ?D = d" by (rule days_from_civil_civil)
  have lt: "d < go_Date y m 1" if "?Y < y \<or> ?Y = y \<and> ?M < m"
    using days_from_civil_less [OF v] that unfolding dd go_Date_in_range [OF m] by blast
  have gt: "go_Date y m 1 < d" if "y < ?Y \<or> y = ?Y \<and> m < ?M"
    using days_from_civil_less [OF v(2,1)] that unfolding dd go_Date_in_range [OF m] by blast
  have eq: "go_Date y m 1 \<le> d" if "y = ?Y" "m = ?M"
    using day dd go_Date_in_range [OF m, of y] by (simp add: that days_from_civil_def)
  show ?thesis
    unfolding UseYearForDate_def
    by (cases "?Y < y \<or> ?Y = y \<and> ?M < m"; cases "y < ?Y \<or> y = ?Y \<and> m < ?M") (use lt gt eq in auto)
qed

lemma UseYearForDate_mono:
  assumes "1 \<le> m" "m \<le> 12" and "d \<le> d'"
  shows "UseYearForDate d m \<le> UseYearForDate d' m"
  using UseYearForDate_ge [OF assms(1,2), of "UseYearForDate d m" d]
    UseYearForDate_ge [OF assms(1,2), of "UseYearForDate d m" d'] assms(3) by simp

text \<open>The first day of a use year, and the day before it.\<close>

lemma UseYearForDate_first:
  assumes "1 \<le> m" "m \<le> 12"
  shows "UseYearForDate (go_Date y m 1) m = y"
  using assms by (simp add: UseYearForDate_def go_Date_in_range date_parts [OF valid_civil_first])

lemma UseYearForDate_between:
  assumes "1 \<le> m" and "m \<le> 12"
  shows "UseYearForDate d m = y \<longleftrightarrow> go_Date y m 1 \<le> d \<and> d < go_Date (y + 1) m 1"
  using UseYearForDate_ge [OF assms, of y d] UseYearForDate_ge [OF assms, of "y + 1" d] by linarith

lemma use_year_starts_mono:
  assumes "1 \<le> m" "m \<le> 12" and "y \<le> y'"
  shows "go_Date y m 1 \<le> go_Date y' m 1"
  using UseYearForDate_ge [OF assms(1,2), of y "go_Date y' m 1"] UseYearForDate_first [OF assms(1,2)] assms(3)
  by simp

text \<open>A date belongs to use year \<open>y\<close> exactly when it lies from the first day of the contract's start month
  in year \<open>y\<close> up to, not including, the same day a year later.\<close>

theorem use_year_span:
  assumes "1 \<le> m" and "m \<le> 12"
  shows "UseYearForDate d m = y \<longleftrightarrow> go_Date y m 1 \<le> d \<and> d < go_Date (y + 1) m 1"
  by (rule UseYearForDate_between [OF assms])

theorem use_year_span_witness:
  "UseYearForDate 20499 4 = 2025 \<and> go_Date 2025 4 1 \<le> 20499 \<and> 20499 < go_Date 2026 4 1"
proof -
  have "UseYearForDate 20499 4 = 2025" by code_simp
  then show ?thesis using use_year_span [of 4 20499 2025] by simp
qed

section \<open>Month names\<close>

definition month_names :: "string list" where
  "month_names = [''January'', ''February'', ''March'', ''April'', ''May'', ''June'', ''July'',
     ''August'', ''September'', ''October'', ''November'', ''December'']"

definition lower :: "char \<Rightarrow> char" where
  "lower c = (let n = of_char c :: nat in if 65 \<le> n \<and> n \<le> 90 then char_of (n + 32) else c)"

definition EqualFold :: "string \<Rightarrow> string \<Rightarrow> bool" where
  "EqualFold s t \<longleftrightarrow> map lower s = map lower t"

fun month_named :: "string \<Rightarrow> (month \<times> string) list \<Rightarrow> month option" where
  "month_named s [] = None"
| "month_named s ((m, name) # ms) =
     (if EqualFold s name \<or> EqualFold s (take 3 name) then Some m else month_named s ms)"

definition ParseMonth :: "string \<Rightarrow> month result" where
  "ParseMonth str =
     (let s = TrimSpace str in
      case month_named s (zip [1..12] month_names) of
        Some m \<Rightarrow> Inr m
      | None \<Rightarrow> (case Atoi s of
          Some n \<Rightarrow> if 1 \<le> n \<and> n \<le> 12 then Inr n else Inl (ErrInput ''invalid month'')
        | None \<Rightarrow> Inl (ErrInput ''invalid month'')))"

lemma month_named_range: "month_named s ms = Some m \<Longrightarrow> m \<in> fst ` set ms"
  by (induction s ms rule: month_named.induct) (auto split: if_splits)

lemma ParseMonth_range: "ParseMonth s = Inr m \<Longrightarrow> 1 \<le> m \<and> m \<le> 12"
  by (auto simp: ParseMonth_def Let_def month_names_def upto.simps split: option.splits if_splits
      dest!: month_named_range)

lemma month_names_all: "list_all (\<lambda>(m, name). ParseMonth name = Inr m \<and> ParseMonth (take 3 name) = Inr m)
    (zip [1..12] month_names)"
  by (simp add: month_names_def upto.simps ParseMonth_def TrimSpace_def is_space_def EqualFold_def
      lower_def Let_def)

end
