(* ===== verification/Allocation.thy ===== *)
theory Allocation
  imports LedgerTypes
begin

text \<open>
  \<open>internal/ledger/allocation.go\<close> and the \<open>shortfall\<close> search of \<open>trip_accounting.go\<close>: which
  lots of points fund a stay.  A lot is one contract's points of one use year; a stay may draw on
  the use year before its own (banked), its own (current) and the next one (borrowed), in that
  order, per contract.  The contract of the allocator is stated over sets of lots and proved of the
  sorted walk the code makes.
\<close>

section \<open>Data\<close>

abbreviation DispositionBanked :: string where "DispositionBanked \<equiv> ''banked''"
abbreviation DispositionCurrent :: string where "DispositionCurrent \<equiv> ''current''"
abbreviation DispositionBorrowed :: string where "DispositionBorrowed \<equiv> ''borrowed''"

record point_lot =
  l_ContractID :: int
  l_UseYear :: int
  l_Points :: int

record point_draw =
  dr_ContractID :: int
  dr_UseYear :: int
  dr_Disposition :: string
  dr_Points :: int

type_synonym lot_key = "int \<times> int"

record candidate =
  ca_key :: lot_key
  ca_disposition :: string
  ca_rank :: int

definition lot_key_of :: "point_lot \<Rightarrow> lot_key" where
  "lot_key_of l = (l_ContractID l, l_UseYear l)"

definition draw_key :: "point_draw \<Rightarrow> lot_key" where
  "draw_key d = (dr_ContractID d, dr_UseYear d)"

section \<open>\<open>AllocateStayPoints\<close>\<close>

definition months_of :: "contract list \<Rightarrow> int \<Rightarrow> month option" where
  "months_of contracts = foldl (\<lambda>m c. m(c_ID c \<mapsto> c_UseYearMonth c)) (\<lambda>_. None) contracts"

definition remaining_of :: "point_lot list \<Rightarrow> point_draw list \<Rightarrow> lot_key \<Rightarrow> int" where
  "remaining_of lots consumed =
     acc_add draw_key (\<lambda>d. - dr_Points d) consumed (acc_add lot_key_of l_Points lots (\<lambda>_. 0))"

text \<open>The \<open>switch\<close> on the lot's use year, for a contract with a known start month.\<close>

definition classify :: "date \<Rightarrow> month \<Rightarrow> lot_key \<Rightarrow> candidate option" where
  "classify checkIn month key =
     (let uy = UseYearForDate checkIn month in
      if snd key = uy - 1 then Some \<lparr>ca_key = key, ca_disposition = DispositionBanked, ca_rank = 0\<rparr>
      else if snd key = uy then Some \<lparr>ca_key = key, ca_disposition = DispositionCurrent, ca_rank = 1\<rparr>
      else if snd key = uy + 1 then Some \<lparr>ca_key = key, ca_disposition = DispositionBorrowed, ca_rank = 2\<rparr>
      else None)"

fun collect :: "(int \<Rightarrow> month option) \<Rightarrow> (lot_key \<Rightarrow> int) \<Rightarrow> date \<Rightarrow> (lot_key \<Rightarrow> bool) \<Rightarrow> point_lot list \<Rightarrow> candidate list" where
  "collect months remaining checkIn seen [] = []"
| "collect months remaining checkIn seen (lot # lots) =
     (let key = lot_key_of lot in
      if remaining key \<le> 0 then collect months remaining checkIn seen lots
      else if seen key then collect months remaining checkIn seen lots
      else (case months (l_ContractID lot) of
          None \<Rightarrow> collect months remaining checkIn seen lots
        | Some month \<Rightarrow> (case classify checkIn month key of
            None \<Rightarrow> collect months remaining checkIn seen lots
          | Some c \<Rightarrow> c # collect months remaining checkIn (seen(key := True)) lots)))"

definition candidate_less :: "candidate \<Rightarrow> candidate \<Rightarrow> bool" where
  "candidate_less a b \<longleftrightarrow>
     (if ca_rank a \<noteq> ca_rank b then ca_rank a < ca_rank b else fst (ca_key a) < fst (ca_key b))"

fun draw_loop :: "(lot_key \<Rightarrow> int) \<Rightarrow> int \<Rightarrow> candidate list \<Rightarrow> point_draw list \<times> int" where
  "draw_loop remaining need [] = ([], need)"
| "draw_loop remaining need (c # cs) =
     (if need = 0 then ([], need)
      else
        let available = remaining (ca_key c);
            draw = min need available;
            (result, need') = draw_loop (remaining(ca_key c := remaining (ca_key c) - draw)) (need - draw) cs
        in (\<lparr>dr_ContractID = fst (ca_key c), dr_UseYear = snd (ca_key c),
             dr_Disposition = ca_disposition c, dr_Points = draw\<rparr> # result, need'))"

definition candidates_of :: "contract list \<Rightarrow> point_lot list \<Rightarrow> point_draw list \<Rightarrow> date \<Rightarrow> candidate list" where
  "candidates_of contracts lots consumed checkIn =
     sort_slice candidate_less
       (collect (months_of contracts) (remaining_of lots consumed) checkIn (\<lambda>_. False) lots)"

definition AllocateStayPoints ::
    "contract list \<Rightarrow> point_lot list \<Rightarrow> point_draw list \<Rightarrow> date \<Rightarrow> int \<Rightarrow> point_draw list result" where
  "AllocateStayPoints contracts lots consumed checkIn points =
     (if points \<le> 0 then Inr []
      else
        let (result, need) = draw_loop (remaining_of lots consumed) points
              (candidates_of contracts lots consumed checkIn)
        in if need \<noteq> 0 then Inl ErrInsufficientPoints else Inr result)"

section \<open>\<open>shortfall\<close>\<close>

function shortfall_search :: "(int \<Rightarrow> bool) \<Rightarrow> int \<Rightarrow> int \<Rightarrow> int" where
  "shortfall_search ok lo hi =
     (if lo < hi
      then let mid = go_div (lo + hi + 1) 2 in
        if ok mid then shortfall_search ok mid hi else shortfall_search ok lo (mid - 1)
      else lo)"
  by pat_completeness auto

lemma go_div_two: "x - 1 \<le> 2 * go_div x 2 \<and> 2 * go_div x 2 \<le> x + 1"
  by (auto simp: go_div_def)

lemma mid_bounds: "lo < hi \<Longrightarrow> lo < go_div (lo + hi + 1) 2 \<and> go_div (lo + hi + 1) 2 \<le> hi"
  using go_div_two [of "lo + hi + 1"] by linarith

termination shortfall_search
  by (relation "measure (\<lambda>(ok, lo, hi). nat (hi - lo))") (auto dest: mid_bounds simp: nat_less_iff)

declare shortfall_search.simps [simp del]

definition shortfall :: "contract list \<Rightarrow> point_lot list \<Rightarrow> point_draw list \<Rightarrow> date \<Rightarrow> int \<Rightarrow> int" where
  "shortfall contracts lots consumed checkIn points =
     points - shortfall_search (\<lambda>mid. is_ok (AllocateStayPoints contracts lots consumed checkIn mid)) 0 points"

text \<open>The search finds the boundary of any test that holds up to a bound and not above it.\<close>

locale threshold_test =
  fixes ok :: "int \<Rightarrow> bool" and bound :: int
  assumes ok_iff: "0 \<le> n \<Longrightarrow> ok n \<longleftrightarrow> n \<le> bound" and bound_nonneg: "0 \<le> bound"
begin

lemma search_boundary:
  "0 \<le> lo \<Longrightarrow> lo \<le> bound \<Longrightarrow> bound \<le> hi \<Longrightarrow> shortfall_search ok lo hi = bound"
proof (induction "nat (hi - lo)" arbitrary: lo hi rule: less_induct)
  case less
  let ?mid = "go_div (lo + hi + 1) 2"
  show ?case
  proof (cases "lo < hi")
    case True
    note m = mid_bounds [OF True]
    have "ok ?mid \<longleftrightarrow> ?mid \<le> bound" using m less.prems(1) by (intro ok_iff) simp
    then show ?thesis
      using less.hyps [of hi ?mid] less.hyps [of "?mid - 1" lo] less.prems m True
      by (subst shortfall_search.simps) (auto simp: Let_def)
  next
    case False
    then show ?thesis using less.prems by (subst shortfall_search.simps) simp
  qed
qed

end

section \<open>What the lots can fund\<close>

text \<open>The lots a stay may draw on: those with points left, of a known contract, within one use
  year of the stay's own.\<close>

definition eligible_year :: "contract list \<Rightarrow> date \<Rightarrow> lot_key \<Rightarrow> bool" where
  "eligible_year contracts checkIn k \<longleftrightarrow>
     (case months_of contracts (fst k) of None \<Rightarrow> False
      | Some m \<Rightarrow> \<bar>snd k - UseYearForDate checkIn m\<bar> \<le> 1)"

definition eligible :: "contract list \<Rightarrow> point_lot list \<Rightarrow> point_draw list \<Rightarrow> date \<Rightarrow> lot_key set" where
  "eligible contracts lots consumed checkIn =
     {k \<in> lot_key_of ` set lots. 0 < remaining_of lots consumed k \<and> eligible_year contracts checkIn k}"

definition funding_capacity :: "contract list \<Rightarrow> point_lot list \<Rightarrow> point_draw list \<Rightarrow> date \<Rightarrow> int" where
  "funding_capacity contracts lots consumed checkIn =
     (\<Sum>k \<in> eligible contracts lots consumed checkIn. remaining_of lots consumed k)"

text \<open>The order of preference: the use year relative to the stay's own, then the contract.\<close>

definition lot_rank :: "contract list \<Rightarrow> date \<Rightarrow> lot_key \<Rightarrow> int \<times> int" where
  "lot_rank contracts checkIn k =
     (snd k - UseYearForDate checkIn (the (months_of contracts (fst k))), fst k)"

definition disposition_of :: "contract list \<Rightarrow> date \<Rightarrow> lot_key \<Rightarrow> string" where
  "disposition_of contracts checkIn k =
     (let r = fst (lot_rank contracts checkIn k)
      in if r < 0 then DispositionBanked else if r = 0 then DispositionCurrent else DispositionBorrowed)"

definition candidate_for :: "contract list \<Rightarrow> date \<Rightarrow> lot_key \<Rightarrow> candidate" where
  "candidate_for contracts checkIn k =
     \<lparr>ca_key = k, ca_disposition = disposition_of contracts checkIn k,
      ca_rank = fst (lot_rank contracts checkIn k) + 1\<rparr>"

lemma classify_candidate:
  "months_of contracts (fst k) = Some m \<Longrightarrow>
     classify checkIn m k = (if eligible_year contracts checkIn k then Some (candidate_for contracts checkIn k) else None)"
  by (auto simp: classify_def Let_def eligible_year_def candidate_for_def disposition_of_def lot_rank_def)

lemma eligible_year_month:
  "eligible_year contracts checkIn k \<Longrightarrow> \<exists>m. months_of contracts (fst k) = Some m"
  by (auto simp: eligible_year_def split: option.splits)

lemma collect_Cons:
  "collect (months_of contracts) remaining checkIn seen (lot # lots) =
     (if 0 < remaining (lot_key_of lot) \<and> \<not> seen (lot_key_of lot) \<and> eligible_year contracts checkIn (lot_key_of lot)
      then candidate_for contracts checkIn (lot_key_of lot) #
        collect (months_of contracts) remaining checkIn (seen(lot_key_of lot := True)) lots
      else collect (months_of contracts) remaining checkIn seen lots)"
proof (cases "months_of contracts (l_ContractID lot)")
  case None
  then have "\<not> eligible_year contracts checkIn (lot_key_of lot)"
    by (simp add: eligible_year_def lot_key_of_def)
  then show ?thesis by (simp add: Let_def None)
next
  case (Some m)
  then have "months_of contracts (fst (lot_key_of lot)) = Some m" by (simp add: lot_key_of_def)
  then show ?thesis by (simp add: Let_def Some classify_candidate)
qed

lemma collect_spec:
  "\<exists>ks. collect (months_of contracts) remaining checkIn seen lots = map (candidate_for contracts checkIn) ks \<and>
     distinct ks \<and> set ks = {k \<in> lot_key_of ` set lots. 0 < remaining k \<and> \<not> seen k \<and> eligible_year contracts checkIn k}"
proof (induction lots arbitrary: seen)
  case (Cons lot lots)
  let ?k = "lot_key_of lot"
  show ?case
  proof (cases "0 < remaining ?k \<and> \<not> seen ?k \<and> eligible_year contracts checkIn ?k")
    case True
    obtain ks where ks: "collect (months_of contracts) remaining checkIn (seen(?k := True)) lots = map (candidate_for contracts checkIn) ks"
      "distinct ks"
      "set ks = {k \<in> lot_key_of ` set lots. 0 < remaining k \<and> \<not> (seen(?k := True)) k \<and> eligible_year contracts checkIn k}"
      using Cons.IH by blast
    show ?thesis
      by (rule exI [of _ "?k # ks"]) (use True ks in \<open>auto simp: collect_Cons simp del: collect.simps\<close>)
  next
    case False
    obtain ks where "collect (months_of contracts) remaining checkIn seen lots = map (candidate_for contracts checkIn) ks"
      "distinct ks" "set ks = {k \<in> lot_key_of ` set lots. 0 < remaining k \<and> \<not> seen k \<and> eligible_year contracts checkIn k}"
      using Cons.IH by blast
    then show ?thesis
      using False by (intro exI [of _ ks]) (auto simp: collect_Cons simp del: collect.simps)
  qed
qed simp

section \<open>The sorted candidates\<close>

interpretation candidate_order: slice_sort "\<lambda>c. (ca_rank c, fst (ca_key c))" "sort_slice candidate_less"
  by (rule slice_sort_key) (auto simp: candidate_less_def less_prod_def)

text \<open>Within one contract the rank gives the use year, so no two candidates tie.\<close>

lemma candidate_key_inj:
  assumes "\<And>k. k \<in> set ks \<Longrightarrow> eligible_year contracts checkIn k"
  shows "inj_on (\<lambda>c. (ca_rank c, fst (ca_key c))) (candidate_for contracts checkIn ` set ks)"
  using assms by (auto simp: inj_on_def candidate_for_def lot_rank_def prod_eq_iff)

lemma lot_rank_inj: "lot_rank contracts checkIn k = lot_rank contracts checkIn k' \<Longrightarrow> k = k'"
  by (auto simp: lot_rank_def prod_eq_iff)

definition eligible_list :: "contract list \<Rightarrow> point_lot list \<Rightarrow> point_draw list \<Rightarrow> date \<Rightarrow> lot_key list" where
  "eligible_list contracts lots consumed checkIn =
     map ca_key (candidates_of contracts lots consumed checkIn)"

lemma eligible_list_spec:
  shows "candidates_of contracts lots consumed checkIn =
      map (candidate_for contracts checkIn) (eligible_list contracts lots consumed checkIn)" (is ?A)
    and "distinct (eligible_list contracts lots consumed checkIn)" (is ?B)
    and "set (eligible_list contracts lots consumed checkIn) = eligible contracts lots consumed checkIn" (is ?C)
    and "sorted (map (lot_rank contracts checkIn) (eligible_list contracts lots consumed checkIn))" (is ?D)
proof -
  let ?cs = "collect (months_of contracts) (remaining_of lots consumed) checkIn (\<lambda>_. False) lots"
  obtain ks where ks: "?cs = map (candidate_for contracts checkIn) ks" "distinct ks"
    "set ks = eligible contracts lots consumed checkIn"
    using collect_spec [of contracts "remaining_of lots consumed" checkIn "\<lambda>_. False" lots]
    by (auto simp: eligible_def)
  have key: "ca_key (candidate_for contracts checkIn k) = k" for k
    by (simp add: candidate_for_def)
  have mem: "c \<in> candidate_for contracts checkIn ` set ks" if "c \<in> set (candidates_of contracts lots consumed checkIn)" for c
    using that by (simp add: candidates_of_def ks(1) candidate_order.sorter_set)
  then have cand: "map (candidate_for contracts checkIn \<circ> ca_key) (candidates_of contracts lots consumed checkIn) =
      candidates_of contracts lots consumed checkIn"
    using key by (intro map_idI) force
  then show ?A by (simp add: eligible_list_def)
  have m: "mset (eligible_list contracts lots consumed checkIn) = mset ks"
    unfolding eligible_list_def candidates_of_def mset_map candidate_order.sorter_mset ks(1)
    by (simp add: key image_mset.compositionality comp_def)
  show ?B using m ks(2) mset_eq_imp_distinct_iff by blast
  show ?C using m ks(3) by (metis set_mset_mset)
  have "sorted (map (\<lambda>c. (ca_rank c, fst (ca_key c))) (candidates_of contracts lots consumed checkIn))"
    unfolding candidates_of_def by (rule candidate_order.sorter_sorted)
  then have s: "sorted (map (\<lambda>k. (fst (lot_rank contracts checkIn k) + 1, fst k))
      (eligible_list contracts lots consumed checkIn))"
    unfolding \<open>?A\<close> by (simp add: candidate_for_def comp_def)
  have le: "lot_rank contracts checkIn k \<le> lot_rank contracts checkIn k'"
    if "(fst (lot_rank contracts checkIn k) + 1, fst k) \<le> (fst (lot_rank contracts checkIn k') + 1, fst k')" for k k'
    using that by (auto simp: less_eq_prod_def lot_rank_def)
  show ?D using s unfolding sorted_map by (rule sorted_wrt_mono_rel [rotated]) (rule le)
qed

lemma finite_eligible [simp]: "finite (eligible contracts lots consumed checkIn)"
  by (simp add: eligible_def)

lemma funding_capacity_list:
  "funding_capacity contracts lots consumed checkIn =
     sum_list (map (remaining_of lots consumed) (eligible_list contracts lots consumed checkIn))"
  unfolding funding_capacity_def
  by (simp add: sum_list_distinct_conv_sum_set eligible_list_spec)

lemma funding_capacity_nonneg: "0 \<le> funding_capacity contracts lots consumed checkIn"
  by (auto simp: funding_capacity_def eligible_def intro!: sum_nonneg)

section \<open>The draws\<close>

text \<open>What the loop takes from each lot, over the sorted keys.\<close>

fun take_points :: "(lot_key \<Rightarrow> int) \<Rightarrow> int \<Rightarrow> lot_key list \<Rightarrow> (lot_key \<times> int) list" where
  "take_points r need [] = []"
| "take_points r need (k # ks) =
     (if need = 0 then [] else (k, min need (r k)) # take_points r (need - min need (r k)) ks)"

definition mk_draw :: "contract list \<Rightarrow> date \<Rightarrow> lot_key \<times> int \<Rightarrow> point_draw" where
  "mk_draw contracts checkIn kp =
     \<lparr>dr_ContractID = fst (fst kp), dr_UseYear = snd (fst kp),
      dr_Disposition = disposition_of contracts checkIn (fst kp), dr_Points = snd kp\<rparr>"

lemma take_points_0 [simp]: "take_points r 0 ks = []"
  by (cases ks) simp_all

lemma take_points_cong:
  "(\<And>k. k \<in> set ks \<Longrightarrow> r k = r' k) \<Longrightarrow> take_points r need ks = take_points r' need ks"
  by (induction ks arbitrary: need) auto

lemma draw_loop_take:
  assumes "distinct ks" and "\<And>k. k \<in> set ks \<Longrightarrow> 0 < r k" and "0 \<le> need"
  shows "draw_loop r need (map (candidate_for contracts checkIn) ks) =
    (map (mk_draw contracts checkIn) (take_points r need ks), max 0 (need - sum_list (map r ks)))"
  using assms
proof (induction ks arbitrary: r need)
  case (Cons k ks)
  let ?r = "r(k := r k - min need (r k))"
  have eq: "map ?r ks = map r ks" using Cons.prems(1) by (intro map_cong) auto
  have nn: "0 \<le> sum_list (map r ks)" using Cons.prems(2) by (intro sum_list_map_nonneg) force
  have IH: "draw_loop ?r (need - min need (r k)) (map (candidate_for contracts checkIn) ks) =
      (map (mk_draw contracts checkIn) (take_points r (need - min need (r k)) ks),
       max 0 (need - min need (r k) - sum_list (map r ks)))"
  proof -
    have same: "?r k' = r k'" if "k' \<in> set ks" for k' using that Cons.prems(1) by auto
    have "draw_loop ?r (need - min need (r k)) (map (candidate_for contracts checkIn) ks) =
        (map (mk_draw contracts checkIn) (take_points ?r (need - min need (r k)) ks),
         max 0 (need - min need (r k) - sum_list (map ?r ks)))"
      using Cons.prems same by (intro Cons.IH) auto
    moreover have "take_points ?r n ks = take_points r n ks" for n
      by (rule take_points_cong) (rule same)
    ultimately show ?thesis by (simp only: eq)
  qed
  show ?case
  proof (cases "need = 0")
    case True
    then show ?thesis using nn Cons.prems(2) [of k] by simp
  next
    case False
    have head: "ca_key (candidate_for contracts checkIn k) = k"
      "ca_disposition (candidate_for contracts checkIn k) = disposition_of contracts checkIn k"
      by (simp_all add: candidate_for_def)
    have m: "max 0 (need - min need (r k) - sum_list (map r ks)) = max 0 (need - (r k + sum_list (map r ks)))"
      using nn Cons.prems(2) [of k] by (auto simp: min_def max_def)
    show ?thesis
      unfolding list.map draw_loop.simps take_points.simps head Let_def IH m
      using False by (simp add: mk_draw_def)
  qed
qed simp

lemma take_points_sum:
  "(\<And>k. k \<in> set ks \<Longrightarrow> 0 < r k) \<Longrightarrow> 0 \<le> need \<Longrightarrow> need \<le> sum_list (map r ks) \<Longrightarrow>
     sum_list (map snd (take_points r need ks)) = need"
  by (induction ks arbitrary: need) (auto simp: min_def)

lemma take_points_member:
  "(\<And>k. k \<in> set ks \<Longrightarrow> 0 < r k) \<Longrightarrow> 0 \<le> need \<Longrightarrow> (k, p) \<in> set (take_points r need ks) \<Longrightarrow>
     k \<in> set ks \<and> 0 < p \<and> p \<le> r k"
proof (induction ks arbitrary: need)
  case (Cons x xs)
  have x: "0 < r x" using Cons.prems(1) by simp
  from Cons.prems(3) consider "(k, p) = (x, min need (r x))" "need \<noteq> 0"
    | "(k, p) \<in> set (take_points r (need - min need (r x)) xs)"
    by (auto split: if_splits)
  then show ?case
    using Cons.IH [of "need - min need (r x)"] Cons.prems x by cases auto
qed simp

lemma take_points_distinct: "distinct ks \<Longrightarrow> distinct (map fst (take_points r need ks))"
proof (induction ks arbitrary: need)
  case (Cons k ks)
  have "fst ` set (take_points r n xs) \<subseteq> set xs" for n xs
    by (induction xs arbitrary: n) auto
  then have "k \<notin> fst ` set (take_points r n ks)" for n using Cons.prems by auto
  with Cons show ?case by simp
qed simp

text \<open>A lot before one that is drawn on is drawn empty.\<close>

lemma take_points_prefix_full:
  "(\<And>k. k \<in> set ks \<Longrightarrow> 0 < r k) \<Longrightarrow> 0 \<le> need \<Longrightarrow> distinct ks \<Longrightarrow>
     (k, p) \<in> set (take_points r need ks) \<Longrightarrow> i < j \<Longrightarrow> j < length ks \<Longrightarrow> ks ! j = k \<Longrightarrow>
     (ks ! i, r (ks ! i)) \<in> set (take_points r need ks)"
proof (induction ks arbitrary: need i j)
  case (Cons x xs)
  have x: "0 < r x" using Cons.prems(1) by simp
  obtain j' where j': "j = Suc j'" using Cons.prems(5) by (cases j) auto
  have kx: "k \<in> set xs" "k \<noteq> x" using Cons.prems(3,6,7) j' nth_mem [of j' xs] by auto
  have need: "need \<noteq> 0" using Cons.prems(4) by auto
  have t: "(k, p) \<in> set (take_points r (need - min need (r x)) xs)"
    using Cons.prems(4) kx need by auto
  have full: "min need (r x) = r x"
  proof (rule ccontr)
    assume "min need (r x) \<noteq> r x"
    then have "need - min need (r x) = 0" by (simp add: min_def split: if_splits)
    then show False using t by (cases xs) auto
  qed
  show ?case
  proof (cases i)
    case 0
    then show ?thesis using full need by simp
  next
    case (Suc i')
    have "(xs ! i', r (xs ! i')) \<in> set (take_points r (need - min need (r x)) xs)"
      using Cons.prems j' Suc t by (intro Cons.IH [of _ _ j']) (auto simp: min_def)
    then show ?thesis using need Suc by simp
  qed
qed simp

text \<open>The allocator in closed form.\<close>

lemma AllocateStayPoints_closed:
  "AllocateStayPoints contracts lots consumed checkIn points =
     (if points \<le> funding_capacity contracts lots consumed checkIn
      then Inr (map (mk_draw contracts checkIn)
        (take_points (remaining_of lots consumed) (max 0 points) (eligible_list contracts lots consumed checkIn)))
      else Inl ErrInsufficientPoints)"
proof -
  let ?ks = "eligible_list contracts lots consumed checkIn" and ?r = "remaining_of lots consumed"
  have pos: "0 < ?r k" if "k \<in> set ?ks" for k
    using that by (simp add: eligible_list_spec eligible_def)
  have "draw_loop ?r points (candidates_of contracts lots consumed checkIn) =
      (map (mk_draw contracts checkIn) (take_points ?r points ?ks),
       max 0 (points - funding_capacity contracts lots consumed checkIn))" if "0 < points"
    unfolding eligible_list_spec(1) funding_capacity_list
    using that by (intro draw_loop_take) (auto simp: eligible_list_spec(2) intro: pos)
  then show ?thesis
    using funding_capacity_nonneg [of contracts lots consumed checkIn]
    by (auto simp: AllocateStayPoints_def max_def)
qed

lemma draw_key_mk_draw [simp]: "draw_key (mk_draw contracts checkIn kp) = fst kp"
  by (simp add: draw_key_def mk_draw_def)

lemma eligible_list_pos:
  "k \<in> set (eligible_list contracts lots consumed checkIn) \<Longrightarrow> 0 < remaining_of lots consumed k"
  by (simp add: eligible_list_spec eligible_def)

lemma AllocateStayPoints_sum:
  assumes "AllocateStayPoints contracts lots consumed checkIn points = Inr ds"
  shows "sum_list (map dr_Points ds) = max 0 points"
proof -
  let ?ks = "eligible_list contracts lots consumed checkIn" and ?r = "remaining_of lots consumed"
  have le: "points \<le> funding_capacity contracts lots consumed checkIn"
    and ds: "ds = map (mk_draw contracts checkIn) (take_points ?r (max 0 points) ?ks)"
    using assms by (auto simp: AllocateStayPoints_closed split: if_splits)
  have "sum_list (map snd (take_points ?r (max 0 points) ?ks)) = max 0 points"
    using le funding_capacity_nonneg [of contracts lots consumed checkIn]
    by (intro take_points_sum) (auto simp: funding_capacity_list eligible_list_pos)
  then show ?thesis by (simp add: ds mk_draw_def comp_def)
qed

lemma AllocateStayPoints_member:
  assumes "AllocateStayPoints contracts lots consumed checkIn points = Inr ds"
  shows "distinct (map draw_key ds)"
    and "d \<in> set ds \<Longrightarrow> draw_key d \<in> eligible contracts lots consumed checkIn \<and> 0 < dr_Points d \<and>
      dr_Points d \<le> remaining_of lots consumed (draw_key d) \<and>
      dr_Disposition d = disposition_of contracts checkIn (draw_key d)"
proof -
  let ?ks = "eligible_list contracts lots consumed checkIn" and ?r = "remaining_of lots consumed"
  let ?t = "take_points ?r (max 0 points) ?ks"
  have ds: "ds = map (mk_draw contracts checkIn) ?t"
    using assms by (auto simp: AllocateStayPoints_closed split: if_splits)
  show "distinct (map draw_key ds)"
    using take_points_distinct [OF eligible_list_spec(2), of ?r] by (simp add: ds comp_def)
  show "draw_key d \<in> eligible contracts lots consumed checkIn \<and> 0 < dr_Points d \<and>
      dr_Points d \<le> ?r (draw_key d) \<and> dr_Disposition d = disposition_of contracts checkIn (draw_key d)"
    if "d \<in> set ds"
  proof -
    obtain k p where kp: "d = mk_draw contracts checkIn (k, p)" "(k, p) \<in> set ?t"
      using \<open>d \<in> set ds\<close> ds by auto
    have "k \<in> set ?ks \<and> 0 < p \<and> p \<le> ?r k"
      using eligible_list_pos kp(2) by (intro take_points_member) auto
    then show ?thesis
      using eligible_list_spec(3) by (auto simp: kp(1)) (simp_all add: mk_draw_def)
  qed
qed

lemma AllocateStayPoints_error:
  "AllocateStayPoints contracts lots consumed checkIn points = Inl e \<longleftrightarrow>
     e = ErrInsufficientPoints \<and> funding_capacity contracts lots consumed checkIn < points"
  by (auto simp: AllocateStayPoints_closed)

section \<open>The allocator's contract\<close>

text \<open>What the bookings rely on: the points left in a lot after more draws, and what a successful
  allocation may take.  The contracts and the lots are fixed while a trip is funded.\<close>

locale stay_allocator =
  fixes allocate :: "point_draw list \<Rightarrow> date \<Rightarrow> int \<Rightarrow> point_draw list result"
    and remaining :: "point_draw list \<Rightarrow> lot_key \<Rightarrow> int"
  assumes remaining_append:
      "remaining (consumed @ ds) k = remaining consumed k - (\<Sum>d\<leftarrow>filter (\<lambda>d. draw_key d = k) ds. dr_Points d)"
    and allocate_sum: "allocate consumed checkIn points = Inr ds \<Longrightarrow> sum_list (map dr_Points ds) = max 0 points"
    and allocate_distinct: "allocate consumed checkIn points = Inr ds \<Longrightarrow> distinct (map draw_key ds)"
    and allocate_within: "allocate consumed checkIn points = Inr ds \<Longrightarrow> d \<in> set ds \<Longrightarrow>
      0 < dr_Points d \<and> dr_Points d \<le> remaining consumed (draw_key d)"
    and allocate_error: "allocate consumed checkIn points = Inl e \<Longrightarrow> e = ErrInsufficientPoints"
begin

lemma drawn_at_key:
  assumes "distinct (map draw_key ds)"
  shows "(\<Sum>d\<leftarrow>filter (\<lambda>d. draw_key d = k) ds. dr_Points d) =
    (case find (\<lambda>d. draw_key d = k) ds of None \<Rightarrow> 0 | Some d \<Rightarrow> dr_Points d)"
  using assms
proof (induction ds)
  case (Cons d ds)
  show ?case
  proof (cases "draw_key d = k")
    case True
    then have "filter (\<lambda>d. draw_key d = k) ds = []" using Cons.prems by (auto simp: filter_empty_conv) (metis imageI)
    then show ?thesis using True by simp
  next
    case False
    then show ?thesis using Cons by simp
  qed
qed simp

text \<open>No allocation overdraws a lot.\<close>

lemma allocate_no_overdraw:
  assumes "allocate consumed checkIn points = Inr ds" and "0 \<le> remaining consumed k"
  shows "0 \<le> remaining (consumed @ ds) k"
proof (cases "find (\<lambda>d. draw_key d = k) ds")
  case None
  then show ?thesis
    using assms by (simp add: remaining_append drawn_at_key [OF allocate_distinct [OF assms(1)]])
next
  case (Some d)
  then have "d \<in> set ds" "draw_key d = k" by (auto simp: find_Some_iff)
  then show ?thesis
    using Some allocate_within [OF assms(1), of d]
    by (simp add: remaining_append drawn_at_key [OF allocate_distinct [OF assms(1)]])
qed

end

lemma remaining_of_append:
  "remaining_of lots (consumed @ ds) k =
     remaining_of lots consumed k - (\<Sum>d\<leftarrow>filter (\<lambda>d. draw_key d = k) ds. dr_Points d)"
  by (induction ds) (simp_all add: remaining_of_def acc_add_apply uminus_sum_list_map [symmetric] comp_def)

interpretation lot_allocator: stay_allocator "AllocateStayPoints contracts lots" "remaining_of lots"
  for contracts lots
  by unfold_locales
    (auto simp: remaining_of_append AllocateStayPoints_sum AllocateStayPoints_error
      dest: AllocateStayPoints_member)

interpretation shortfall_test: threshold_test
  "\<lambda>n. is_ok (AllocateStayPoints contracts lots consumed checkIn n)"
  "funding_capacity contracts lots consumed checkIn"
  for contracts lots consumed checkIn
  by unfold_locales (simp_all add: AllocateStayPoints_closed funding_capacity_nonneg)

section \<open>The order of the inputs\<close>

lemma months_of_map_of:
  "months_of cs = map_of (rev (map (\<lambda>c. (c_ID c, c_UseYearMonth c)) cs))"
  by (induction cs rule: rev_induct) (simp_all add: months_of_def)

lemma months_of_cong:
  assumes "distinct (map c_ID cs)" and "mset cs' = mset cs"
  shows "months_of cs' = months_of cs"
proof -
  have "mset (map c_ID cs') = mset (map c_ID cs)" using assms(2) by simp
  then have d: "distinct (map c_ID cs')" using assms(1) mset_eq_imp_distinct_iff by blast
  have "set cs' = set cs" using assms(2) by (metis set_mset_mset)
  then show ?thesis
    unfolding months_of_map_of using assms(1) d
    by (subst map_of_inject_set) (simp_all add: rev_map [symmetric] comp_def)
qed

lemma months_of_member:
  "distinct (map c_ID cs) \<Longrightarrow> c \<in> set cs \<Longrightarrow> months_of cs (c_ID c) = Some (c_UseYearMonth c)"
  unfolding months_of_map_of by (rule map_of_is_SomeI) (auto simp: rev_map [symmetric] comp_def)

lemma months_of_None: "months_of cs i = None \<longleftrightarrow> i \<notin> c_ID ` set cs"
  unfolding months_of_map_of by (auto simp: map_of_eq_None_iff image_iff)

lemma ranked_list_unique:
  assumes "set ks = set ks'" and "distinct ks" and "distinct ks'"
    and "sorted (map (lot_rank contracts checkIn) ks)" and "sorted (map (lot_rank contracts checkIn) ks')"
  shows "ks = ks'"
proof -
  have inj: "inj_on (lot_rank contracts checkIn) A" for A by (auto intro: inj_onI lot_rank_inj)
  have "map (lot_rank contracts checkIn) ks = map (lot_rank contracts checkIn) ks'"
    using assms inj by (intro sorted_distinct_set_unique) (simp_all add: distinct_map)
  then show ?thesis using inj by (simp add: inj_on_map_eq_map)
qed

section \<open>Properties\<close>

text \<open>C25: The allocator funds a stay exactly when its points are at most the points left in the
  eligible lots (the use year before the stay's, its own, and the next, per contract); otherwise
  it fails with \<open>ErrInsufficientPoints\<close> and no draws.\<close>

theorem allocate_complete:
  "(points \<le> funding_capacity contracts lots consumed checkIn \<and>
      (\<exists>ds. AllocateStayPoints contracts lots consumed checkIn points = Inr ds)) \<or>
   (funding_capacity contracts lots consumed checkIn < points \<and>
      AllocateStayPoints contracts lots consumed checkIn points = Inl ErrInsufficientPoints)"
  by (auto simp: AllocateStayPoints_closed)

text \<open>C26: The draws of a funded stay add up to its points; they name distinct lots, each of them
  eligible, take a positive number of points and never more than the lot has left, and carry the
  disposition of the lot's use year relative to the stay's.\<close>

theorem allocate_sound:
  assumes "AllocateStayPoints contracts lots consumed checkIn points = Inr ds"
  shows "sum_list (map dr_Points ds) = max 0 points \<and> distinct (map draw_key ds) \<and>
    (\<forall>d \<in> set ds. draw_key d \<in> eligible contracts lots consumed checkIn \<and> 0 < dr_Points d \<and>
       dr_Points d \<le> remaining_of lots consumed (draw_key d) \<and>
       dr_Disposition d = disposition_of contracts checkIn (draw_key d))"
  using AllocateStayPoints_sum [OF assms] AllocateStayPoints_member [OF assms] by blast

text \<open>A contract with an April use year and two lots, and a stay that draws on both.\<close>

definition sample_contracts :: "contract list" where
  "sample_contracts = [\<lparr>c_ID = 1, c_Name = ''A'', c_Number = '''', c_HomeResort = '''', c_AnnualPoints = 100,
     c_UseYearMonth = 4, c_TermYears = 0, c_PurchasePrice = 0, c_ClosingCosts = 0\<rparr>]"

definition sample_lots :: "point_lot list" where
  "sample_lots = [\<lparr>l_ContractID = 1, l_UseYear = 2026, l_Points = 100\<rparr>, \<lparr>l_ContractID = 1, l_UseYear = 2025, l_Points = 30\<rparr>]"

definition sample_draws :: "point_draw list" where
  "sample_draws =
     [\<lparr>dr_ContractID = 1, dr_UseYear = 2025, dr_Disposition = DispositionBanked, dr_Points = 30\<rparr>,
      \<lparr>dr_ContractID = 1, dr_UseYear = 2026, dr_Disposition = DispositionCurrent, dr_Points = 20\<rparr>]"

lemma sample_allocation:
  "AllocateStayPoints sample_contracts sample_lots [] 20600 50 = Inr sample_draws"
  "AllocateStayPoints sample_contracts sample_lots [] 20600 150 = Inl ErrInsufficientPoints"
  "funding_capacity sample_contracts sample_lots [] 20600 = 130"
proof -
  show "AllocateStayPoints sample_contracts sample_lots [] 20600 50 = Inr sample_draws"
    "AllocateStayPoints sample_contracts sample_lots [] 20600 150 = Inl ErrInsufficientPoints"
    by code_simp+
  have "map ca_key (candidates_of sample_contracts sample_lots [] 20600) = [(1, 2025), (1, 2026)]"
    "remaining_of sample_lots [] (1, 2025) = 30" "remaining_of sample_lots [] (1, 2026) = 100"
    by code_simp+
  then show "funding_capacity sample_contracts sample_lots [] 20600 = 130"
    by (simp add: funding_capacity_list eligible_list_def)
qed

theorem allocate_sound_witness:
  "sum_list (map dr_Points sample_draws) = 50 \<and> distinct (map draw_key sample_draws)"
  using allocate_sound [OF sample_allocation(1)] by simp

text \<open>C27: Banked points go before current ones and those before borrowed ones, a lower contract
  id first: when a lot is drawn on, every eligible lot preferred to it is drawn empty.\<close>

theorem allocate_priority:
  assumes "AllocateStayPoints contracts lots consumed checkIn points = Inr ds" and "d \<in> set ds"
    and "k \<in> eligible contracts lots consumed checkIn"
    and "lot_rank contracts checkIn k < lot_rank contracts checkIn (draw_key d)"
  shows "\<exists>d' \<in> set ds. draw_key d' = k \<and> dr_Points d' = remaining_of lots consumed k"
proof -
  let ?ks = "eligible_list contracts lots consumed checkIn" and ?r = "remaining_of lots consumed"
  let ?t = "take_points ?r (max 0 points) ?ks"
  have ds: "ds = map (mk_draw contracts checkIn) ?t"
    using assms(1) by (auto simp: AllocateStayPoints_closed split: if_splits)
  obtain p where p: "(draw_key d, p) \<in> set ?t" using assms(2) ds by force
  have "draw_key d \<in> set ?ks \<and> 0 < p \<and> p \<le> ?r (draw_key d)"
    using p by (intro take_points_member [of ?ks]) (auto simp: eligible_list_pos)
  then obtain j where j: "j < length ?ks" "?ks ! j = draw_key d" by (auto simp: in_set_conv_nth)
  obtain i where i: "i < length ?ks" "?ks ! i = k"
    using assms(3) eligible_list_spec(3) [of contracts lots consumed checkIn] by (metis in_set_conv_nth)
  have "\<not> j \<le> i"
    using sorted_nth_mono [OF eligible_list_spec(4) [of contracts checkIn lots consumed], of j i] i j assms(4) by auto
  then have ij: "i < j" by simp
  have "(?ks ! i, ?r (?ks ! i)) \<in> set ?t"
    by (rule take_points_prefix_full [OF _ _ _ p ij j]) (simp_all add: eligible_list_pos eligible_list_spec(2))
  then have "mk_draw contracts checkIn (k, ?r k) \<in> set ds" using ds i(2) by auto
  then show ?thesis by (rule bexI [rotated]) (simp, simp add: mk_draw_def)
qed

theorem allocate_priority_witness:
  "\<exists>d' \<in> set sample_draws. draw_key d' = (1, 2025) \<and> dr_Points d' = 30"
proof -
  let ?d = "\<lparr>dr_ContractID = 1, dr_UseYear = 2026, dr_Disposition = DispositionCurrent, dr_Points = 20\<rparr>"
  have mem: "?d \<in> set sample_draws" by (simp add: sample_draws_def)
  have rem: "remaining_of sample_lots [] (1, 2025) = 30" by code_simp
  have m: "months_of sample_contracts 1 = Some 4" "UseYearForDate 20600 4 = 2026" by code_simp+
  have "(1, 2025) \<in> eligible sample_contracts sample_lots [] 20600"
    using rem m by (simp add: eligible_def eligible_year_def sample_lots_def lot_key_of_def)
  moreover have "lot_rank sample_contracts 20600 (1, 2025) < lot_rank sample_contracts 20600 (draw_key ?d)"
    using m by (simp add: lot_rank_def draw_key_def)
  ultimately show ?thesis
    unfolding rem [symmetric] by (rule allocate_priority [OF sample_allocation(1) mem])
qed

text \<open>The result does not depend on the order in which the contracts, the lots and the draws
  consumed so far are listed.\<close>

theorem allocate_order_independent:
  assumes "distinct (map c_ID contracts)" and "mset contracts' = mset contracts"
    and "mset lots' = mset lots" and "mset consumed' = mset consumed"
  shows "AllocateStayPoints contracts' lots' consumed' checkIn points =
    AllocateStayPoints contracts lots consumed checkIn points"
proof -
  have m: "months_of contracts' = months_of contracts"
    by (rule months_of_cong) (rule assms(1), rule assms(2))
  have r: "remaining_of lots' consumed' = remaining_of lots consumed"
    using assms(3,4) by (auto simp: remaining_of_def acc_add_apply intro!: ext sum_list_filter_mset_cong
        arg_cong2 [where f = "(+)"])
  have y: "eligible_year contracts' checkIn = eligible_year contracts checkIn"
    and rank: "lot_rank contracts' checkIn = lot_rank contracts checkIn"
    by (simp_all add: eligible_year_def [abs_def] lot_rank_def [abs_def] m)
  then have disp: "mk_draw contracts' checkIn = mk_draw contracts checkIn"
    by (simp add: mk_draw_def [abs_def] disposition_of_def)
  have e: "eligible contracts' lots' consumed' checkIn = eligible contracts lots consumed checkIn"
    using mset_eq_setD [OF assms(3)] by (simp add: eligible_def r y)
  have "eligible_list contracts' lots' consumed' checkIn = eligible_list contracts lots consumed checkIn"
    by (rule ranked_list_unique [where contracts = contracts and checkIn = checkIn])
      (use eligible_list_spec(4) [of contracts' checkIn lots' consumed']
        eligible_list_spec(4) [of contracts checkIn lots consumed] in
        \<open>simp_all add: eligible_list_spec(2,3) e rank\<close>)
  then show ?thesis
    by (simp add: AllocateStayPoints_closed funding_capacity_def r e disp)
qed

theorem allocate_order_independent_witness:
  "AllocateStayPoints sample_contracts (rev sample_lots) [] 20600 50 = Inr sample_draws"
  using allocate_order_independent [of sample_contracts sample_contracts "rev sample_lots" sample_lots "[]" "[]" 20600 50]
    sample_allocation(1)
  by (simp add: sample_contracts_def)

text \<open>C28: When a stay cannot be funded, \<open>shortfall\<close> reports exactly the points that are missing.\<close>

theorem shortfall_exact:
  assumes "AllocateStayPoints contracts lots consumed checkIn points = Inl e"
  shows "shortfall contracts lots consumed checkIn points =
    points - funding_capacity contracts lots consumed checkIn"
proof -
  have "funding_capacity contracts lots consumed checkIn < points"
    using assms by (simp add: AllocateStayPoints_error)
  then show ?thesis
    using shortfall_test.search_boundary [of 0 contracts lots consumed checkIn points] funding_capacity_nonneg
    by (simp add: shortfall_def)
qed

theorem shortfall_exact_witness:
  "shortfall sample_contracts sample_lots [] 20600 150 = 20"
  using shortfall_exact [OF sample_allocation(2)] sample_allocation(3) by simp

end
