(* ===== verification/Database.thy ===== *)
theory Database
  imports LedgerTypes
begin

text \<open>
  The tables of \<open>internal/ledger/migrations\<close> and the statements of \<open>internal/ledger/dbgen\<close>.  A table
  is the list of its rows in the order of their ids, with the last id its identity column issued;
  CHECK, UNIQUE and foreign key constraints are tests that make a statement fail with
  \<open>ErrConstraint\<close>, and ON DELETE CASCADE and SET NULL are written out in the deletes.  The \<open>date\<close>
  column of \<open>entry\<close> is the day number its text stands for, and the two JSON text columns of \<open>trip\<close> are
  the lists they encode (a nil slice and an empty array are the same list); \<open>FilterColumns\<close> has the texts.
\<close>

section \<open>Rows\<close>

record trip =
  t_ID :: int
  t_Name :: string
  t_StartDate :: date
  t_EndDate :: date
  t_MinNights :: int
  t_BudgetOverride :: "int option"
  t_FilterMode :: string
  t_ExcludeResorts :: "string list"
  t_ExcludeRoomTypes :: "string list"

abbreviation TripFilterInherit :: string where "TripFilterInherit \<equiv> ''''"
abbreviation TripFilterOverride :: string where "TripFilterOverride \<equiv> ''override''"

record stay_row =
  st_ID :: int
  st_TripID :: int
  st_Resort :: string
  st_RoomType :: string
  st_View :: string
  st_CheckIn :: date
  st_CheckOut :: date
  st_Nights :: int
  st_Points :: int
  st_QuoteHash :: string

record link_row =
  k_ID :: int
  k_StayID :: int
  k_EntryID :: int

record db =
  contracts :: "contract list"
  entries :: "entry_row list"
  dues_rates :: "dues_rate list"
  trips :: "trip list"
  stays :: "stay_row list"
  links :: "link_row list"
  contract_seq :: int
  entry_seq :: int
  trip_seq :: int
  stay_seq :: int
  link_seq :: int

text \<open>The dues series that migration 00002 seeds an empty table with.\<close>

definition seeded_dues :: "dues_rate list" where
  "seeded_dues = map (\<lambda>(y, r). \<lparr>d_UseYear = y, d_Rate = r\<rparr>)
     [(2019, 6385000), (2020, 6561600), (2021, 6811800), (2022, 7007700),
      (2023, 7333200), (2024, 7574000), (2025, 7929800), (2026, 8223500)]"

definition fresh_db :: db where
  "fresh_db = \<lparr>contracts = [], entries = [], dues_rates = seeded_dues, trips = [], stays = [], links = [],
     contract_seq = 0, entry_seq = 0, trip_seq = 0, stay_seq = 0, link_seq = 0\<rparr>"

section \<open>Tables with an identity column\<close>

text \<open>An identity column numbers the rows 1, 2, ...; ids are never issued twice, so the rows stay
  in the order of their ids.\<close>

definition insert_row :: "(int \<Rightarrow> 'r \<Rightarrow> 'r) \<Rightarrow> int \<Rightarrow> 'r \<Rightarrow> 'r list \<Rightarrow> 'r list" where
  "insert_row with_key issued r rows = rows @ [with_key (issued + 1) r]"

definition update_row :: "('r \<Rightarrow> int) \<Rightarrow> 'r \<Rightarrow> 'r list \<Rightarrow> 'r list" where
  "update_row key r rows = map (\<lambda>x. if key x = key r then r else x) rows"

definition delete_rows :: "('r \<Rightarrow> bool) \<Rightarrow> 'r list \<Rightarrow> 'r list" where
  "delete_rows P rows = filter (\<lambda>r. \<not> P r) rows"

definition has_row :: "('r \<Rightarrow> int) \<Rightarrow> int \<Rightarrow> 'r list \<Rightarrow> bool" where
  "has_row key i rows = list_ex (\<lambda>r. key r = i) rows"

definition table_ok :: "('r \<Rightarrow> int) \<Rightarrow> int \<Rightarrow> 'r list \<Rightarrow> bool" where
  "table_ok key issued rows \<longleftrightarrow> sorted_wrt (<) (map key rows) \<and> (\<forall>r \<in> set rows. 0 < key r \<and> key r \<le> issued) \<and> 0 \<le> issued"

lemma has_row_iff: "has_row key i rows \<longleftrightarrow> i \<in> key ` set rows"
  by (auto simp: has_row_def list_ex_iff)

locale identity_table =
  fixes key :: "'r \<Rightarrow> int" and with_key :: "int \<Rightarrow> 'r \<Rightarrow> 'r"
  assumes id_with_key [simp]: "key (with_key i r) = i"
begin

lemma insert_ok: "table_ok key issued rows \<Longrightarrow> table_ok key (issued + 1) (insert_row with_key issued r rows)"
  by (auto simp: table_ok_def insert_row_def sorted_wrt_append less_le_trans intro: le_less_trans)

lemma update_keys [simp]: "map key (update_row key r rows) = map key rows"
  by (simp add: update_row_def)

lemma update_ids [simp]: "key ` set (update_row key r rows) = key ` set rows"
  by (metis list.set_map update_keys)

lemma update_ok:
  assumes "table_ok key issued rows"
  shows "table_ok key issued (update_row key r rows)"
proof -
  have "\<forall>x \<in> set (update_row key r rows). 0 < key x \<and> key x \<le> issued"
    using assms update_ids [of r rows] unfolding table_ok_def by (metis imageE imageI)
  then show ?thesis using assms by (simp add: table_ok_def)
qed

lemma delete_ok: "table_ok key issued rows \<Longrightarrow> table_ok key issued (delete_rows P rows)"
  by (auto simp: table_ok_def delete_rows_def sorted_wrt_map sorted_wrt_filter)

lemma ok_distinct: "table_ok key issued rows \<Longrightarrow> distinct (map key rows)"
  by (simp add: table_ok_def strict_sorted_iff)

lemma ok_sort_key: "table_ok key issued rows \<Longrightarrow> sort_key key rows = rows"
  by (simp add: table_ok_def strict_sorted_iff sort_key_id_if_sorted)

lemma ok_unique: "table_ok key issued rows \<Longrightarrow> r \<in> set rows \<Longrightarrow> r' \<in> set rows \<Longrightarrow> key r = key r' \<Longrightarrow> r = r'"
  by (drule ok_distinct) (auto simp: distinct_map dest: inj_onD)

lemma new_id_fresh: "table_ok key issued rows \<Longrightarrow> issued + 1 \<notin> key ` set rows"
  by (auto simp: table_ok_def)

lemma update_member: "x \<in> set (update_row key r rows) \<Longrightarrow> x = r \<or> x \<in> set rows"
  by (auto simp: update_row_def split: if_splits)

lemma update_absent: "\<not> has_row key (key r) rows \<Longrightarrow> update_row key r rows = rows"
  unfolding update_row_def has_row_iff by (intro map_idI) (metis imageI)

end

interpretation contract_table: identity_table c_ID "\<lambda>i c. c\<lparr>c_ID := i\<rparr>" by unfold_locales simp
interpretation entry_table: identity_table e_ID "\<lambda>i e. e\<lparr>e_ID := i\<rparr>" by unfold_locales simp
interpretation trip_table: identity_table t_ID "\<lambda>i t. t\<lparr>t_ID := i\<rparr>" by unfold_locales simp
interpretation stay_table: identity_table st_ID "\<lambda>i st. st\<lparr>st_ID := i\<rparr>" by unfold_locales simp
interpretation link_table: identity_table k_ID "\<lambda>i k. k\<lparr>k_ID := i\<rparr>" by unfold_locales simp

section \<open>Statements on contracts, entries and dues\<close>

definition InsertContract :: "contract \<Rightarrow> db \<Rightarrow> int \<times> db" where
  "InsertContract c d = (contract_seq d + 1,
     d\<lparr>contracts := insert_row (\<lambda>i c. c\<lparr>c_ID := i\<rparr>) (contract_seq d) c (contracts d),
       contract_seq := contract_seq d + 1\<rparr>)"

definition ListContracts_rows :: "db \<Rightarrow> contract list" where
  "ListContracts_rows d = sort_key c_ID (contracts d)"

definition UpdateContract_row :: "contract \<Rightarrow> db \<Rightarrow> db" where
  "UpdateContract_row c d = d\<lparr>contracts := update_row c_ID c (contracts d)\<rparr>"

text \<open>\<open>entry.contract_id\<close> is declared ON DELETE SET NULL.\<close>

definition clear_contract :: "int \<Rightarrow> entry_row \<Rightarrow> entry_row" where
  "clear_contract i e = (if e_ContractID e = Some i then e\<lparr>e_ContractID := None\<rparr> else e)"

definition DeleteContract_row :: "int \<Rightarrow> db \<Rightarrow> db" where
  "DeleteContract_row i d = d\<lparr>
     contracts := delete_rows (\<lambda>c. c_ID c = i) (contracts d),
     entries := map (clear_contract i) (entries d)\<rparr>"

definition contract_fk :: "contract list \<Rightarrow> int option \<Rightarrow> bool" where
  "contract_fk cs ref \<longleftrightarrow> (case ref of None \<Rightarrow> True | Some c \<Rightarrow> has_row c_ID c cs)"

definition InsertEntry :: "entry_row \<Rightarrow> db \<Rightarrow> (int \<times> db) result" where
  "InsertEntry e d =
     (if \<not> contract_fk (contracts d) (e_ContractID e) then Inl ErrConstraint
      else Inr (entry_seq d + 1,
        d\<lparr>entries := insert_row (\<lambda>i e. e\<lparr>e_ID := i\<rparr>) (entry_seq d) e (entries d),
          entry_seq := entry_seq d + 1\<rparr>))"

definition ListEntries_rows :: "db \<Rightarrow> entry_row list" where
  "ListEntries_rows d = sort_key (\<lambda>e. (e_Date e, e_ID e)) (entries d)"

definition UpdateEntry_row :: "entry_row \<Rightarrow> db \<Rightarrow> db result" where
  "UpdateEntry_row e d =
     (if has_row e_ID (e_ID e) (entries d) \<and> \<not> contract_fk (contracts d) (e_ContractID e) then Inl ErrConstraint
      else Inr (d\<lparr>entries := update_row e_ID e (entries d)\<rparr>))"

text \<open>\<open>trip_stay_entry.entry_id\<close> is declared ON DELETE CASCADE, so every delete of entries
  takes their links with it.\<close>

definition delete_entries :: "(int \<Rightarrow> bool) \<Rightarrow> db \<Rightarrow> db" where
  "delete_entries P d = d\<lparr>
     entries := delete_rows (\<lambda>e. P (e_ID e)) (entries d),
     links := delete_rows (\<lambda>k. P (k_EntryID k)) (links d)\<rparr>"

definition DeleteEntry_row :: "int \<Rightarrow> db \<Rightarrow> db" where
  "DeleteEntry_row i d = delete_entries (\<lambda>e. e = i) d"

definition linked_to_trip :: "db \<Rightarrow> int \<Rightarrow> int \<Rightarrow> bool" where
  "linked_to_trip d tripID entryID \<longleftrightarrow>
     list_ex (\<lambda>k. k_EntryID k = entryID \<and>
       list_ex (\<lambda>st. st_ID st = k_StayID k \<and> st_TripID st = tripID) (stays d)) (links d)"

definition linked_to_stay :: "db \<Rightarrow> int \<Rightarrow> int \<Rightarrow> bool" where
  "linked_to_stay d stayID entryID \<longleftrightarrow> list_ex (\<lambda>k. k_EntryID k = entryID \<and> k_StayID k = stayID) (links d)"

definition DeleteEntriesForTrip :: "int \<Rightarrow> db \<Rightarrow> db" where
  "DeleteEntriesForTrip tripID d = delete_entries (linked_to_trip d tripID) d"

definition DeleteEntriesForStay :: "int \<Rightarrow> db \<Rightarrow> db" where
  "DeleteEntriesForStay stayID d = delete_entries (linked_to_stay d stayID) d"

definition ListDuesRates_rows :: "db \<Rightarrow> dues_rate list" where
  "ListDuesRates_rows d = sort_key d_UseYear (dues_rates d)"

definition UpsertDuesRate_row :: "dues_rate \<Rightarrow> db \<Rightarrow> db" where
  "UpsertDuesRate_row r d =
     (if has_row d_UseYear (d_UseYear r) (dues_rates d)
      then d\<lparr>dues_rates := update_row d_UseYear r (dues_rates d)\<rparr>
      else d\<lparr>dues_rates := dues_rates d @ [r]\<rparr>)"

definition DeleteDuesRate_row :: "int \<Rightarrow> db \<Rightarrow> db" where
  "DeleteDuesRate_row y d = d\<lparr>dues_rates := delete_rows (\<lambda>r. d_UseYear r = y) (dues_rates d)\<rparr>"

section \<open>Statements of the distribution\<close>

definition group_keys :: "('r \<Rightarrow> 'k::linorder) \<Rightarrow> 'r list \<Rightarrow> 'k list" where
  "group_keys key rows = sort (remdups (map key rows))"

definition UseYearSummaries_rows :: "db \<Rightarrow> (int \<times> int \<times> int) list" where
  "UseYearSummaries_rows d = map (\<lambda>y.
       (y, \<Sum>e\<leftarrow>filter (\<lambda>e. e_UseYear e = y) (entries d). e_Allotted e,
        \<Sum>e\<leftarrow>filter (\<lambda>e. e_UseYear e = y) (entries d). e_Used e))
     (group_keys e_UseYear (entries d))"

definition allocation_rows :: "db \<Rightarrow> int \<Rightarrow> string \<Rightarrow> entry_row list" where
  "allocation_rows d contractID kind =
     filter (\<lambda>e. e_ContractID e = Some contractID \<and> e_Kind e = kind) (entries d)"

definition LatestAllocationYear :: "int \<Rightarrow> string \<Rightarrow> db \<Rightarrow> int option" where
  "LatestAllocationYear contractID kind d =
     (case rev (sort (map e_UseYear (allocation_rows d contractID kind))) of [] \<Rightarrow> None | y # _ \<Rightarrow> Some y)"

definition CountAllocationFor :: "int \<Rightarrow> string \<Rightarrow> int \<Rightarrow> db \<Rightarrow> int" where
  "CountAllocationFor contractID kind useYear d =
     int (length (filter (\<lambda>e. e_UseYear e = useYear) (allocation_rows d contractID kind)))"

section \<open>Statements on trips and stays\<close>

definition trip_check :: "trip \<Rightarrow> bool" where
  "trip_check t \<longleftrightarrow> t_StartDate t < t_EndDate t \<and> 1 \<le> t_MinNights t \<and> t_MinNights t \<le> 30 \<and>
     (case t_BudgetOverride t of None \<Rightarrow> True | Some b \<Rightarrow> 0 \<le> b) \<and>
     (t_FilterMode t = '''' \<or> t_FilterMode t = ''override'')"

definition stay_check :: "stay_row \<Rightarrow> bool" where
  "stay_check st \<longleftrightarrow> st_CheckIn st < st_CheckOut st \<and> st_Nights st = st_CheckOut st - st_CheckIn st \<and> 0 < st_Points st"

definition InsertTrip :: "trip \<Rightarrow> db \<Rightarrow> (int \<times> db) result" where
  "InsertTrip t d =
     (if \<not> trip_check t then Inl ErrConstraint
      else Inr (trip_seq d + 1,
        d\<lparr>trips := insert_row (\<lambda>i t. t\<lparr>t_ID := i\<rparr>) (trip_seq d) t (trips d), trip_seq := trip_seq d + 1\<rparr>))"

definition ListTrips_rows :: "db \<Rightarrow> trip list" where
  "ListTrips_rows d = sort_key (\<lambda>t. (t_StartDate t, t_ID t)) (trips d)"

definition GetTrip_row :: "int \<Rightarrow> db \<Rightarrow> trip option" where
  "GetTrip_row i d = find (\<lambda>t. t_ID t = i) (trips d)"

definition UpdateTrip_row :: "trip \<Rightarrow> db \<Rightarrow> db result" where
  "UpdateTrip_row t d =
     (if has_row t_ID (t_ID t) (trips d) \<and> \<not> trip_check t then Inl ErrConstraint
      else Inr (d\<lparr>trips := update_row t_ID t (trips d)\<rparr>))"

definition InsertTripStay :: "stay_row \<Rightarrow> db \<Rightarrow> (int \<times> db) result" where
  "InsertTripStay st d =
     (if \<not> stay_check st \<or> \<not> has_row t_ID (st_TripID st) (trips d) then Inl ErrConstraint
      else Inr (stay_seq d + 1,
        d\<lparr>stays := insert_row (\<lambda>i st. st\<lparr>st_ID := i\<rparr>) (stay_seq d) st (stays d), stay_seq := stay_seq d + 1\<rparr>))"

definition ListTripStays :: "int \<Rightarrow> db \<Rightarrow> stay_row list" where
  "ListTripStays tripID d =
     sort_key (\<lambda>st. (st_CheckIn st, st_ID st)) (filter (\<lambda>st. st_TripID st = tripID) (stays d))"

text \<open>\<open>trip_stay.trip_id\<close> and \<open>trip_stay_entry.trip_stay_id\<close> are declared ON DELETE CASCADE.\<close>

definition delete_stays :: "(stay_row \<Rightarrow> bool) \<Rightarrow> db \<Rightarrow> db" where
  "delete_stays P d = d\<lparr>
     stays := delete_rows P (stays d),
     links := delete_rows (\<lambda>k. list_ex (\<lambda>st. P st \<and> st_ID st = k_StayID k) (stays d)) (links d)\<rparr>"

definition DeleteTrip_row :: "int \<Rightarrow> db \<Rightarrow> db" where
  "DeleteTrip_row i d = (delete_stays (\<lambda>st. st_TripID st = i) d)\<lparr>trips := delete_rows (\<lambda>t. t_ID t = i) (trips d)\<rparr>"

definition DeleteTripStay :: "int \<Rightarrow> db \<Rightarrow> db" where
  "DeleteTripStay i d = delete_stays (\<lambda>st. st_ID st = i) d"

definition InsertTripStayEntry :: "int \<Rightarrow> int \<Rightarrow> db \<Rightarrow> db result" where
  "InsertTripStayEntry stayID entryID d =
     (if \<not> has_row st_ID stayID (stays d) \<or> \<not> has_row e_ID entryID (entries d)
         \<or> has_row k_EntryID entryID (links d) then Inl ErrConstraint
      else Inr (d\<lparr>links := insert_row (\<lambda>i k. k\<lparr>k_ID := i\<rparr>) (link_seq d)
             \<lparr>k_ID = 0, k_StayID = stayID, k_EntryID = entryID\<rparr> (links d),
           link_seq := link_seq d + 1\<rparr>))"

definition stay_of_trip :: "db \<Rightarrow> int \<Rightarrow> int \<Rightarrow> bool" where
  "stay_of_trip d tripID stayID \<longleftrightarrow> list_ex (\<lambda>st. st_ID st = stayID \<and> st_TripID st = tripID) (stays d)"

definition ListTripStayEntryIDsForTrip :: "int \<Rightarrow> db \<Rightarrow> (int \<times> int) list" where
  "ListTripStayEntryIDsForTrip tripID d =
     sort (map (\<lambda>k. (k_StayID k, k_EntryID k)) (filter (\<lambda>k. stay_of_trip d tripID (k_StayID k)) (links d)))"

definition link_used :: "db \<Rightarrow> link_row \<Rightarrow> int" where
  "link_used d k = (case find (\<lambda>e. e_ID e = k_EntryID k) (entries d) of None \<Rightarrow> 0 | Some e \<Rightarrow> e_Used e)"

definition ListTripStayUsedPointsForTrip :: "int \<Rightarrow> db \<Rightarrow> (int \<times> int) list" where
  "ListTripStayUsedPointsForTrip tripID d =
     (let ks = filter (\<lambda>k. stay_of_trip d tripID (k_StayID k)) (links d) in
      map (\<lambda>s. (s, \<Sum>k\<leftarrow>filter (\<lambda>k. k_StayID k = s) ks. link_used d k)) (group_keys k_StayID ks))"

section \<open>The constraints as an invariant\<close>

definition contract_width :: "contract \<Rightarrow> bool" where
  "contract_width c \<longleftrightarrow> in32 (c_AnnualPoints c) \<and> in32 (c_UseYearMonth c) \<and> in32 (c_TermYears c)"

definition entry_width :: "entry_row \<Rightarrow> bool" where
  "entry_width e \<longleftrightarrow> in32 (e_UseYear e) \<and> in32 (e_Allotted e) \<and> in32 (e_Used e)"

definition stay_width :: "stay_row \<Rightarrow> bool" where
  "stay_width st \<longleftrightarrow> in32 (st_Nights st) \<and> in32 (st_Points st)"

definition tables_ok :: "db \<Rightarrow> bool" where
  "tables_ok d \<longleftrightarrow> table_ok c_ID (contract_seq d) (contracts d) \<and> table_ok e_ID (entry_seq d) (entries d) \<and>
     table_ok t_ID (trip_seq d) (trips d) \<and> table_ok st_ID (stay_seq d) (stays d) \<and>
     table_ok k_ID (link_seq d) (links d) \<and> distinct (map d_UseYear (dues_rates d))"

definition references_ok :: "db \<Rightarrow> bool" where
  "references_ok d \<longleftrightarrow>
     (\<forall>e \<in> set (entries d). contract_fk (contracts d) (e_ContractID e)) \<and>
     (\<forall>st \<in> set (stays d). has_row t_ID (st_TripID st) (trips d)) \<and>
     (\<forall>k \<in> set (links d). has_row st_ID (k_StayID k) (stays d) \<and> has_row e_ID (k_EntryID k) (entries d)) \<and>
     distinct (map k_EntryID (links d))"

definition checks_ok :: "db \<Rightarrow> bool" where
  "checks_ok d \<longleftrightarrow> (\<forall>t \<in> set (trips d). trip_check t) \<and> (\<forall>st \<in> set (stays d). stay_check st \<and> stay_width st) \<and>
     (\<forall>e \<in> set (entries d). entry_width e) \<and> (\<forall>c \<in> set (contracts d). contract_width c)"

definition db_ok :: "db \<Rightarrow> bool" where
  "db_ok d \<longleftrightarrow> tables_ok d \<and> references_ok d \<and> checks_ok d"

lemmas table_ok_intros =
  contract_table.insert_ok contract_table.update_ok contract_table.delete_ok
  entry_table.insert_ok entry_table.update_ok entry_table.delete_ok
  trip_table.insert_ok trip_table.update_ok trip_table.delete_ok
  stay_table.insert_ok stay_table.delete_ok link_table.insert_ok link_table.delete_ok

lemma set_insert_row [simp]: "set (insert_row w n r rows) = insert (w (n + 1) r) (set rows)"
  by (auto simp: insert_row_def)

lemma distinct_insert_row [simp]:
  "distinct (map f (insert_row w n r rows)) \<longleftrightarrow> distinct (map f rows) \<and> f (w (n + 1) r) \<notin> f ` set rows"
  by (auto simp: insert_row_def)

lemma set_delete_rows [simp]: "set (delete_rows P rows) = {r \<in> set rows. \<not> P r}"
  by (auto simp: delete_rows_def)

lemma has_row_insert [simp]:
  "has_row key i (insert_row w n r rows) \<longleftrightarrow> i = key (w (n + 1) r) \<or> has_row key i rows"
  by (auto simp: has_row_iff)

lemma has_row_update [simp]: "has_row key i (map f rows) \<longleftrightarrow> has_row (key \<circ> f) i rows"
  by (auto simp: has_row_iff image_iff)

lemma contract_fk_mono:
  "contract_fk cs ref \<Longrightarrow> c_ID ` set cs \<subseteq> c_ID ` set cs' \<Longrightarrow> contract_fk cs' ref"
  by (auto simp: contract_fk_def has_row_iff split: option.splits)

lemma db_ok_fresh: "db_ok fresh_db"
  by (simp add: db_ok_def tables_ok_def references_ok_def checks_ok_def fresh_db_def table_ok_def seeded_dues_def)

lemmas db_ok_defs = db_ok_def tables_ok_def references_ok_def checks_ok_def

lemma InsertContract_ok:
  assumes "db_ok d" and "contract_width c"
  shows "db_ok (snd (InsertContract c d))"
proof -
  have "contract_fk (insert_row (\<lambda>i c. c\<lparr>c_ID := i\<rparr>) n c (contracts d)) ref" if "contract_fk (contracts d) ref" for n ref
    using that by (rule contract_fk_mono) auto
  then show ?thesis
    using assms by (simp add: db_ok_defs InsertContract_def contract_width_def table_ok_intros)
qed

lemma UpdateContract_ok:
  assumes "db_ok d" and "contract_width c"
  shows "db_ok (UpdateContract_row c d)"
proof -
  have "contract_fk (update_row c_ID c (contracts d)) ref" if "contract_fk (contracts d) ref" for ref
    using that by (rule contract_fk_mono) simp
  moreover have "\<forall>x \<in> set (update_row c_ID c (contracts d)). contract_width x"
    using assms by (auto simp: db_ok_defs dest!: contract_table.update_member)
  ultimately show ?thesis
    using assms by (simp add: db_ok_defs UpdateContract_row_def table_ok_intros)
qed

lemma DeleteContract_ok:
  assumes "db_ok d"
  shows "db_ok (DeleteContract_row i d)"
proof -
  have key: "e_ID (clear_contract i e) = e_ID e" for e by (simp add: clear_contract_def)
  then have id: "e_ID \<circ> clear_contract i = e_ID" by (simp add: fun_eq_iff)
  have "table_ok e_ID (entry_seq d) (map (clear_contract i) (entries d))"
    using assms by (simp add: db_ok_defs table_ok_def id key)
  moreover have "contract_fk (delete_rows (\<lambda>c. c_ID c = i) (contracts d)) (e_ContractID (clear_contract i e))"
    if "contract_fk (contracts d) (e_ContractID e)" for e
    using that by (auto simp: clear_contract_def contract_fk_def has_row_iff image_iff split: option.splits)
  moreover have "entry_width (clear_contract i e) = entry_width e" for e
    by (simp add: entry_width_def clear_contract_def)
  ultimately show ?thesis
    using assms by (simp add: db_ok_defs DeleteContract_row_def id table_ok_intros)
qed

lemma InsertEntry_ok:
  "db_ok d \<Longrightarrow> entry_width e \<Longrightarrow> InsertEntry e d = Inr (i, d') \<Longrightarrow> db_ok d'"
  by (auto simp: db_ok_defs InsertEntry_def entry_width_def table_ok_intros split: if_splits)

lemma UpdateEntry_ok:
  assumes "db_ok d" and "entry_width e" and "UpdateEntry_row e d = Inr d'"
  shows "db_ok d'"
proof (cases "has_row e_ID (e_ID e) (entries d)")
  case True
  have "has_row e_ID i (update_row e_ID e (entries d)) = has_row e_ID i (entries d)" for i
    by (simp add: has_row_iff)
  then show ?thesis
    using assms True
    by (auto simp: db_ok_defs UpdateEntry_row_def table_ok_intros
        dest!: entry_table.update_member split: if_splits)
next
  case False
  then show ?thesis using assms by (simp add: UpdateEntry_row_def entry_table.update_absent)
qed

lemma distinct_delete [simp]: "distinct (map f rows) \<Longrightarrow> distinct (map f (delete_rows P rows))"
  by (auto simp: delete_rows_def distinct_map inj_on_def)

lemma delete_entries_ok: "db_ok d \<Longrightarrow> db_ok (delete_entries P d)"
  by (auto simp: db_ok_defs delete_entries_def has_row_iff table_ok_intros)

lemma UpsertDuesRate_ok: "db_ok d \<Longrightarrow> db_ok (UpsertDuesRate_row r d)"
proof -
  have "map d_UseYear (update_row d_UseYear r (dues_rates d)) = map d_UseYear (dues_rates d)"
    by (simp add: update_row_def)
  then show "db_ok d \<Longrightarrow> db_ok (UpsertDuesRate_row r d)"
    by (simp add: db_ok_defs UpsertDuesRate_row_def has_row_iff)
qed

lemma DeleteDuesRate_ok: "db_ok d \<Longrightarrow> db_ok (DeleteDuesRate_row y d)"
  by (simp add: db_ok_defs DeleteDuesRate_row_def)

lemma InsertTrip_ok: "db_ok d \<Longrightarrow> InsertTrip t d = Inr (i, d') \<Longrightarrow> db_ok d'"
  by (auto simp: db_ok_defs InsertTrip_def trip_check_def table_ok_intros split: if_splits)

lemma UpdateTrip_ok:
  assumes "db_ok d" and "UpdateTrip_row t d = Inr d'"
  shows "db_ok d'"
proof (cases "has_row t_ID (t_ID t) (trips d)")
  case True
  have "has_row t_ID i (update_row t_ID t (trips d)) = has_row t_ID i (trips d)" for i
    by (simp add: has_row_iff)
  then show ?thesis
    using assms True
    by (auto simp: db_ok_defs UpdateTrip_row_def table_ok_intros dest!: trip_table.update_member split: if_splits)
next
  case False
  then show ?thesis using assms by (simp add: UpdateTrip_row_def trip_table.update_absent)
qed

lemma InsertTripStay_ok:
  "db_ok d \<Longrightarrow> stay_width st \<Longrightarrow> InsertTripStay st d = Inr (i, d') \<Longrightarrow> db_ok d'"
  by (auto simp: db_ok_defs InsertTripStay_def stay_check_def stay_width_def table_ok_intros split: if_splits)

lemma delete_stays_ok:
  assumes "db_ok d"
  shows "db_ok (delete_stays P d)"
proof -
  have "has_row st_ID (k_StayID k) (delete_rows P (stays d))"
    if "k \<in> set (links d)" "\<not> list_ex (\<lambda>st. P st \<and> st_ID st = k_StayID k) (stays d)" for k
  proof -
    have "has_row st_ID (k_StayID k) (stays d)" using assms that(1) by (simp add: db_ok_defs)
    then obtain st where "st \<in> set (stays d)" "st_ID st = k_StayID k" by (auto simp: has_row_iff)
    moreover from this have "\<not> P st" using that(2) by (auto simp: list_ex_iff)
    ultimately have "st \<in> set (delete_rows P (stays d))" "st_ID st = k_StayID k" by simp_all
    then show ?thesis unfolding has_row_iff by (metis imageI)
  qed
  then show ?thesis
    using assms by (simp add: db_ok_defs delete_stays_def table_ok_intros)
qed

lemma DeleteTrip_ok:
  assumes "db_ok d"
  shows "db_ok (DeleteTrip_row i d)"
proof -
  have "stays (delete_stays (\<lambda>st. st_TripID st = i) d) = delete_rows (\<lambda>st. st_TripID st = i) (stays d)"
    "trips (delete_stays P d) = trips d" for P
    by (simp_all add: delete_stays_def)
  then show ?thesis
    using delete_stays_ok [OF assms, of "\<lambda>st. st_TripID st = i"]
    by (auto simp: DeleteTrip_row_def db_ok_defs has_row_iff table_ok_intros image_iff)
qed

lemma InsertTripStayEntry_ok:
  "db_ok d \<Longrightarrow> InsertTripStayEntry s e d = Inr d' \<Longrightarrow> db_ok d'"
  by (auto simp: db_ok_defs InsertTripStayEntry_def has_row_iff table_ok_intros split: if_splits)

lemma DeleteTripStay_ok: "db_ok d \<Longrightarrow> db_ok (DeleteTripStay i d)"
  by (simp add: DeleteTripStay_def delete_stays_ok)

end
