(* ===== verification/Cost.thy ===== *)
theory Cost
  imports LedgerTypes
begin

text \<open>
  \<open>internal/ledger/cost.go\<close>: the dollar cost of points.  A \<open>CostBasis\<close> is derived once from
  the contracts and the stored dues rates; a priced contract amortises its purchase over its
  points, the blended rate is their weighted mean, and dues of years that are not stored are
  projected one year at a time by the mean growth.  All arithmetic is 64-bit.
\<close>

section \<open>State\<close>

record cost_basis =
  rates :: "int \<Rightarrow> micros option"
  blended :: micros
  hasRate :: bool
  dues :: "(int \<times> micros) list"
  firstYear :: int
  lastYear :: int
  growthMicros :: int
  hasDues :: bool
  useYearMonth :: month

definition duesGrowthBase :: int where
  "duesGrowthBase = 1000000"

section \<open>Operations\<close>

definition PricePerPointYear :: "contract \<Rightarrow> micros option" where
  "PricePerPointYear c =
     (if c_TermYears c \<le> 0 \<or> c_PurchasePrice c \<le> 0 \<or> c_ClosingCosts c < 0 \<or> c_AnnualPoints c \<le> 0 then None
      else let num = int64 (int64 (c_PurchasePrice c + c_ClosingCosts c) * microsPerCent);
               den = int64 (c_AnnualPoints c * c_TermYears c)
           in Some (divRound num den))"

definition duesGrowth :: "(int \<times> micros) list \<Rightarrow> int \<times> int \<times> int" where
  "duesGrowth ds =
     (let years = sort (map fst ds);
          at = (\<lambda>y. the (map_of ds y));
          ratios = map (\<lambda>(y, yNext). divRound (int64 (at yNext * duesGrowthBase)) (at y))
            (filter (\<lambda>(y, yNext). yNext - y = 1) (zip years (tl years)));
          sumRatio = foldl (\<lambda>s r. int64 (s + r)) 0 ratios;
          count = int (length ratios)
      in (hd years, last years, if count = 0 then duesGrowthBase else divRound sumRatio count))"

definition rate_step :: "(int \<Rightarrow> micros option) \<times> int \<times> int \<Rightarrow> contract \<Rightarrow> (int \<Rightarrow> micros option) \<times> int \<times> int" where
  "rate_step st c = (case st of (rs, num, den) \<Rightarrow>
     (case PricePerPointYear c of
        None \<Rightarrow> (rs, num, den)
      | Some rate \<Rightarrow> (rs(c_ID c \<mapsto> rate), int64 (num + int64 (c_AnnualPoints c * rate)),
          int64 (den + c_AnnualPoints c))))"

definition dues_step :: "(int \<times> micros) list \<Rightarrow> dues_rate \<Rightarrow> (int \<times> micros) list" where
  "dues_step m d = (if d_Rate d \<le> 0 then m else AList.update (d_UseYear d) (d_Rate d) m)"

definition NewCostBasis :: "contract list \<Rightarrow> dues_rate list \<Rightarrow> cost_basis" where
  "NewCostBasis contracts drs =
     (let (rs, num, den) = foldl rate_step (\<lambda>_. None, 0, 0) contracts;
          ds = foldl dues_step [] drs;
          (fy, ly, g) = (if ds \<noteq> [] then duesGrowth ds else (0, 0, 0))
      in \<lparr>rates = rs,
          blended = (if den > 0 then divRound num den else 0),
          hasRate = (den > 0),
          dues = ds, firstYear = fy, lastYear = ly, growthMicros = g, hasDues = (ds \<noteq> []),
          useYearMonth = UseYearStartMonth contracts\<rparr>)"

definition Known :: "cost_basis \<Rightarrow> bool" where
  "Known b \<longleftrightarrow> hasRate b \<and> hasDues b"

definition Blended :: "cost_basis \<Rightarrow> micros" where
  "Blended b = blended b"

definition UseYearMonth :: "cost_basis \<Rightarrow> month" where
  "UseYearMonth b = useYearMonth b"

definition RateFor :: "cost_basis \<Rightarrow> int option \<Rightarrow> micros" where
  "RateFor b contractID =
     (case contractID of
        Some i \<Rightarrow> (case rates b i of Some rate \<Rightarrow> rate | None \<Rightarrow> blended b)
      | None \<Rightarrow> blended b)"

definition compoundDues :: "cost_basis \<Rightarrow> int \<Rightarrow> int \<Rightarrow> micros" where
  "compoundDues b baseYear steps =
     (let rate = (case map_of (dues b) baseYear of Some r \<Rightarrow> r | None \<Rightarrow> 0);
          g = growthMicros b
      in if g \<le> 0 then rate
         else ((\<lambda>r. divRound (int64 (r * duesGrowthBase)) g) ^^ nat (- steps))
           (((\<lambda>r. divRound (int64 (r * g)) duesGrowthBase) ^^ nat steps) rate))"

definition nearestDuesYearBelow :: "cost_basis \<Rightarrow> int \<Rightarrow> int" where
  "nearestDuesYearBelow b year =
     (case find (\<lambda>y. map_of (dues b) y \<noteq> None) (rev [firstYear b..year - 1]) of
        Some y \<Rightarrow> y | None \<Rightarrow> firstYear b)"

definition DuesFor :: "cost_basis \<Rightarrow> int \<Rightarrow> micros \<times> bool" where
  "DuesFor b year =
     (case map_of (dues b) year of
        Some rate \<Rightarrow> (rate, False)
      | None \<Rightarrow>
          if \<not> hasDues b then (0, False)
          else if lastYear b < year then (compoundDues b (lastYear b) (year - lastYear b), True)
          else if year < firstYear b then (compoundDues b (firstYear b) (year - firstYear b), True)
          else let below = nearestDuesYearBelow b year in (compoundDues b below (year - below), True))"

text \<open>\<open>Cost\<close> returns the cost, whether its dues were projected, and whether it is known.\<close>

definition Cost :: "cost_basis \<Rightarrow> int \<Rightarrow> int \<Rightarrow> int option \<Rightarrow> cents \<times> bool \<times> bool" where
  "Cost b points year contractID =
     (if \<not> Known b \<or> points \<le> 0 then (0, False, False)
      else let (d, projected) = DuesFor b year
           in (PointCost points (RateFor b contractID) d, projected, True))"

definition PriceEntry :: "cost_basis \<Rightarrow> entry \<Rightarrow> entry" where
  "PriceEntry b e =
     (let (cost, projected, known) = Cost b (e_Used e) (e_UseYear e) (e_ContractID e)
      in e\<lparr>e_Cost := cost, e_CostKnown := known, e_CostProjected := projected\<rparr>)"

definition PriceEntries :: "cost_basis \<Rightarrow> entry list \<Rightarrow> entry list" where
  "PriceEntries b entries = map (PriceEntry b) entries"

definition summary_index :: "use_year_summary list \<Rightarrow> int \<Rightarrow> nat option" where
  "summary_index ss = foldl (\<lambda>m (i, s). m(s_UseYear s \<mapsto> i)) (\<lambda>_. None) (enumerate 0 ss)"

definition add_cost :: "entry \<Rightarrow> use_year_summary \<Rightarrow> use_year_summary" where
  "add_cost e s = s\<lparr>s_Cost := int64 (s_Cost s + e_Cost e), s_CostKnown := True,
     s_CostProjected := (s_CostProjected s \<or> e_CostProjected e)\<rparr>"

definition PriceSummaries :: "use_year_summary list \<Rightarrow> entry list \<Rightarrow> use_year_summary list" where
  "PriceSummaries summaries priced =
     (let index = summary_index summaries in
      foldl (\<lambda>ss e.
        if \<not> e_CostKnown e then ss
        else (case index (e_UseYear e) of
            None \<Rightarrow> ss
          | Some i \<Rightarrow> ss[i := add_cost e (ss ! i)])) summaries priced)"

section \<open>Rates\<close>

lemma PricePerPointYear_SomeD: "PricePerPointYear c = Some r \<Longrightarrow> 0 < c_AnnualPoints c"
  by (auto simp: PricePerPointYear_def split: if_splits)

definition priced :: "contract \<Rightarrow> bool" where
  "priced c \<longleftrightarrow> PricePerPointYear c \<noteq> None"

definition own_rate :: "contract \<Rightarrow> micros" where
  "own_rate c = the (PricePerPointYear c)"

lemma int64_add_right [simp]: "int64 (a + int64 b) = int64 (a + b)"
  by (metis add.commute int64_add_left)

lemma rate_step_priced:
  "rate_step (rs, int64 num, int64 den) c =
     (if priced c
      then (rs(c_ID c \<mapsto> own_rate c), int64 (num + c_AnnualPoints c * own_rate c), int64 (den + c_AnnualPoints c))
      else (rs, int64 num, int64 den))"
  by (auto simp: rate_step_def priced_def own_rate_def)

lemma rate_step_fold:
  "foldl rate_step (rs, int64 num, int64 den) cs =
     (foldl (\<lambda>m c. if priced c then m(c_ID c \<mapsto> own_rate c) else m) rs cs,
      int64 (num + (\<Sum>c\<leftarrow>filter priced cs. c_AnnualPoints c * own_rate c)),
      int64 (den + (\<Sum>c\<leftarrow>filter priced cs. c_AnnualPoints c)))"
  by (induction cs arbitrary: rs num den) (simp_all add: rate_step_priced add.assoc)

lemma priced_points_pos: "0 \<le> (\<Sum>c\<leftarrow>filter priced cs. c_AnnualPoints c)"
  by (intro sum_list_map_nonneg) (auto simp: priced_def dest!: PricePerPointYear_SomeD)

definition rates_of :: "contract list \<Rightarrow> (int \<Rightarrow> micros option) \<Rightarrow> int \<Rightarrow> micros option" where
  "rates_of cs rs = foldl (\<lambda>m c. if priced c then m(c_ID c \<mapsto> own_rate c) else m) rs cs"

lemma rates_of_Cons [simp]:
  "rates_of (c # cs) rs = rates_of cs (if priced c then rs(c_ID c \<mapsto> own_rate c) else rs)"
  "rates_of [] rs = rs"
  by (simp_all add: rates_of_def)

lemma rates_of_other: "i \<notin> c_ID ` set cs \<Longrightarrow> rates_of cs rs i = rs i"
  by (induction cs arbitrary: rs) auto

lemma rates_of_member:
  "distinct (map c_ID cs) \<Longrightarrow> c \<in> set cs \<Longrightarrow>
     rates_of cs rs (c_ID c) = (if priced c then Some (own_rate c) else rs (c_ID c))"
proof (induction cs arbitrary: rs)
  case (Cons x cs)
  show ?case
  proof (cases "c = x")
    case True
    then show ?thesis using Cons.prems by (simp add: rates_of_other)
  next
    case False
    then have "c_ID c \<noteq> c_ID x" using Cons.prems by (metis distinct.simps(2) image_eqI list.set_map list.simps(9) set_ConsD)
    then show ?thesis using Cons False by simp
  qed
qed simp

lemma NewCostBasis_rates:
  "rates (NewCostBasis cs drs) = rates_of cs (\<lambda>_. None)"
  "hasRate (NewCostBasis cs drs) \<longleftrightarrow> 0 < int64 (\<Sum>c\<leftarrow>filter priced cs. c_AnnualPoints c)"
  "blended (NewCostBasis cs drs) =
     (if 0 < int64 (\<Sum>c\<leftarrow>filter priced cs. c_AnnualPoints c)
      then divRound (int64 (\<Sum>c\<leftarrow>filter priced cs. c_AnnualPoints c * own_rate c))
        (int64 (\<Sum>c\<leftarrow>filter priced cs. c_AnnualPoints c)) else 0)"
proof -
  have "int64 0 = 0" by (simp add: int64_def)
  then have "foldl rate_step (\<lambda>_. None, 0, 0) cs = (rates_of cs (\<lambda>_. None),
      int64 (\<Sum>c\<leftarrow>filter priced cs. c_AnnualPoints c * own_rate c),
      int64 (\<Sum>c\<leftarrow>filter priced cs. c_AnnualPoints c))"
    using rate_step_fold [of "\<lambda>_. None" 0 0 cs] by (simp add: rates_of_def)
  then show "rates (NewCostBasis cs drs) = rates_of cs (\<lambda>_. None)"
    "hasRate (NewCostBasis cs drs) \<longleftrightarrow> 0 < int64 (\<Sum>c\<leftarrow>filter priced cs. c_AnnualPoints c)"
    "blended (NewCostBasis cs drs) =
       (if 0 < int64 (\<Sum>c\<leftarrow>filter priced cs. c_AnnualPoints c)
        then divRound (int64 (\<Sum>c\<leftarrow>filter priced cs. c_AnnualPoints c * own_rate c))
          (int64 (\<Sum>c\<leftarrow>filter priced cs. c_AnnualPoints c)) else 0)"
    by (simp_all add: NewCostBasis_def Let_def split: prod.split)
qed

text \<open>The weighted mean lies between the smallest and the largest priced rate.\<close>

lemma weighted_bounds:
  assumes "\<And>c. c \<in> set cs \<Longrightarrow> 0 \<le> (w c :: int) \<and> lo \<le> r c \<and> r c \<le> hi"
  shows "(\<Sum>c\<leftarrow>cs. w c) * lo \<le> (\<Sum>c\<leftarrow>cs. w c * r c) \<and> (\<Sum>c\<leftarrow>cs. w c * r c) \<le> (\<Sum>c\<leftarrow>cs. w c) * hi"
  using assms
proof (induction cs)
  case (Cons c cs)
  have "w c * lo \<le> w c * r c" "w c * r c \<le> w c * hi"
    using Cons.prems [of c] by (auto intro: mult_left_mono)
  with Cons show ?case by (simp add: distrib_right add_mono)
qed simp

text \<open>C33: The blended rate of a portfolio, when some contract is priced and the products fit in
  64 bits, is at least the smallest and at most the largest rate of its priced contracts, and
  every priced contract keeps its own rate.\<close>

theorem blended_between:
  assumes "distinct (map c_ID cs)"
    and "c \<in> set cs" and "PricePerPointYear c = Some r"
    and "\<And>c' r'. c' \<in> set cs \<Longrightarrow> PricePerPointYear c' = Some r' \<Longrightarrow> 0 \<le> lo \<and> lo \<le> r' \<and> r' \<le> hi"
    and "(\<Sum>c\<leftarrow>filter priced cs. c_AnnualPoints c) \<le> 2 ^ 62"
    and "(\<Sum>c\<leftarrow>filter priced cs. c_AnnualPoints c * own_rate c) < 2 ^ 63"
  shows "lo \<le> Blended (NewCostBasis cs drs) \<and> Blended (NewCostBasis cs drs) \<le> hi \<and>
    RateFor (NewCostBasis cs drs) (Some (c_ID c)) = r \<and>
    RateFor (NewCostBasis cs drs) None = Blended (NewCostBasis cs drs)"
proof -
  let ?den = "\<Sum>c\<leftarrow>filter priced cs. c_AnnualPoints c"
  let ?num = "\<Sum>c\<leftarrow>filter priced cs. c_AnnualPoints c * own_rate c"
  have pr: "priced c" "own_rate c = r" using assms(3) by (simp_all add: priced_def own_rate_def)
  have each: "0 \<le> c_AnnualPoints c' \<and> lo \<le> own_rate c' \<and> own_rate c' \<le> hi \<and> 0 \<le> lo"
    if p: "c' \<in> set (filter priced cs)" for c'
  proof -
    obtain r' where r': "PricePerPointYear c' = Some r'" "c' \<in> set cs"
      using p by (auto simp: priced_def)
    then show ?thesis
      using assms(4) [OF r'(2,1)] PricePerPointYear_SomeD [OF r'(1)] by (simp add: own_rate_def)
  qed
  have lo: "0 \<le> lo" using each [of c] assms(2) pr by simp
  have w: "?den * lo \<le> ?num" "?num \<le> ?den * hi"
    using weighted_bounds [of "filter priced cs" c_AnnualPoints lo own_rate hi] each by auto
  have "c_AnnualPoints c \<le> ?den"
    using each assms(2) pr by (intro sum_list_member_le) auto
  then have den: "0 < ?den" using PricePerPointYear_SomeD [OF assms(3)] by linarith
  have num: "0 \<le> ?num" using w(1) mult_nonneg_nonneg [of ?den lo] den lo by linarith
  have i: "int64 ?den = ?den" "int64 ?num = ?num"
    using den num assms(5,6) by (auto intro!: int64_id simp: in64_def)
  have b: "Blended (NewCostBasis cs drs) = divRound ?num ?den"
    using den by (simp add: Blended_def NewCostBasis_rates i)
  have "lo \<le> divRound ?num ?den" "divRound ?num ?den \<le> hi"
    using divRound_mono_bounds [OF den assms(5) num assms(6) w] .
  then show ?thesis
    using rates_of_member [OF assms(1,2)] pr
    by (simp add: b [symmetric] RateFor_def NewCostBasis_rates(1) Blended_def)
qed

definition sample_contract :: "int \<Rightarrow> int \<Rightarrow> int \<Rightarrow> cents \<Rightarrow> contract" where
  "sample_contract i points term price = \<lparr>c_ID = i, c_Name = ''A'', c_Number = '''', c_HomeResort = '''',
     c_AnnualPoints = points, c_UseYearMonth = 4, c_TermYears = term, c_PurchasePrice = price, c_ClosingCosts = 0\<rparr>"

theorem blended_between_witness:
  "3200000 \<le> Blended (NewCostBasis [sample_contract 1 150 50 2400000, sample_contract 2 100 40 1800000] []) \<and>
   RateFor (NewCostBasis [sample_contract 1 150 50 2400000, sample_contract 2 100 40 1800000] []) (Some 2) = 4500000"
proof -
  let ?cs = "[sample_contract 1 150 50 2400000, sample_contract 2 100 40 1800000]"
  have r: "PricePerPointYear (sample_contract 1 150 50 2400000) = Some 3200000"
    "PricePerPointYear (sample_contract 2 100 40 1800000) = Some 4500000"
    by code_simp+
  have i: "c_ID (sample_contract i p t x) = i" "c_AnnualPoints (sample_contract i p t x) = p" for i p t x
    by (simp_all add: sample_contract_def)
  have lohi: "0 \<le> (3200000 :: int) \<and> 3200000 \<le> x \<and> x \<le> 4500000" if "c \<in> set ?cs" "PricePerPointYear c = Some x" for c x
    using that r by auto
  show ?thesis
    using blended_between [of ?cs "sample_contract 2 100 40 1800000" 4500000 3200000 4500000 "[]", OF _ _ _ lohi]
    by (simp add: r i priced_def own_rate_def)
qed

section \<open>Dues\<close>

lemma map_of_dues_step:
  "map_of (dues_step m d) = (if d_Rate d \<le> 0 then map_of m else (map_of m)(d_UseYear d \<mapsto> d_Rate d))"
  by (simp add: dues_step_def update_conv')

lemma dues_fold_other:
  "y \<notin> d_UseYear ` set ds \<Longrightarrow> map_of (foldl dues_step m ds) y = map_of m y"
  by (induction ds arbitrary: m) (auto simp: map_of_dues_step)

lemma dues_fold_member:
  "distinct (map d_UseYear ds) \<Longrightarrow> d \<in> set ds \<Longrightarrow> 0 < d_Rate d \<Longrightarrow>
     map_of (foldl dues_step m ds) (d_UseYear d) = Some (d_Rate d)"
proof (induction ds arbitrary: m)
  case (Cons x ds)
  then show ?case
    by (cases "d = x") (auto simp: dues_fold_other map_of_dues_step)
qed simp

lemma NewCostBasis_dues:
  "dues (NewCostBasis cs drs) = foldl dues_step [] drs"
  "hasDues (NewCostBasis cs drs) \<longleftrightarrow> foldl dues_step [] drs \<noteq> []"
  "foldl dues_step [] drs \<noteq> [] \<Longrightarrow>
     (firstYear (NewCostBasis cs drs), lastYear (NewCostBasis cs drs), growthMicros (NewCostBasis cs drs)) =
       duesGrowth (foldl dues_step [] drs)"
  by (auto simp: NewCostBasis_def Let_def split: prod.splits)

text \<open>The stored years span exactly from the first to the last one.\<close>

definition dues_wf :: "cost_basis \<Rightarrow> bool" where
  "dues_wf b \<longleftrightarrow> (hasDues b \<longrightarrow>
     map_of (dues b) (firstYear b) \<noteq> None \<and> map_of (dues b) (lastYear b) \<noteq> None \<and>
     (\<forall>y \<in> set (map fst (dues b)). firstYear b \<le> y \<and> y \<le> lastYear b))"

lemma sorted_between:
  "sorted (ys :: int list) \<Longrightarrow> y \<in> set ys \<Longrightarrow> hd ys \<le> y \<and> y \<le> last ys"
  by (induction ys) auto

lemma sorted_hd_last:
  fixes xs :: "int list"
  assumes "xs \<noteq> []"
  shows "hd (sort xs) \<in> set xs" and "last (sort xs) \<in> set xs"
    and "y \<in> set xs \<Longrightarrow> hd (sort xs) \<le> y \<and> y \<le> last (sort xs)"
proof -
  have ne: "sort xs \<noteq> []" using assms by (metis set_empty set_sort)
  show "hd (sort xs) \<in> set xs" using hd_in_set [OF ne] by simp
  show "last (sort xs) \<in> set xs" using last_in_set [OF ne] by simp
  show "y \<in> set xs \<Longrightarrow> hd (sort xs) \<le> y \<and> y \<le> last (sort xs)"
    using sorted_between [of "sort xs" y] by simp
qed

lemma dues_wf_NewCostBasis: "dues_wf (NewCostBasis cs drs)"
proof -
  let ?ds = "foldl dues_step [] drs"
  have "map_of ?ds (hd (sort (map fst ?ds))) \<noteq> None \<and> map_of ?ds (last (sort (map fst ?ds))) \<noteq> None \<and>
    (\<forall>y \<in> set (map fst ?ds). hd (sort (map fst ?ds)) \<le> y \<and> y \<le> last (sort (map fst ?ds)))" if "?ds \<noteq> []"
    using that sorted_hd_last [of "map fst ?ds"] by (auto simp: map_of_eq_None_iff)
  then show ?thesis
    using NewCostBasis_dues(3) [of drs cs]
    by (auto simp: dues_wf_def NewCostBasis_dues(1,2) duesGrowth_def Let_def)
qed

lemma DuesFor_stored_aux:
  "map_of (dues b) y = Some r \<Longrightarrow> DuesFor b y = (r, False)"
  by (simp add: DuesFor_def)

definition grow :: "cost_basis \<Rightarrow> micros \<Rightarrow> micros" where
  "grow b r = divRound (int64 (r * growthMicros b)) duesGrowthBase"

definition shrink :: "cost_basis \<Rightarrow> micros \<Rightarrow> micros" where
  "shrink b r = divRound (int64 (r * duesGrowthBase)) (growthMicros b)"

lemma compoundDues_forward:
  "0 < growthMicros b \<Longrightarrow> map_of (dues b) y = Some r \<Longrightarrow> 0 \<le> n \<Longrightarrow> compoundDues b y n = (grow b ^^ nat n) r"
  by (simp add: compoundDues_def Let_def grow_def [abs_def] nat_eq_iff)

lemma compoundDues_backward:
  "0 < growthMicros b \<Longrightarrow> map_of (dues b) y = Some r \<Longrightarrow> n \<le> 0 \<Longrightarrow> compoundDues b y n = (shrink b ^^ nat (- n)) r"
  by (simp add: compoundDues_def Let_def shrink_def [abs_def] nat_eq_iff)

lemma funpow_nat_step: "0 \<le> n \<Longrightarrow> (f ^^ nat (n + 1)) x = f ((f ^^ nat n) x)"
  by (simp add: nat_add_distrib)

lemma upto_snoc: "i \<le> (j :: int) \<Longrightarrow> [i..j] = [i..j - 1] @ [j]"
  by (rule upto_rec2)

text \<open>The nearest stored year below an unstored one: it is stored, and it stays the nearest
  one for the following year while that is unstored too.\<close>

lemma nearestDuesYearBelow_step:
  assumes "firstYear b \<le> y - 1"
  shows "nearestDuesYearBelow b y =
    (if map_of (dues b) (y - 1) \<noteq> None then y - 1 else nearestDuesYearBelow b (y - 1))"
  using assms upto_snoc [of "firstYear b" "y - 1"] by (auto simp: nearestDuesYearBelow_def)

lemma nearestDuesYearBelow_stored:
  assumes "dues_wf b" and "hasDues b" and "firstYear b < y"
  shows "map_of (dues b) (nearestDuesYearBelow b y) \<noteq> None \<and> nearestDuesYearBelow b y < y"
proof -
  have "y' \<in> set (rev [firstYear b..y - 1]) \<and> map_of (dues b) y' \<noteq> None"
    if "find (\<lambda>y. map_of (dues b) y \<noteq> None) (rev [firstYear b..y - 1]) = Some y'" for y'
    using that unfolding find_Some_iff by (metis nth_mem)
  then show ?thesis
    using assms by (auto simp: nearestDuesYearBelow_def dues_wf_def split: option.split)
qed

lemma DuesFor_unstored_forward:
  assumes wf: "dues_wf b" and has: "hasDues b" and g: "0 < growthMicros b"
    and un: "map_of (dues b) y = None" and lt: "firstYear b < y"
  shows "DuesFor b y = (grow b (fst (DuesFor b (y - 1))), True)"
proof -
  have key: "map_of (dues b) z \<noteq> None \<Longrightarrow> z \<le> lastYear b" for z
    using wf has by (auto simp: dues_wf_def map_of_eq_None_iff)
  obtain rl where rl: "map_of (dues b) (lastYear b) = Some rl" using wf has by (auto simp: dues_wf_def)
  show ?thesis
  proof (cases "lastYear b < y")
    case True
    have D: "fst (DuesFor b (y - 1)) = (grow b ^^ nat (y - 1 - lastYear b)) rl"
    proof (cases "y - 1 = lastYear b")
      case True
      then show ?thesis by (simp add: DuesFor_stored_aux rl)
    next
      case False
      then have "map_of (dues b) (y - 1) = None" using key [of "y - 1"] \<open>lastYear b < y\<close>
        by (cases "map_of (dues b) (y - 1)") auto
      then show ?thesis
        using False \<open>lastYear b < y\<close> has by (simp add: DuesFor_def compoundDues_forward [OF g rl])
    qed
    show ?thesis
      using True funpow_nat_step [of "y - 1 - lastYear b" "grow b" rl]
      by (simp add: D) (simp add: DuesFor_def un has compoundDues_forward [OF g rl])
  next
    case False
    let ?n = "nearestDuesYearBelow b y"
    obtain r where r: "map_of (dues b) ?n = Some r" and n: "?n < y"
      using nearestDuesYearBelow_stored [OF wf has lt] by auto
    have step: "?n = (if map_of (dues b) (y - 1) \<noteq> None then y - 1 else nearestDuesYearBelow b (y - 1))"
      using lt by (intro nearestDuesYearBelow_step) simp
    have D: "fst (DuesFor b (y - 1)) = (grow b ^^ nat (y - 1 - ?n)) r"
    proof (cases "map_of (dues b) (y - 1) = None")
      case True
      then have e: "?n = nearestDuesYearBelow b (y - 1)" using step by simp
      have "firstYear b \<le> y - 1" using lt by simp
      then show ?thesis
        using True False has n r by (simp add: DuesFor_def e [symmetric] Let_def compoundDues_forward [OF g])
    next
      case False
      then show ?thesis using step r by (simp add: DuesFor_stored_aux)
    qed
    show ?thesis
      using False lt n funpow_nat_step [of "y - 1 - ?n" "grow b" r]
      by (simp add: D) (simp add: DuesFor_def un has Let_def compoundDues_forward [OF g r])
  qed
qed

lemma DuesFor_unstored_backward:
  assumes wf: "dues_wf b" and has: "hasDues b" and g: "0 < growthMicros b" and lt: "y < firstYear b"
  shows "DuesFor b y = (shrink b (fst (DuesFor b (y + 1))), True)"
proof -
  have key: "map_of (dues b) z \<noteq> None \<Longrightarrow> firstYear b \<le> z" for z
    using wf has by (auto simp: dues_wf_def map_of_eq_None_iff)
  then have un: "map_of (dues b) z = None" if "z < firstYear b" for z
    using that by (metis linorder_not_less)
  obtain r where r: "map_of (dues b) (firstYear b) = Some r" using wf has by (auto simp: dues_wf_def)
  have le: "firstYear b \<le> lastYear b" using wf has key by (auto simp: dues_wf_def)
  have D: "fst (DuesFor b (y + 1)) = (shrink b ^^ nat (firstYear b - y - 1)) r"
  proof (cases "y + 1 = firstYear b")
    case True
    then show ?thesis by (simp add: DuesFor_stored_aux r)
  next
    case False
    then show ?thesis
      using lt le has un [of "y + 1"]
      by (simp add: DuesFor_def compoundDues_backward [OF g r] algebra_simps)
  qed
  show ?thesis
    using lt le has un [of y] funpow_nat_step [of "firstYear b - y - 1" "shrink b" r]
    by (simp add: D) (simp add: DuesFor_def compoundDues_backward [OF g r])
qed

text \<open>A dues rate that is stored (and positive) is returned exactly.  Every other year is
  marked projected: after the first stored year its rate is the previous year's rate times the
  mean growth, before it the next year's rate divided by that growth, each step rounded half away
  from zero.\<close>

theorem dues_projection:
  assumes "distinct (map d_UseYear drs)" and "hasDues b" and "0 < growthMicros b"
    and "b = NewCostBasis cs drs"
  shows "(\<forall>d \<in> set drs. 0 < d_Rate d \<longrightarrow> DuesFor b (d_UseYear d) = (d_Rate d, False)) \<and>
    (\<forall>y. map_of (dues b) y = None \<longrightarrow>
       DuesFor b y =
         (if firstYear b < y
          then divRound (int64 (fst (DuesFor b (y - 1)) * growthMicros b)) 1000000
          else divRound (int64 (fst (DuesFor b (y + 1)) * 1000000)) (growthMicros b), True))"
proof (intro conjI allI impI ballI)
  show "DuesFor b (d_UseYear d) = (d_Rate d, False)" if "d \<in> set drs" "0 < d_Rate d" for d
    using dues_fold_member [OF assms(1) that, of "[]"]
    by (intro DuesFor_stored_aux) (simp add: assms(4) NewCostBasis_dues(1))
next
  fix y assume un: "map_of (dues b) y = None"
  have wf: "dues_wf b" unfolding assms(4) by (rule dues_wf_NewCostBasis)
  then have "y \<noteq> firstYear b" using un assms(2) by (auto simp: dues_wf_def)
  then show "DuesFor b y =
      (if firstYear b < y
       then divRound (int64 (fst (DuesFor b (y - 1)) * growthMicros b)) 1000000
       else divRound (int64 (fst (DuesFor b (y + 1)) * 1000000)) (growthMicros b), True)"
    using DuesFor_unstored_forward [OF wf assms(2,3) un] DuesFor_unstored_backward [OF wf assms(2,3), of y]
    by (auto simp: grow_def shrink_def duesGrowthBase_def)
qed

theorem dues_projection_witness:
  "DuesFor (NewCostBasis [] [\<lparr>d_UseYear = 2025, d_Rate = 7929800\<rparr>, \<lparr>d_UseYear = 2026, d_Rate = 8223500\<rparr>]) 2026 =
     (8223500, False) \<and>
   DuesFor (NewCostBasis [] [\<lparr>d_UseYear = 2025, d_Rate = 7929800\<rparr>, \<lparr>d_UseYear = 2026, d_Rate = 8223500\<rparr>]) 2027 =
     (8528082, True)"
proof -
  let ?ds = "[\<lparr>d_UseYear = 2025, d_Rate = 7929800\<rparr>, \<lparr>d_UseYear = 2026, d_Rate = 8223500\<rparr>]"
  let ?b = "NewCostBasis [] ?ds"
  have c: "hasDues ?b" "growthMicros ?b = 1037038" "firstYear ?b = 2025" "map_of (dues ?b) 2027 = None"
    by code_simp+
  have d: "divRound (int64 (8223500 * 1037038)) 1000000 = 8528082" by code_simp
  show ?thesis
    using dues_projection [of ?ds ?b "[]"] c d by simp
qed

section \<open>Summaries\<close>

definition belongs :: "use_year_summary \<Rightarrow> entry \<Rightarrow> bool" where
  "belongs s e \<longleftrightarrow> e_CostKnown e \<and> e_UseYear e = s_UseYear s"

lemma summary_index_snoc:
  "summary_index (ss @ [s]) = (summary_index ss)(s_UseYear s \<mapsto> length ss)"
  by (simp add: summary_index_def enumerate_append_eq)

lemma summary_index_Some:
  "distinct (map s_UseYear ss) \<Longrightarrow>
     summary_index ss y = Some i \<longleftrightarrow> i < length ss \<and> s_UseYear (ss ! i) = y"
proof (induction ss rule: rev_induct)
  case Nil
  then show ?case by (simp add: summary_index_def)
next
  case (snoc s ss)
  have IH: "summary_index ss y = Some i \<longleftrightarrow> i < length ss \<and> s_UseYear (ss ! i) = y"
    using snoc by simp
  have "s_UseYear (ss ! i) \<noteq> s_UseYear s" if "i < length ss"
  proof -
    have "s_UseYear s \<notin> s_UseYear ` set ss" using snoc.prems by simp
    then show ?thesis using nth_mem [OF that] by (metis imageI)
  qed
  then show ?case
    unfolding summary_index_snoc using IH
    by (cases "i < length ss"; cases "i = length ss"; cases "y = s_UseYear s") (auto simp: nth_append)
qed

lemma add_cost_year [simp]: "s_UseYear (add_cost e s) = s_UseYear s"
  by (simp add: add_cost_def)

definition price_step :: "(int \<Rightarrow> nat option) \<Rightarrow> use_year_summary list \<Rightarrow> entry \<Rightarrow> use_year_summary list" where
  "price_step index ss e =
     (if \<not> e_CostKnown e then ss
      else (case index (e_UseYear e) of None \<Rightarrow> ss | Some i \<Rightarrow> ss[i := add_cost e (ss ! i)]))"

lemma PriceSummaries_step:
  "PriceSummaries ss es = foldl (price_step (summary_index ss)) ss es"
  by (simp add: PriceSummaries_def price_step_def [abs_def] Let_def)

lemma price_step_map:
  assumes "distinct (map s_UseYear ss)" and "map s_UseYear ts = map s_UseYear ss"
  shows "price_step (summary_index ss) ts e = map (\<lambda>s. if belongs s e then add_cost e s else s) ts"
proof (rule nth_equalityI)
  have len: "length ts = length ss" using assms(2) by (metis length_map)
  show "length (price_step (summary_index ss) ts e) =
      length (map (\<lambda>s. if belongs s e then add_cost e s else s) ts)"
    by (simp add: price_step_def split: option.split)
  fix i assume "i < length (price_step (summary_index ss) ts e)"
  then have i: "i < length ss" by (simp add: price_step_def len split: option.splits if_splits)
  have year: "s_UseYear (ts ! j) = s_UseYear (ss ! j)" if "j < length ss" for j
    using that len assms(2) by (metis nth_map)
  have inj: "j < length ss \<Longrightarrow> s_UseYear (ss ! j) = s_UseYear (ss ! i) \<Longrightarrow> j = i" for j
    using assms(1) i by (metis distinct_conv_nth length_map nth_map)
  show "price_step (summary_index ss) ts e ! i = map (\<lambda>s. if belongs s e then add_cost e s else s) ts ! i"
  proof (cases "summary_index ss (e_UseYear e)")
    case None
    then have "e_UseYear e \<noteq> s_UseYear (ss ! i)"
      using summary_index_Some [OF assms(1), of "e_UseYear e" i] i by auto
    then show ?thesis using i len year None by (simp add: price_step_def belongs_def)
  next
    case (Some j)
    then have "j < length ss" "s_UseYear (ss ! j) = e_UseYear e"
      using summary_index_Some [OF assms(1)] by auto
    then show ?thesis using i len year inj Some
      by (auto simp: price_step_def belongs_def nth_list_update)
  qed
qed

lemma PriceSummaries_map:
  assumes "distinct (map s_UseYear ss)"
  shows "PriceSummaries ss es = map (\<lambda>s. foldl (\<lambda>s e. add_cost e s) s (filter (belongs s) es)) ss"
proof -
  have bel: "belongs (foldl (\<lambda>s e. add_cost e s) s xs) e = belongs s e" for s xs e
  proof -
    have "s_UseYear (foldl (\<lambda>s e. add_cost e s) s xs) = s_UseYear s"
      by (induction xs arbitrary: s) auto
    then show ?thesis by (simp add: belongs_def)
  qed
  have "foldl (price_step (summary_index ss)) ss es =
      map (\<lambda>s. foldl (\<lambda>s e. add_cost e s) s (filter (belongs s) es)) ss \<and>
      map s_UseYear (foldl (price_step (summary_index ss)) ss es) = map s_UseYear ss"
  proof (induction es rule: rev_induct)
    case (snoc e es)
    then show ?case
      using price_step_map [OF assms, of "foldl (price_step (summary_index ss)) ss es" e]
      by (auto simp: bel)
  qed simp
  then show ?thesis by (simp add: PriceSummaries_step)
qed

lemma foldl_add_cost:
  "in64 (s_Cost s) \<Longrightarrow>
     s_Cost (foldl (\<lambda>s e. add_cost e s) s es) = int64 (s_Cost s + sum_list (map e_Cost es)) \<and>
     s_CostKnown (foldl (\<lambda>s e. add_cost e s) s es) = (s_CostKnown s \<or> es \<noteq> []) \<and>
     s_CostProjected (foldl (\<lambda>s e. add_cost e s) s es) = (s_CostProjected s \<or> list_ex e_CostProjected es)"
  by (induction es arbitrary: s) (auto simp: add_cost_def int64_id add.assoc)

text \<open>Pricing the summaries: a use year's cost is the 64-bit sum of the costs of its priced
  entries and of no others, it is known exactly when there is one, and it is marked projected exactly
  when one of those used a projected dues rate.\<close>

theorem summary_costs:
  assumes "distinct (map s_UseYear ss)" and "i < length ss"
    and "s_Cost (ss ! i) = 0" and "\<not> s_CostKnown (ss ! i)" and "\<not> s_CostProjected (ss ! i)"
    and "mine = filter (\<lambda>e. e_CostKnown e \<and> e_UseYear e = s_UseYear (ss ! i)) es"
  shows "s_Cost (PriceSummaries ss es ! i) = int64 (sum_list (map e_Cost mine)) \<and>
    s_CostKnown (PriceSummaries ss es ! i) = (mine \<noteq> []) \<and>
    s_CostProjected (PriceSummaries ss es ! i) = list_ex e_CostProjected mine"
proof -
  have "filter (belongs (ss ! i)) es = mine" by (simp add: assms(6) belongs_def [abs_def])
  then have "PriceSummaries ss es ! i = foldl (\<lambda>s e. add_cost e s) (ss ! i) mine"
    using assms(1,2) by (simp add: PriceSummaries_map)
  moreover have "in64 (s_Cost (ss ! i))" by (simp add: assms(3) in64_def)
  ultimately show ?thesis
    using foldl_add_cost [of "ss ! i" mine] assms(3-5) by simp
qed

theorem summary_costs_witness:
  "s_Cost (PriceSummaries
     [\<lparr>s_UseYear = 2026, s_Allotted = 0, s_Used = 60, s_Net = - 60, s_OverBorrowed = True, s_Cost = 0,
       s_CostKnown = False, s_CostProjected = False\<rparr>]
     [\<lparr>e_ID = 1, e_UseYear = 2026, e_Date = 20600, e_Desc = '''', e_Kind = KindUsage, e_Allotted = 0, e_Used = 60,
       e_Tag = '''', e_ContractID = None, RunningBalance = - 60, e_Cost = 68500, e_CostKnown = True,
       e_CostProjected = False\<rparr>] ! 0) = 68500"
  using summary_costs [of "[\<lparr>s_UseYear = 2026, s_Allotted = 0, s_Used = 60, s_Net = - 60, s_OverBorrowed = True,
       s_Cost = 0, s_CostKnown = False, s_CostProjected = False\<rparr>]" 0]
  by (simp add: int64_def)

end
