(* ===== verification/Store.thy ===== *)
theory Store
  imports Database Cost
begin

text \<open>
  \<open>internal/ledger/store.go\<close>, \<open>entries.go\<close>, \<open>dues.go\<close>, the summaries of \<open>distribute.go\<close> and
  \<open>Store.CostBasis\<close>: the store's operations over the database, with the narrowing of Go's \<open>int\<close> to the
  32-bit columns, and the running balance that \<open>ListEntries\<close> derives.  A statement that changes the
  tables returns the new database; a refused one returns its error and the old database stands.
\<close>

section \<open>Contracts\<close>

definition narrow_contract :: "contract \<Rightarrow> contract" where
  "narrow_contract c = c\<lparr>c_AnnualPoints := int32 (c_AnnualPoints c), c_UseYearMonth := int32 (c_UseYearMonth c),
     c_TermYears := int32 (c_TermYears c)\<rparr>"

definition AddContract :: "contract \<Rightarrow> db \<Rightarrow> int \<times> db" where
  "AddContract c d = InsertContract (narrow_contract c) d"

definition ListContracts :: "db \<Rightarrow> contract list" where
  "ListContracts d = ListContracts_rows d"

definition UpdateContract :: "contract \<Rightarrow> db \<Rightarrow> db" where
  "UpdateContract c d = UpdateContract_row (narrow_contract c) d"

definition DeleteContract :: "int \<Rightarrow> db \<Rightarrow> db" where
  "DeleteContract i d = DeleteContract_row i d"

section \<open>Entries\<close>

definition narrow_entry :: "entry_row \<Rightarrow> entry_row" where
  "narrow_entry e = e\<lparr>e_UseYear := int32 (e_UseYear e), e_Allotted := int32 (e_Allotted e), e_Used := int32 (e_Used e)\<rparr>"

definition entryFromRow :: "entry_row \<Rightarrow> entry" where
  "entryFromRow r = entry_row.extend r
     \<lparr>RunningBalance = 0, e_Cost = 0, e_CostKnown = False, e_CostProjected = False\<rparr>"

definition AddEntry :: "entry_row \<Rightarrow> db \<Rightarrow> (int \<times> db) result" where
  "AddEntry e d = InsertEntry (narrow_entry e) d"

fun running :: "int \<Rightarrow> entry_row list \<Rightarrow> entry list" where
  "running balance [] = []"
| "running balance (r # rs) =
     (let balance' = balance + (e_Allotted r - e_Used r)
      in (entryFromRow r)\<lparr>RunningBalance := balance'\<rparr> # running balance' rs)"

definition ListEntries :: "db \<Rightarrow> entry list" where
  "ListEntries d = running 0 (ListEntries_rows d)"

definition UpdateEntry :: "entry_row \<Rightarrow> db \<Rightarrow> db result" where
  "UpdateEntry e d = UpdateEntry_row (narrow_entry e) d"

definition DeleteEntry :: "int \<Rightarrow> db \<Rightarrow> db" where
  "DeleteEntry i d = DeleteEntry_row i d"

section \<open>Dues and pricing\<close>

definition ListDuesRates :: "db \<Rightarrow> dues_rate list" where
  "ListDuesRates d = ListDuesRates_rows d"

definition UpsertDuesRate :: "dues_rate \<Rightarrow> db \<Rightarrow> db result" where
  "UpsertDuesRate r d =
     (if d_Rate r \<le> 0 then Inl (ErrInput ''rate must be positive'')
      else if d_UseYear r < 1000 \<or> d_UseYear r > 9999 then Inl (ErrInput ''use year is not a plausible calendar year'')
      else Inr (UpsertDuesRate_row (r\<lparr>d_UseYear := int32 (d_UseYear r)\<rparr>) d))"

definition DeleteDuesRate :: "int \<Rightarrow> db \<Rightarrow> db" where
  "DeleteDuesRate y d = DeleteDuesRate_row (int32 y) d"

definition CostBasis :: "db \<Rightarrow> cost_basis" where
  "CostBasis d = NewCostBasis (ListContracts d) (ListDuesRates d)"

section \<open>Summaries\<close>

definition UseYearSummaries :: "db \<Rightarrow> use_year_summary list" where
  "UseYearSummaries d = map (\<lambda>(y, allotted, used).
       \<lparr>s_UseYear = y, s_Allotted = allotted, s_Used = used, s_Net = allotted - used,
        s_OverBorrowed = (allotted - used < 0), s_Cost = 0, s_CostKnown = False, s_CostProjected = False\<rparr>)
     (UseYearSummaries_rows d)"

section \<open>The invariant\<close>

lemma narrow_contract_width [simp]: "contract_width (narrow_contract c)"
  by (simp add: contract_width_def narrow_contract_def)

lemma narrow_entry_width [simp]: "entry_width (narrow_entry e)"
  by (simp add: entry_width_def narrow_entry_def)

lemma narrow_entry_id: "entry_width e \<Longrightarrow> narrow_entry e = e"
  by (simp add: entry_width_def narrow_entry_def int32_id)

lemma AddContract_ok: "db_ok d \<Longrightarrow> db_ok (snd (AddContract c d))"
  by (simp add: AddContract_def InsertContract_ok)

lemma UpdateContract_db_ok: "db_ok d \<Longrightarrow> db_ok (UpdateContract c d)"
  by (simp add: UpdateContract_def UpdateContract_ok)

lemma DeleteContract_db_ok: "db_ok d \<Longrightarrow> db_ok (DeleteContract i d)"
  by (simp add: DeleteContract_def DeleteContract_ok)

lemma AddEntry_ok: "db_ok d \<Longrightarrow> AddEntry e d = Inr (i, d') \<Longrightarrow> db_ok d'"
  unfolding AddEntry_def by (erule InsertEntry_ok) simp_all

lemma UpdateEntry_db_ok: "db_ok d \<Longrightarrow> UpdateEntry e d = Inr d' \<Longrightarrow> db_ok d'"
  unfolding UpdateEntry_def by (erule UpdateEntry_ok) simp_all

lemma DeleteEntry_ok: "db_ok d \<Longrightarrow> db_ok (DeleteEntry i d)"
  by (simp add: DeleteEntry_def DeleteEntry_row_def delete_entries_ok)

lemma UpsertDuesRate_db_ok: "db_ok d \<Longrightarrow> UpsertDuesRate r d = Inr d' \<Longrightarrow> db_ok d'"
  by (auto simp: UpsertDuesRate_def UpsertDuesRate_ok split: if_splits)

lemma DeleteDuesRate_db_ok: "db_ok d \<Longrightarrow> db_ok (DeleteDuesRate y d)"
  by (simp add: DeleteDuesRate_def DeleteDuesRate_ok)

lemma ListContracts_ok: "db_ok d \<Longrightarrow> ListContracts d = contracts d"
  by (auto simp: ListContracts_def ListContracts_rows_def db_ok_def tables_ok_def intro: contract_table.ok_sort_key)

section \<open>Running balance\<close>

lemma running_length [simp]: "length (running b rs) = length rs"
  by (induction b rs rule: running.induct) (simp_all add: Let_def)

lemma running_balance:
  "i < length rs \<Longrightarrow> RunningBalance (running b rs ! i) = b + (\<Sum>r\<leftarrow>take (Suc i) rs. e_Allotted r - e_Used r)"
proof (induction b rs arbitrary: i rule: running.induct)
  case (2 b r rs)
  then show ?case by (cases i) (simp_all add: Let_def)
qed simp

lemma entry_row_truncate_entryFromRow [simp]: "entry_row.truncate (entryFromRow r) = r"
  by (simp add: entryFromRow_def entry_row.defs)

lemma running_truncate: "map entry_row.truncate (running b rs) = rs"
proof (induction b rs rule: running.induct)
  case (2 b r rs)
  have "entry_row.truncate ((entryFromRow r)\<lparr>RunningBalance := x\<rparr>) = entry_row.truncate (entryFromRow r)" for x
    by (simp add: entry_row.defs)
  with 2 show ?case by (simp add: Let_def)
qed simp

lemma group_keys_distinct [simp]: "distinct (group_keys f rows)"
  by (simp add: group_keys_def)

lemma set_group_keys [simp]: "set (group_keys f rows) = f ` set rows"
  by (simp add: group_keys_def)

lemma group_sum:
  "(\<Sum>y\<leftarrow>group_keys f rows. \<Sum>r\<leftarrow>filter (\<lambda>r. f r = y) rows. g r) = (\<Sum>r\<leftarrow>rows. g r :: int)"
  by (rule sum_list_partition) simp_all

lemma mset_ListEntries_rows: "mset (ListEntries_rows d) = mset (entries d)"
  by (simp add: ListEntries_rows_def)

lemma sum_list_diff: "(\<Sum>x\<leftarrow>xs. f x - g x) = (\<Sum>x\<leftarrow>xs. f x) - (\<Sum>x\<leftarrow>xs. g x :: int)"
  by (rule sum_list_subtractf)

lemma summaries_net_total:
  "(\<Sum>s\<leftarrow>UseYearSummaries d. s_Net s) = (\<Sum>e\<leftarrow>entries d. e_Allotted e - e_Used e)"
  unfolding UseYearSummaries_def UseYearSummaries_rows_def
  by (simp add: comp_def sum_list_diff group_sum)

text \<open>\<open>ListEntries\<close> returns every stored row once, ordered by date and then id; each row's
  running balance is the sum of allotted minus used over the rows up to and including it; and the last
  balance is the sum of the nets of all use years.\<close>

theorem ledger_balance:
  "mset (map entry_row.truncate (ListEntries d)) = mset (entries d) \<and>
   sorted (map (\<lambda>e. (e_Date e, e_ID e)) (map entry_row.truncate (ListEntries d))) \<and>
   (\<forall>i < length (ListEntries d). RunningBalance (ListEntries d ! i) =
      (\<Sum>r\<leftarrow>take (Suc i) (map entry_row.truncate (ListEntries d)). e_Allotted r - e_Used r)) \<and>
   (ListEntries d \<noteq> [] \<longrightarrow> RunningBalance (last (ListEntries d)) = (\<Sum>s\<leftarrow>UseYearSummaries d. s_Net s))"
proof -
  have t: "map entry_row.truncate (ListEntries d) = ListEntries_rows d"
    by (simp add: ListEntries_def running_truncate)
  have bal: "RunningBalance (ListEntries d ! i) = (\<Sum>r\<leftarrow>take (Suc i) (ListEntries_rows d). e_Allotted r - e_Used r)"
    if "i < length (ListEntries d)" for i
    using that by (simp add: ListEntries_def running_balance)
  have len: "length (ListEntries_rows d) = length (ListEntries d)" by (simp add: ListEntries_def)
  have "RunningBalance (last (ListEntries d)) = (\<Sum>r\<leftarrow>ListEntries_rows d. e_Allotted r - e_Used r)"
    if "ListEntries d \<noteq> []"
    using that bal [of "length (ListEntries d) - 1"] len by (simp add: last_conv_nth)
  then show ?thesis
    using t bal sum_list_mset_cong [OF mset_ListEntries_rows, of "\<lambda>r. e_Allotted r - e_Used r" d]
    by (auto simp: mset_ListEntries_rows summaries_net_total ListEntries_rows_def)
qed

text \<open>A ledger of one contract, its allotment of 2026 and one usage against it.\<close>

definition sample_db :: db where
  "sample_db = fresh_db\<lparr>
     contracts := [\<lparr>c_ID = 1, c_Name = ''A'', c_Number = '''', c_HomeResort = '''', c_AnnualPoints = 100,
       c_UseYearMonth = 4, c_TermYears = 0, c_PurchasePrice = 0, c_ClosingCosts = 0\<rparr>],
     contract_seq := 1,
     entries :=
       [\<lparr>e_ID = 1, e_UseYear = 2026, e_Date = 20544, e_Desc = ''A'', e_Kind = KindAllocation,
         e_Allotted = 100, e_Used = 0, e_Tag = '''', e_ContractID = Some 1\<rparr>,
        \<lparr>e_ID = 2, e_UseYear = 2025, e_Date = 20500, e_Desc = ''T'', e_Kind = KindUsage,
         e_Allotted = 0, e_Used = 30, e_Tag = '''', e_ContractID = None\<rparr>],
     entry_seq := 2\<rparr>"

lemma sample_db_ok: "db_ok sample_db"
  by (simp add: sample_db_def fresh_db_def db_ok_defs table_ok_def contract_fk_def has_row_def
      contract_width_def entry_width_def in32_def seeded_dues_def)

theorem ledger_balance_witness:
  "RunningBalance (ListEntries sample_db ! 0) = - 30 \<and> RunningBalance (last (ListEntries sample_db)) = 70"
proof -
  have r: "map (\<lambda>e. e_Allotted e - e_Used e) (map entry_row.truncate (ListEntries sample_db)) = [- 30, 100]"
    by code_simp
  have len: "length (ListEntries sample_db) = 2" by code_simp
  have i: "RunningBalance (ListEntries sample_db ! i) =
      sum_list (take (Suc i) (map (\<lambda>e. e_Allotted e - e_Used e) (map entry_row.truncate (ListEntries sample_db))))"
    if "i < length (ListEntries sample_db)" for i
    using ledger_balance [of sample_db] that by (simp add: take_map)
  have "ListEntries sample_db \<noteq> []" using len by auto
  then show ?thesis using i [of 0] i [of 1] len unfolding r by (simp add: last_conv_nth)
qed

end
