(* ===== verification/Trips.thy ===== *)
theory Trips
  imports Store
begin

text \<open>
  \<open>internal/ledger/trip.go\<close>: trips and their stays.  A stay is booked when the ledger holds entries
  linked to it; that is derived on every read and never stored.  \<open>QuoteHash\<close> takes the digest of
  \<open>crypto/sha256\<close> as an argument.
\<close>

section \<open>Data\<close>

record trip_stay = stay_row +
  st_EntryIDs :: "int list"
  st_EntryPoints :: int

definition Booked :: "trip_stay \<Rightarrow> bool" where
  "Booked st \<longleftrightarrow> 0 < length (st_EntryIDs st)"

definition PartiallyBooked :: "trip_stay \<Rightarrow> bool" where
  "PartiallyBooked st \<longleftrightarrow> Booked st \<and> st_EntryPoints st < st_Points st"

section \<open>Trips\<close>

definition narrow_trip :: "trip \<Rightarrow> trip" where
  "narrow_trip t = t\<lparr>t_MinNights := int32 (t_MinNights t), t_BudgetOverride := map_option int32 (t_BudgetOverride t)\<rparr>"

definition AddTrip :: "trip \<Rightarrow> db \<Rightarrow> (int \<times> db) result" where
  "AddTrip t d = InsertTrip (narrow_trip t) d"

definition ListTrips :: "db \<Rightarrow> trip list" where
  "ListTrips d = ListTrips_rows d"

definition GetTrip :: "int \<Rightarrow> db \<Rightarrow> trip result" where
  "GetTrip i d = (case GetTrip_row i d of None \<Rightarrow> Inl ErrTripNotFound | Some t \<Rightarrow> Inr t)"

definition UpdateTrip :: "trip \<Rightarrow> db \<Rightarrow> db result" where
  "UpdateTrip t d = UpdateTrip_row (narrow_trip t) d"

section \<open>Stays\<close>

definition narrow_stay :: "stay_row \<Rightarrow> stay_row" where
  "narrow_stay st = st\<lparr>st_Nights := int32 (st_Nights st), st_Points := int32 (st_Points st)\<rparr>"

definition AddStay :: "stay_row \<Rightarrow> db \<Rightarrow> (int \<times> db) result" where
  "AddStay st d = InsertTripStay (narrow_stay st) d"

definition tripStayFromRow :: "stay_row \<Rightarrow> trip_stay" where
  "tripStayFromRow r = stay_row.extend r \<lparr>st_EntryIDs = [], st_EntryPoints = 0\<rparr>"

definition entry_ids_by_stay :: "(int \<times> int) list \<Rightarrow> int \<Rightarrow> int list" where
  "entry_ids_by_stay ls = foldl (\<lambda>m (s, e). m(s := m s @ [e])) (\<lambda>_. []) ls"

definition used_by_stay :: "(int \<times> int) list \<Rightarrow> int \<Rightarrow> int" where
  "used_by_stay us = foldl (\<lambda>m (s, u). m(s := u)) (\<lambda>_. 0) us"

definition ListStays :: "int \<Rightarrow> db \<Rightarrow> trip_stay list" where
  "ListStays tripID d =
     (let entryIDsByStay = entry_ids_by_stay (ListTripStayEntryIDsForTrip tripID d);
          usedByStay = used_by_stay (ListTripStayUsedPointsForTrip tripID d)
      in map (\<lambda>row. (tripStayFromRow row)\<lparr>st_EntryIDs := entryIDsByStay (st_ID row),
                                        st_EntryPoints := usedByStay (st_ID row)\<rparr>)
           (ListTripStays tripID d))"

section \<open>\<open>QuoteHash\<close>\<close>

definition unit_separator :: char where
  "unit_separator = CHR 0x1F"

definition quote_text :: "string \<Rightarrow> int \<Rightarrow> int \<Rightarrow> int list \<Rightarrow> string" where
  "quote_text resortCode year columnIndex nightlyPoints =
     resortCode @ [unit_separator] @ fmt_d year @ [unit_separator] @ fmt_d columnIndex @
     concat (map (\<lambda>p. [unit_separator] @ fmt_d p) nightlyPoints)"

definition hex_digit :: "nat \<Rightarrow> char" where
  "hex_digit n = ''0123456789abcdef'' ! n"

definition hex_EncodeToString :: "string \<Rightarrow> string" where
  "hex_EncodeToString bs = concat (map (\<lambda>b. [hex_digit (of_char b div 16), hex_digit (of_char b mod 16)]) bs)"

definition QuoteHash :: "(string \<Rightarrow> string) \<Rightarrow> string \<Rightarrow> int \<Rightarrow> int \<Rightarrow> int list \<Rightarrow> string" where
  "QuoteHash sha256 resortCode year columnIndex nightlyPoints =
     hex_EncodeToString (sha256 (quote_text resortCode year columnIndex nightlyPoints))"

section \<open>The invariant\<close>

lemma narrow_stay_width [simp]: "stay_width (narrow_stay st)"
  by (simp add: stay_width_def narrow_stay_def)

lemma AddTrip_ok: "db_ok d \<Longrightarrow> AddTrip t d = Inr (i, d') \<Longrightarrow> db_ok d'"
  by (simp add: AddTrip_def InsertTrip_ok)

lemma UpdateTrip_db_ok: "db_ok d \<Longrightarrow> UpdateTrip t d = Inr d' \<Longrightarrow> db_ok d'"
  by (simp add: UpdateTrip_def UpdateTrip_ok)

lemma AddStay_ok: "db_ok d \<Longrightarrow> AddStay st d = Inr (i, d') \<Longrightarrow> db_ok d'"
  unfolding AddStay_def by (erule InsertTripStay_ok) simp_all

section \<open>What \<open>ListStays\<close> reports\<close>

lemma entry_ids_by_stay_foldl:
  "foldl (\<lambda>m (s, e). m(s := m s @ [e])) m ls k = m k @ map snd (filter (\<lambda>(s, e). s = k) ls)"
  by (induction ls arbitrary: m) auto

lemma entry_ids_by_stay: "entry_ids_by_stay ls k = map snd (filter (\<lambda>(s, e). s = k) ls)"
  by (simp add: entry_ids_by_stay_def entry_ids_by_stay_foldl)

lemma used_by_stay_foldl:
  "distinct (map fst us) \<Longrightarrow>
     foldl (\<lambda>m (s, u). m(s := u)) m us k = (case map_of us k of None \<Rightarrow> m k | Some u \<Rightarrow> u)"
proof (induction us arbitrary: m)
  case (Cons x us)
  then have "map_of us (fst x) = None" by (simp add: map_of_eq_None_iff)
  with Cons show ?case by (cases x) auto
qed simp

lemma map_of_map_key: "map_of (map (\<lambda>x. (x, f x)) xs) k = (if k \<in> set xs then Some (f k) else None)"
  by (induction xs) auto

definition stay_links :: "db \<Rightarrow> int \<Rightarrow> link_row list" where
  "stay_links d stayID = filter (\<lambda>k. k_StayID k = stayID) (links d)"

lemma ListStays_rows:
  "map stay_row.truncate (ListStays tripID d) = ListTripStays tripID d"
  by (simp add: ListStays_def Let_def tripStayFromRow_def stay_row.defs comp_def map_idI)

lemma in_ListTripStays: "st \<in> set (ListTripStays tripID d) \<longleftrightarrow> st \<in> set (stays d) \<and> st_TripID st = tripID"
  by (auto simp: ListTripStays_def)

lemma stay_of_trip_row:
  "st \<in> set (stays d) \<Longrightarrow> st_TripID st = tripID \<Longrightarrow> stay_of_trip d tripID (st_ID st)"
  by (auto simp: stay_of_trip_def list_ex_iff)

text \<open>The linked entries of a listed stay, and the points they used.\<close>

lemma stay_entry_ids:
  assumes "stay_of_trip d tripID i"
  shows "set (entry_ids_by_stay (ListTripStayEntryIDsForTrip tripID d) i) = k_EntryID ` set (stay_links d i)"
  using assms by (auto simp: entry_ids_by_stay ListTripStayEntryIDsForTrip_def stay_links_def image_iff)

lemma stay_used_points:
  assumes "stay_of_trip d tripID i"
  shows "used_by_stay (ListTripStayUsedPointsForTrip tripID d) i = (\<Sum>k\<leftarrow>stay_links d i. link_used d k)"
proof -
  let ?ks = "filter (\<lambda>k. stay_of_trip d tripID (k_StayID k)) (links d)"
  let ?f = "\<lambda>s. \<Sum>k\<leftarrow>filter (\<lambda>k. k_StayID k = s) ?ks. link_used d k"
  have rows: "ListTripStayUsedPointsForTrip tripID d = map (\<lambda>s. (s, ?f s)) (group_keys k_StayID ?ks)"
    by (simp add: ListTripStayUsedPointsForTrip_def Let_def)
  have same: "filter (\<lambda>k. k_StayID k = i) ?ks = stay_links d i"
    unfolding stay_links_def filter_filter using assms by (intro filter_cong) auto
  have "used_by_stay (map (\<lambda>s. (s, ?f s)) (group_keys k_StayID ?ks)) i =
      (if i \<in> set (group_keys k_StayID ?ks) then ?f i else 0)"
    unfolding used_by_stay_def
    by (subst used_by_stay_foldl) (simp_all only: map_of_map_key map_map comp_def fst_conv, simp_all)
  moreover have "i \<notin> set (group_keys k_StayID ?ks) \<Longrightarrow> stay_links d i = []"
    unfolding same [symmetric] by (auto simp: filter_empty_conv simp del: filter_filter)
  ultimately show ?thesis
    unfolding rows by (auto simp: same simp del: filter_filter)
qed

section \<open>Quotes\<close>

lemma split_sep:
  assumes "c \<notin> set a" and "c \<notin> set a'" and "a @ xs = a' @ xs'"
    and "xs = [] \<or> hd xs = c" and "xs' = [] \<or> hd xs' = c"
  shows "a = a' \<and> xs = xs'"
  using assms
proof (induction a arbitrary: a')
  case Nil
  then show ?case by (cases a') auto
next
  case (Cons x a)
  then show ?case by (cases a') auto
qed

lemma join_sep_inj:
  assumes "\<forall>s \<in> set (r # ss). c \<notin> set s" and "\<forall>s \<in> set (r' # ss'). c \<notin> set s"
    and "r @ concat (map ((#) c) ss) = r' @ concat (map ((#) c) ss')"
  shows "r = r' \<and> ss = ss'"
  using assms
proof (induction ss arbitrary: r r' ss')
  case Nil
  have "concat (map ((#) c) ss') = [] \<or> hd (concat (map ((#) c) ss')) = c" by (cases ss') auto
  then have "r = r' \<and> [] = concat (map ((#) c) ss')"
    using Nil by (intro split_sep [of c]) auto
  then show ?case by (cases ss') auto
next
  case (Cons s ss)
  have "concat (map ((#) c) ss') = [] \<or> hd (concat (map ((#) c) ss')) = c" by (cases ss') auto
  then have r: "r = r' \<and> concat (map ((#) c) (s # ss)) = concat (map ((#) c) ss')"
    using Cons.prems by (intro split_sep [of c]) auto
  then obtain s' ss'' where ss': "ss' = s' # ss''" "s @ concat (map ((#) c) ss) = s' @ concat (map ((#) c) ss'')"
    by (cases ss') auto
  have "s = s' \<and> ss = ss''" by (rule Cons.IH) (use Cons.prems ss' in auto)
  then show ?case using r ss'(1) by simp
qed

lemma fmt_d_no_separator: "unit_separator \<notin> set (fmt_d x)"
  by (auto simp: fmt_d_def unit_separator_def is_digit_def digit_val_def dest!: dec_digits)

lemma quote_text_join:
  "quote_text r y c ps = r @ concat (map ((#) unit_separator) (fmt_d y # fmt_d c # map fmt_d ps))"
  by (simp add: quote_text_def comp_def)

lemma hex_digit_inj: "m < 16 \<Longrightarrow> n < 16 \<Longrightarrow> hex_digit m = hex_digit n \<Longrightarrow> m = n"
proof -
  have "distinct ''0123456789abcdef''" "length ''0123456789abcdef'' = 16" by simp_all
  then show "m < 16 \<Longrightarrow> n < 16 \<Longrightarrow> hex_digit m = hex_digit n \<Longrightarrow> m = n"
    unfolding hex_digit_def by (metis nth_eq_iff_index_eq)
qed

lemma hex_EncodeToString_inj: "hex_EncodeToString a = hex_EncodeToString b \<Longrightarrow> a = b"
proof (induction a arbitrary: b)
  case Nil
  then show ?case by (cases b) (simp_all add: hex_EncodeToString_def)
next
  case (Cons x a)
  then obtain y b' where b: "b = y # b'" by (cases b) (simp_all add: hex_EncodeToString_def)
  have lt: "(of_char z :: nat) div 16 < 16" for z using nat_of_char_less_256 [of z] by linarith
  have "(of_char x :: nat) div 16 = of_char y div 16 \<and> (of_char x :: nat) mod 16 = of_char y mod 16"
    using Cons.prems lt [of x] lt [of y]
    by (auto simp: b hex_EncodeToString_def intro!: hex_digit_inj)
  then have "(of_char x :: nat) = of_char y" by (metis div_mult_mod_eq)
  then have "x = y" by simp
  then show ?case using Cons b by (simp add: hex_EncodeToString_def)
qed

text \<open>Two quotes with the same hash come from the same resort, year, column and nightly points,
  unless the digest function collides: the text that is hashed determines its inputs.\<close>

theorem quote_hash_separates:
  assumes "unit_separator \<notin> set r" and "unit_separator \<notin> set r'"
    and "QuoteHash sha256 r y c ps = QuoteHash sha256 r' y' c' ps'"
    and "\<forall>p \<in> set (y # c # ps @ y' # c' # ps'). in64 p"
  shows "(r = r' \<and> y = y' \<and> c = c' \<and> ps = ps') \<or> (\<exists>a b. a \<noteq> b \<and> sha256 a = sha256 b)"
proof (cases "quote_text r y c ps = quote_text r' y' c' ps'")
  case False
  moreover have "sha256 (quote_text r y c ps) = sha256 (quote_text r' y' c' ps')"
    using assms(3) unfolding QuoteHash_def by (rule hex_EncodeToString_inj)
  ultimately show ?thesis by blast
next
  case True
  have fmt: "x = x'" if "fmt_d x = fmt_d x'" "in64 x" "in64 x'" for x x'
    using that Atoi_fmt_d by (metis option.inject)
  have "r = r' \<and> fmt_d y # fmt_d c # map fmt_d ps = fmt_d y' # fmt_d c' # map fmt_d ps'"
    by (rule join_sep_inj [of _ _ unit_separator])
      (use assms(1,2) True fmt_d_no_separator in \<open>auto simp: quote_text_join\<close>)
  moreover from this have "ps = ps'"
    using assms(4) fmt by (intro map_inj_on [of fmt_d]) (auto simp: inj_on_def)
  ultimately show ?thesis using assms(4) fmt by auto
qed

theorem quote_hash_separates_witness:
  "QuoteHash (\<lambda>s. s) ''AKV'' 2026 1 [1, 23] \<noteq> QuoteHash (\<lambda>s. s) ''AKV'' 2026 1 [12, 3]"
  using quote_hash_separates [of "''AKV''" "''AKV''" "\<lambda>s. s" 2026 1 "[1, 23]" 2026 1 "[12, 3]"]
  by (auto simp: unit_separator_def in64_def)

end
