(* ===== verification/Accounting.thy ===== *)
theory Accounting
  imports Allocation Trips
begin

text \<open>
  \<open>internal/ledger/trip_accounting.go\<close>: the lot snapshot the allocator works on, and the dry runs.
  \<open>fund_plan\<close> is the specification that the preview here and the booking in \<open>trip_book.go\<close> share: the
  draws of each unbooked stay, each stay decided with the draws of the ones before it consumed.
  Row locks and isolation have no effect on a single sequential reader and are not modelled here.
\<close>

section \<open>Snapshot\<close>

definition zero_contract :: contract where
  "zero_contract = \<lparr>c_ID = 0, c_Name = '''', c_Number = '''', c_HomeResort = '''', c_AnnualPoints = 0,
     c_UseYearMonth = 0, c_TermYears = 0, c_PurchasePrice = 0, c_ClosingCosts = 0\<rparr>"

definition lotSnapshotContracts :: "db \<Rightarrow> contract list" where
  "lotSnapshotContracts d =
     map (\<lambda>c. zero_contract\<lparr>c_ID := c_ID c, c_UseYearMonth := c_UseYearMonth c\<rparr>) (sort_key c_ID (contracts d))"

definition entry_key :: "entry_row \<Rightarrow> lot_key" where
  "entry_key e = (the (e_ContractID e), e_UseYear e)"

definition lotSnapshotLots :: "db \<Rightarrow> point_lot list" where
  "lotSnapshotLots d =
     (let rows = filter (\<lambda>e. 0 < e_Allotted e \<and> e_ContractID e \<noteq> None) (entries d)
      in map (\<lambda>k. \<lparr>l_ContractID = fst k, l_UseYear = snd k,
             l_Points = (\<Sum>e\<leftarrow>filter (\<lambda>e. entry_key e = k) rows. e_Allotted e)\<rparr>)
           (group_keys entry_key rows))"

definition lotSnapshotConsumed :: "db \<Rightarrow> point_draw list" where
  "lotSnapshotConsumed d =
     (let rows = filter (\<lambda>e. 0 < e_Used e \<and> e_ContractID e \<noteq> None) (entries d)
      in map (\<lambda>k. \<lparr>dr_ContractID = fst k, dr_UseYear = snd k, dr_Disposition = '''',
             dr_Points = (\<Sum>e\<leftarrow>filter (\<lambda>e. entry_key e = k) rows. e_Used e)\<rparr>)
           (group_keys entry_key rows))"

definition lotSnapshot :: "db \<Rightarrow> contract list \<times> point_lot list \<times> point_draw list" where
  "lotSnapshot d = (lotSnapshotContracts d, lotSnapshotLots d, lotSnapshotConsumed d)"

definition unattributedUsage :: "db \<Rightarrow> int" where
  "unattributedUsage d = (\<Sum>e\<leftarrow>filter (\<lambda>e. 0 < e_Used e \<and> e_ContractID e = None) (entries d). e_Used e)"

definition availablePoints :: "point_lot list \<Rightarrow> point_draw list \<Rightarrow> int \<Rightarrow> int" where
  "availablePoints lots consumed legacyUsed =
     foldl (\<lambda>a dr. a - dr_Points dr) (foldl (\<lambda>a l. a + l_Points l) (- legacyUsed) lots) consumed"

section \<open>Dry runs\<close>

definition PreviewStayFunding :: "date \<Rightarrow> int \<Rightarrow> db \<Rightarrow> point_draw list result" where
  "PreviewStayFunding checkIn points d =
     (let (cs, lots, consumed) = lotSnapshot d; legacyUsed = unattributedUsage d
      in if points > availablePoints lots consumed legacyUsed then Inl ErrInsufficientPoints
         else AllocateStayPoints cs lots consumed checkIn points)"

record stay_funding =
  sf_StayID :: int
  sf_Fundable :: bool
  sf_Draws :: "point_draw list"
  sf_ShortBy :: int

record trip_funding_preview =
  tp_Stays :: "stay_funding list"
  tp_Fundable :: bool

text \<open>The loop of \<open>PreviewTripFunding\<close>; the only error \<open>AllocateStayPoints\<close> makes is
  \<open>ErrInsufficientPoints\<close>, any other is returned.\<close>

fun preview_loop :: "contract list \<Rightarrow> point_lot list \<Rightarrow> int \<Rightarrow> point_draw list \<Rightarrow> trip_stay list \<Rightarrow>
    stay_funding list \<Rightarrow> trip_funding_preview result" where
  "preview_loop cs lots legacyUsed consumed [] acc = Inr \<lparr>tp_Stays = acc, tp_Fundable = True\<rparr>"
| "preview_loop cs lots legacyUsed consumed (st # sts) acc =
     (if Booked st then preview_loop cs lots legacyUsed consumed sts acc
      else if st_Points st > availablePoints lots consumed legacyUsed then
        Inr \<lparr>tp_Stays = acc @ [\<lparr>sf_StayID = st_ID st, sf_Fundable = False, sf_Draws = [],
               sf_ShortBy = st_Points st - availablePoints lots consumed legacyUsed\<rparr>], tp_Fundable = False\<rparr>
      else (case AllocateStayPoints cs lots consumed (st_CheckIn st) (st_Points st) of
          Inl e \<Rightarrow> if e \<noteq> ErrInsufficientPoints then Inl e
            else Inr \<lparr>tp_Stays = acc @ [\<lparr>sf_StayID = st_ID st, sf_Fundable = False, sf_Draws = [],
               sf_ShortBy = shortfall cs lots consumed (st_CheckIn st) (st_Points st)\<rparr>], tp_Fundable = False\<rparr>
        | Inr draws \<Rightarrow>
            preview_loop cs lots legacyUsed (consumed @ draws) sts
              (acc @ [\<lparr>sf_StayID = st_ID st, sf_Fundable = True, sf_Draws = draws, sf_ShortBy = 0\<rparr>])))"

definition PreviewTripFunding :: "trip_stay list \<Rightarrow> db \<Rightarrow> trip_funding_preview result" where
  "PreviewTripFunding sts d =
     (let (cs, lots, consumed) = lotSnapshot d
      in preview_loop cs lots (unattributedUsage d) consumed sts [])"

section \<open>The plan\<close>

fun fund_plan :: "contract list \<Rightarrow> point_lot list \<Rightarrow> int \<Rightarrow> point_draw list \<Rightarrow> trip_stay list \<Rightarrow>
    (trip_stay \<times> point_draw list) list result" where
  "fund_plan cs lots legacyUsed consumed [] = Inr []"
| "fund_plan cs lots legacyUsed consumed (st # sts) =
     (if Booked st then fund_plan cs lots legacyUsed consumed sts
      else if st_Points st > availablePoints lots consumed legacyUsed then Inl ErrInsufficientPoints
      else and_then (AllocateStayPoints cs lots consumed (st_CheckIn st) (st_Points st)) (\<lambda>draws.
           and_then (fund_plan cs lots legacyUsed (consumed @ draws) sts) (\<lambda>rest. Inr ((st, draws) # rest))))"

definition funding_plan :: "trip_stay list \<Rightarrow> db \<Rightarrow> (trip_stay \<times> point_draw list) list result" where
  "funding_plan sts d =
     fund_plan (lotSnapshotContracts d) (lotSnapshotLots d) (unattributedUsage d) (lotSnapshotConsumed d) sts"

lemma fund_plan_error: "fund_plan cs lots legacy consumed sts = Inl e \<Longrightarrow> e = ErrInsufficientPoints"
  by (induction sts arbitrary: consumed)
    (auto simp: and_then_Inl AllocateStayPoints_error split: if_splits)

text \<open>The preview shows exactly the plan: funded stays with their draws when there is one.\<close>

definition funded :: "trip_stay \<times> point_draw list \<Rightarrow> stay_funding" where
  "funded p = \<lparr>sf_StayID = st_ID (fst p), sf_Fundable = True, sf_Draws = snd p, sf_ShortBy = 0\<rparr>"

lemma preview_loop_plan:
  "case fund_plan cs lots legacy consumed sts of
     Inr plan \<Rightarrow> preview_loop cs lots legacy consumed sts acc = Inr \<lparr>tp_Stays = acc @ map funded plan, tp_Fundable = True\<rparr>
   | Inl e \<Rightarrow> \<exists>ss. preview_loop cs lots legacy consumed sts acc = Inr \<lparr>tp_Stays = ss, tp_Fundable = False\<rparr>"
proof (induction sts arbitrary: consumed acc)
  case (Cons st sts)
  show ?case
  proof (cases "Booked st \<or> st_Points st > availablePoints lots consumed legacy")
    case True
    then show ?thesis
      using Cons.IH [of consumed acc] by (cases "Booked st") (simp_all split: sum.splits)
  next
    case False
    show ?thesis
    proof (cases "AllocateStayPoints cs lots consumed (st_CheckIn st) (st_Points st)")
      case (Inl e)
      then have "e = ErrInsufficientPoints" by (simp add: AllocateStayPoints_error)
      then show ?thesis using False Inl by simp
    next
      case (Inr draws)
      then show ?thesis
        using False Cons.IH [of "consumed @ draws"]
        by (cases "fund_plan cs lots legacy (consumed @ draws) sts") (simp_all add: funded_def)
    qed
  qed
qed simp

lemma PreviewTripFunding_plan:
  "case funding_plan sts d of
     Inr plan \<Rightarrow> PreviewTripFunding sts d = Inr \<lparr>tp_Stays = map funded plan, tp_Fundable = True\<rparr>
   | Inl e \<Rightarrow> \<exists>ss. PreviewTripFunding sts d = Inr \<lparr>tp_Stays = ss, tp_Fundable = False\<rparr>"
  using preview_loop_plan [of "lotSnapshotContracts d" "lotSnapshotLots d" "unattributedUsage d"
      "lotSnapshotConsumed d" sts "[]"]
  by (simp add: PreviewTripFunding_def lotSnapshot_def funding_plan_def split: sum.splits)

section \<open>What the snapshot says of the ledger\<close>

text \<open>The points left in a lot, straight from the entries.\<close>

definition ledger_remaining :: "db \<Rightarrow> lot_key \<Rightarrow> int" where
  "ledger_remaining d k =
     (\<Sum>e\<leftarrow>filter (\<lambda>e. e_ContractID e = Some (fst k) \<and> e_UseYear e = snd k) (entries d).
        max 0 (e_Allotted e) - max 0 (e_Used e))"

lemma lot_key_of_simps [simp]: "lot_key_of \<lparr>l_ContractID = a, l_UseYear = b, l_Points = p\<rparr> = (a, b)"
  by (simp add: lot_key_of_def)

lemma draw_key_simps [simp]:
  "draw_key \<lparr>dr_ContractID = a, dr_UseYear = b, dr_Disposition = x, dr_Points = p\<rparr> = (a, b)"
  by (simp add: draw_key_def)

lemma group_lookup:
  "(\<Sum>x\<leftarrow>filter (\<lambda>k'. k' = k) (group_keys f rows). \<Sum>r\<leftarrow>filter (\<lambda>r. f r = x) rows. g r) =
     (\<Sum>r\<leftarrow>filter (\<lambda>r. f r = k) rows. g r :: int)"
proof (cases "k \<in> set (group_keys f rows)")
  case True
  have "filter (\<lambda>k'. k' = k) ks = (if k \<in> set ks then [k] else [])" if "distinct ks" for ks
    using that by (induction ks) auto
  then show ?thesis using True by simp
next
  case False
  then have "filter (\<lambda>k'. k' = k) (group_keys f rows) = []" by (auto simp: filter_empty_conv)
  moreover have "filter (\<lambda>r. f r = k) rows = []" using False by (auto simp: filter_empty_conv)
  ultimately show ?thesis by simp
qed

lemma sum_list_filter_if: "(\<Sum>x\<leftarrow>filter P xs. f x) = (\<Sum>x\<leftarrow>xs. if P x then f x else (0 :: int))"
  by (induction xs) auto

lemma sum_list_neg: "(\<Sum>x\<leftarrow>xs. - f x) = - (\<Sum>x\<leftarrow>xs. f x :: int)"
  by (induction xs) auto

lemma remaining_of_snapshot:
  "remaining_of (lotSnapshotLots d) (lotSnapshotConsumed d) k = ledger_remaining d k"
proof -
  let ?A = "filter (\<lambda>e. 0 < e_Allotted e \<and> e_ContractID e \<noteq> None) (entries d)"
  let ?U = "filter (\<lambda>e. 0 < e_Used e \<and> e_ContractID e \<noteq> None) (entries d)"
  have "(\<Sum>l\<leftarrow>filter (\<lambda>l. lot_key_of l = k) (lotSnapshotLots d). l_Points l) =
      (\<Sum>e\<leftarrow>filter (\<lambda>e. entry_key e = k) ?A. e_Allotted e)"
    using group_lookup [where k = k and f = entry_key and rows = ?A and g = e_Allotted]
    by (simp add: lotSnapshotLots_def Let_def filter_map comp_def del: filter_filter)
  moreover have "(\<Sum>x\<leftarrow>filter (\<lambda>x. draw_key x = k) (lotSnapshotConsumed d). - dr_Points x) =
      - (\<Sum>e\<leftarrow>filter (\<lambda>e. entry_key e = k) ?U. e_Used e)"
    using group_lookup [where k = k and f = entry_key and rows = ?U and g = e_Used]
    by (simp add: lotSnapshotConsumed_def Let_def filter_map comp_def sum_list_neg del: filter_filter)
  moreover have "(\<Sum>e\<leftarrow>filter (\<lambda>e. entry_key e = k) ?A. e_Allotted e) - (\<Sum>e\<leftarrow>filter (\<lambda>e. entry_key e = k) ?U. e_Used e) =
      ledger_remaining d k"
    unfolding ledger_remaining_def filter_filter sum_list_filter_if sum_list_subtractf [symmetric]
    by (intro arg_cong [where f = sum_list] map_cong) (auto simp: entry_key_def)
  ultimately show ?thesis by (simp add: remaining_of_def acc_add_apply)
qed

section \<open>What a plan promises\<close>

lemma fund_plan_stays:
  "fund_plan cs lots legacy consumed sts = Inr plan \<Longrightarrow> map fst plan = filter (\<lambda>st. \<not> Booked st) sts"
  by (induction sts arbitrary: consumed plan) (auto simp: and_then_Inr split: if_splits)

lemma fund_plan_draws:
  assumes "fund_plan cs lots legacy consumed sts = Inr plan" and "(st, draws) \<in> set plan"
  shows "\<exists>consumed'. AllocateStayPoints cs lots consumed' (st_CheckIn st) (st_Points st) = Inr draws"
  using assms
proof (induction sts arbitrary: consumed plan)
  case (Cons s sts)
  show ?case
  proof (cases "Booked s")
    case True
    then show ?thesis using Cons by auto
  next
    case False
    then obtain ds rest where r: "AllocateStayPoints cs lots consumed (st_CheckIn s) (st_Points s) = Inr ds"
      "fund_plan cs lots legacy (consumed @ ds) sts = Inr rest" "plan = (s, ds) # rest"
      using Cons.prems(1) by (auto simp: and_then_Inr split: if_splits)
    then show ?thesis using Cons.IH [OF r(2)] Cons.prems(2) by auto
  qed
qed simp

lemma fund_plan_no_overdraw:
  "fund_plan cs lots legacy consumed sts = Inr plan \<Longrightarrow> 0 \<le> remaining_of lots consumed k \<Longrightarrow>
     0 \<le> remaining_of lots (consumed @ concat (map snd plan)) k"
proof (induction sts arbitrary: consumed plan)
  case (Cons s sts)
  show ?case
  proof (cases "Booked s")
    case True
    then show ?thesis using Cons by auto
  next
    case False
    then obtain ds rest where r: "AllocateStayPoints cs lots consumed (st_CheckIn s) (st_Points s) = Inr ds"
      "fund_plan cs lots legacy (consumed @ ds) sts = Inr rest" "plan = (s, ds) # rest"
      using Cons.prems(1) by (auto simp: and_then_Inr split: if_splits)
    show ?thesis
      using Cons.IH [OF r(2) lot_allocator.allocate_no_overdraw [OF r(1) Cons.prems(2)]] r(3) by simp
  qed
qed simp

text \<open>Every draw of a plan names a contract of the ledger and the use year of one of its entries.\<close>

lemma lotSnapshotContracts_ids:
  "c_ID ` set (lotSnapshotContracts d) = c_ID ` set (contracts d)"
  by (simp add: lotSnapshotContracts_def image_image)

lemma eligible_snapshot:
  assumes "k \<in> eligible (lotSnapshotContracts d) (lotSnapshotLots d) consumed checkIn"
  shows "has_row c_ID (fst k) (contracts d)"
    and "\<exists>e \<in> set (entries d). e_ContractID e = Some (fst k) \<and> e_UseYear e = snd k"
proof -
  have "months_of (lotSnapshotContracts d) (fst k) \<noteq> None"
    using assms by (auto simp: eligible_def dest: eligible_year_month)
  then show "has_row c_ID (fst k) (contracts d)"
    by (simp add: months_of_None has_row_iff lotSnapshotContracts_ids)
  show "\<exists>e \<in> set (entries d). e_ContractID e = Some (fst k) \<and> e_UseYear e = snd k"
    using assms by (auto simp: eligible_def lotSnapshotLots_def Let_def entry_key_def image_iff)
qed

lemma funding_plan_draw:
  assumes "funding_plan sts d = Inr plan" and "(st, draws) \<in> set plan" and "dr \<in> set draws"
  shows "has_row c_ID (dr_ContractID dr) (contracts d)"
    and "\<exists>e \<in> set (entries d). e_UseYear e = dr_UseYear dr"
    and "0 < dr_Points dr" and "dr_Points dr \<le> max 0 (st_Points st)"
proof -
  obtain consumed where a: "AllocateStayPoints (lotSnapshotContracts d) (lotSnapshotLots d) consumed
      (st_CheckIn st) (st_Points st) = Inr draws"
    using fund_plan_draws assms(1,2) unfolding funding_plan_def by blast
  note m = AllocateStayPoints_member(2) [OF a assms(3)]
  note e = eligible_snapshot [of "draw_key dr" d consumed "st_CheckIn st"]
  show "has_row c_ID (dr_ContractID dr) (contracts d)" "\<exists>e \<in> set (entries d). e_UseYear e = dr_UseYear dr"
    using e m by (auto simp: draw_key_def)
  show "0 < dr_Points dr" using m by simp
  have "dr_Points dr \<le> sum_list (map dr_Points draws)"
    using assms(3) AllocateStayPoints_member(2) [OF a] by (intro sum_list_member_le) (auto intro: less_imp_le)
  then show "dr_Points dr \<le> max 0 (st_Points st)" by (simp add: AllocateStayPoints_sum [OF a])
qed

lemma funding_plan_sum:
  assumes "funding_plan sts d = Inr plan" and "(st, draws) \<in> set plan"
  shows "sum_list (map dr_Points draws) = max 0 (st_Points st)"
  using fund_plan_draws [of _ _ _ _ sts plan st draws] assms AllocateStayPoints_sum
  unfolding funding_plan_def by blast

section \<open>The dry run of one stay\<close>

lemma availablePoints_sum:
  "availablePoints lots consumed legacy =
     (\<Sum>l\<leftarrow>lots. l_Points l) - (\<Sum>dr\<leftarrow>consumed. dr_Points dr) - legacy"
proof -
  have "foldl (\<lambda>a l. a + l_Points l) b ls = b + (\<Sum>l\<leftarrow>ls. l_Points l)" for b and ls :: "point_lot list"
    by (induction ls arbitrary: b) simp_all
  moreover have "foldl (\<lambda>a l. a - dr_Points l) b xs = b - (\<Sum>x\<leftarrow>xs. dr_Points x)" for b and xs :: "point_draw list"
    by (induction xs arbitrary: b) simp_all
  ultimately show ?thesis by (simp add: availablePoints_def)
qed

text \<open>The points on contracts less every use, attributed or not.\<close>

definition ledger_available :: "db \<Rightarrow> int" where
  "ledger_available d =
     (\<Sum>e\<leftarrow>entries d. (if e_ContractID e \<noteq> None then max 0 (e_Allotted e) else 0) - max 0 (e_Used e))"

lemma snapshot_available:
  "availablePoints (lotSnapshotLots d) (lotSnapshotConsumed d) (unattributedUsage d) = ledger_available d"
proof -
  let ?A = "filter (\<lambda>e. 0 < e_Allotted e \<and> e_ContractID e \<noteq> None) (entries d)"
  let ?U = "filter (\<lambda>e. 0 < e_Used e \<and> e_ContractID e \<noteq> None) (entries d)"
  have "(\<Sum>l\<leftarrow>lotSnapshotLots d. l_Points l) = (\<Sum>e\<leftarrow>?A. e_Allotted e)"
    using group_sum [where f = entry_key and g = e_Allotted and rows = ?A] by (simp add: lotSnapshotLots_def Let_def comp_def del: filter_filter)
  moreover have "(\<Sum>dr\<leftarrow>lotSnapshotConsumed d. dr_Points dr) = (\<Sum>e\<leftarrow>?U. e_Used e)"
    using group_sum [where f = entry_key and g = e_Used and rows = ?U] by (simp add: lotSnapshotConsumed_def Let_def comp_def del: filter_filter)
  moreover have "(\<Sum>e\<leftarrow>?A. e_Allotted e) - (\<Sum>e\<leftarrow>?U. e_Used e) - unattributedUsage d = ledger_available d"
    unfolding unattributedUsage_def ledger_available_def sum_list_filter_if sum_list_subtractf [symmetric]
    by (intro arg_cong [where f = sum_list] map_cong) auto
  ultimately show ?thesis by (simp add: availablePoints_sum)
qed

text \<open>A ledger in which an overdrawn lot of another use year holds back a stay whose own lots suffice:
  the aggregate test refuses it although no usage is unattributed and the allocator would fund it.\<close>

definition held_back_db :: db where
  "held_back_db = fresh_db\<lparr>
     contracts := [\<lparr>c_ID = 1, c_Name = ''A'', c_Number = '''', c_HomeResort = '''', c_AnnualPoints = 100,
       c_UseYearMonth = 4, c_TermYears = 0, c_PurchasePrice = 0, c_ClosingCosts = 0\<rparr>],
     contract_seq := 1,
     entries :=
       [\<lparr>e_ID = 1, e_UseYear = 2026, e_Date = 20544, e_Desc = ''A'', e_Kind = KindAllocation,
         e_Allotted = 100, e_Used = 0, e_Tag = '''', e_ContractID = Some 1\<rparr>,
        \<lparr>e_ID = 2, e_UseYear = 2020, e_Date = 18400, e_Desc = ''T'', e_Kind = KindUsage,
         e_Allotted = 0, e_Used = 80, e_Tag = '''', e_ContractID = Some 1\<rparr>],
     entry_seq := 2\<rparr>"

lemma held_back:
  "PreviewStayFunding 20600 50 held_back_db = Inl ErrInsufficientPoints"
  "unattributedUsage held_back_db = 0"
  "is_ok (AllocateStayPoints (lotSnapshotContracts held_back_db) (lotSnapshotLots held_back_db)
     (lotSnapshotConsumed held_back_db) 20600 50)"
  by code_simp+

text \<open>The dry run of one stay funds it exactly when its points are within both the aggregate
  (points of all contracts less every use) and what its eligible lots have left.  The two tests are
  independent: the aggregate can refuse a stay that the allocator would fund, also when no usage is
  unattributed.\<close>

theorem preview_stay_two_tests:
  "(is_ok (PreviewStayFunding checkIn points d) \<longleftrightarrow>
      points \<le> ledger_available d \<and>
      points \<le> funding_capacity (lotSnapshotContracts d) (lotSnapshotLots d) (lotSnapshotConsumed d) checkIn) \<and>
   (\<exists>d checkIn points. unattributedUsage d = 0 \<and> \<not> is_ok (PreviewStayFunding checkIn points d) \<and>
      is_ok (AllocateStayPoints (lotSnapshotContracts d) (lotSnapshotLots d) (lotSnapshotConsumed d) checkIn points))"
proof (rule conjI)
  show "is_ok (PreviewStayFunding checkIn points d) \<longleftrightarrow> points \<le> ledger_available d \<and>
      points \<le> funding_capacity (lotSnapshotContracts d) (lotSnapshotLots d) (lotSnapshotConsumed d) checkIn"
    by (auto simp: PreviewStayFunding_def lotSnapshot_def snapshot_available AllocateStayPoints_closed)
  show "\<exists>d checkIn points. unattributedUsage d = 0 \<and> \<not> is_ok (PreviewStayFunding checkIn points d) \<and>
      is_ok (AllocateStayPoints (lotSnapshotContracts d) (lotSnapshotLots d) (lotSnapshotConsumed d) checkIn points)"
    using held_back by (intro exI [of _ held_back_db] exI [of _ 20600] exI [of _ 50]) simp
qed

end
