(* ===== verification/Booking.thy ===== *)
theory Booking
  imports Accounting
begin

text \<open>
  \<open>internal/ledger/trip_book.go\<close>: booking, unbooking and deleting a trip.  A transaction that fails
  returns its error and leaves the database as it was, so a failing operation returns no database; the
  sequence numbers a rolled back transaction used up are not modelled.  Other transactions enter
  through \<open>BookTrip\<close>: before each attempt they may have changed the database, and an attempt may lose a
  serialization conflict.
\<close>

section \<open>Operations\<close>

definition DispositionTag :: "string \<Rightarrow> string" where
  "DispositionTag disposition =
     (if disposition = DispositionBanked then ''Bank''
      else if disposition = DispositionBorrowed then ''Borrow'' else '''')"

definition bookTripAttempts :: nat where
  "bookTripAttempts = 3"

definition em_dash :: string where
  "em_dash = [CHR 0xE2, CHR 0x80, CHR 0x94]"

definition draw_entry :: "trip \<Rightarrow> trip_stay \<times> point_draw \<Rightarrow> entry_row" where
  "draw_entry trip p = (case p of (st, draw) \<Rightarrow>
     \<lparr>e_ID = 0, e_UseYear = dr_UseYear draw, e_Date = st_CheckIn st,
      e_Desc = t_Name trip @ '' '' @ em_dash @ '' '' @ st_Resort st @ '' '' @ st_RoomType st,
      e_Kind = KindUsage, e_Allotted = 0, e_Used = dr_Points draw, e_Tag = DispositionTag (dr_Disposition draw),
      e_ContractID = Some (dr_ContractID draw)\<rparr>)"

fun book_draws :: "trip \<Rightarrow> trip_stay \<Rightarrow> point_draw list \<Rightarrow> db \<Rightarrow> db result" where
  "book_draws trip st [] d = Inr d"
| "book_draws trip st (draw # draws) d =
     and_then (AddEntry (draw_entry trip (st, draw)) d) (\<lambda>(newID, d1).
     and_then (InsertTripStayEntry (st_ID st) newID d1) (\<lambda>d2. book_draws trip st draws d2))"

fun book_loop :: "trip \<Rightarrow> contract list \<Rightarrow> point_lot list \<Rightarrow> int \<Rightarrow> point_draw list \<Rightarrow> trip_stay list \<Rightarrow> db \<Rightarrow> db result" where
  "book_loop trip cs lots legacyUsed consumed [] d = Inr d"
| "book_loop trip cs lots legacyUsed consumed (st # sts) d =
     (if Booked st then book_loop trip cs lots legacyUsed consumed sts d
      else if st_Points st > availablePoints lots consumed legacyUsed then Inl ErrInsufficientPoints
      else and_then (AllocateStayPoints cs lots consumed (st_CheckIn st) (st_Points st)) (\<lambda>draws.
           and_then (book_draws trip st draws d) (\<lambda>d1.
             book_loop trip cs lots legacyUsed (consumed @ draws) sts d1)))"

definition bookTripOnce :: "int \<Rightarrow> db \<Rightarrow> db result" where
  "bookTripOnce tripID d =
     and_then (GetTrip tripID d) (\<lambda>trip.
       let sts = ListStays tripID d; (cs, lots, consumed) = lotSnapshot d
       in book_loop trip cs lots (unattributedUsage d) consumed sts d)"

text \<open>\<open>env\<close> says, for each attempt, what other transactions have made of the database before it and
  whether it loses a serialization conflict.  The loop's variable \<open>err\<close> starts as nil.\<close>

fun book_attempts :: "nat \<Rightarrow> (nat \<Rightarrow> db \<Rightarrow> db \<times> bool) \<Rightarrow> nat \<Rightarrow> error option \<Rightarrow> int \<Rightarrow> db \<Rightarrow> error option \<times> db" where
  "book_attempts 0 env i err tripID d = (err, d)"
| "book_attempts (Suc n) env i err tripID d =
     (case env i d of (d1, conflict) \<Rightarrow>
        if conflict then book_attempts n env (Suc i) (Some ErrSerialization) tripID d1
        else (case bookTripOnce tripID d1 of Inl e \<Rightarrow> (Some e, d1) | Inr d2 \<Rightarrow> (None, d2)))"

definition BookTrip :: "(nat \<Rightarrow> db \<Rightarrow> db \<times> bool) \<Rightarrow> int \<Rightarrow> db \<Rightarrow> error option \<times> db" where
  "BookTrip env tripID d = book_attempts bookTripAttempts env 0 None tripID d"

definition UnbookTrip :: "int \<Rightarrow> db \<Rightarrow> db" where
  "UnbookTrip tripID d = DeleteEntriesForTrip tripID d"

definition DeleteTrip :: "int \<Rightarrow> db \<Rightarrow> db" where
  "DeleteTrip tripID d = DeleteTrip_row tripID (DeleteEntriesForTrip tripID d)"

definition DeleteStay :: "int \<Rightarrow> db \<Rightarrow> db" where
  "DeleteStay stayID d = DeleteTripStay stayID (DeleteEntriesForStay stayID d)"

section \<open>Posting\<close>

text \<open>One draw posts one usage entry and its link; neither statement can be refused when the
  contract and the stay exist, since the entry's id is new.\<close>

definition post_draw :: "trip \<Rightarrow> db \<Rightarrow> trip_stay \<times> point_draw \<Rightarrow> db" where
  "post_draw trip d p = d\<lparr>
     entries := entries d @ [(draw_entry trip p)\<lparr>e_ID := entry_seq d + 1\<rparr>], entry_seq := entry_seq d + 1,
     links := links d @ [\<lparr>k_ID = link_seq d + 1, k_StayID = st_ID (fst p), k_EntryID = entry_seq d + 1\<rparr>],
     link_seq := link_seq d + 1\<rparr>"

definition postable :: "db \<Rightarrow> trip_stay \<times> point_draw \<Rightarrow> bool" where
  "postable d p \<longleftrightarrow> has_row st_ID (st_ID (fst p)) (stays d) \<and> has_row c_ID (dr_ContractID (snd p)) (contracts d) \<and>
     in32 (dr_UseYear (snd p)) \<and> in32 (dr_Points (snd p))"

lemma post_draw_step:
  assumes "db_ok d" and "postable d (st, draw)"
  shows "and_then (AddEntry (draw_entry trip (st, draw)) d) (\<lambda>(newID, d1).
      and_then (InsertTripStayEntry (st_ID st) newID d1) f) = f (post_draw trip d (st, draw))"
    and "db_ok (post_draw trip d (st, draw))"
proof -
  let ?e = "draw_entry trip (st, draw)"
  let ?d1 = "d\<lparr>entries := entries d @ [?e\<lparr>e_ID := entry_seq d + 1\<rparr>], entry_seq := entry_seq d + 1\<rparr>"
  have w: "entry_width ?e" using assms(2) by (simp add: draw_entry_def entry_width_def postable_def in32_def)
  then have add: "AddEntry ?e d = Inr (entry_seq d + 1, ?d1)"
    using assms(2) by (simp add: AddEntry_def InsertEntry_def narrow_entry_id insert_row_def contract_fk_def
        draw_entry_def postable_def)
  have fresh: "\<not> has_row k_EntryID (entry_seq d + 1) (links d)"
    using assms(1) entry_table.new_id_fresh [of "entry_seq d" "entries d"]
    by (auto simp: db_ok_defs has_row_iff)
  have link: "InsertTripStayEntry (st_ID st) (entry_seq d + 1) ?d1 = Inr (post_draw trip d (st, draw))"
    using assms(2) fresh
    by (simp add: InsertTripStayEntry_def postable_def insert_row_def post_draw_def has_row_def)
  show "and_then (AddEntry ?e d) (\<lambda>(newID, d1).
      and_then (InsertTripStayEntry (st_ID st) newID d1) f) = f (post_draw trip d (st, draw))"
    by (simp add: add link)
  show "db_ok (post_draw trip d (st, draw))"
    using InsertTripStayEntry_ok [OF AddEntry_ok [OF assms(1) add] link] .
qed

lemma post_draw_same [simp]:
  "contracts (post_draw trip d p) = contracts d" "stays (post_draw trip d p) = stays d"
  "trips (post_draw trip d p) = trips d" "postable (post_draw trip d p) = postable d"
  by (simp_all add: post_draw_def postable_def [abs_def])

definition post_all :: "trip \<Rightarrow> (trip_stay \<times> point_draw) list \<Rightarrow> db \<Rightarrow> db" where
  "post_all trip ps d = foldl (post_draw trip) d ps"

lemma post_all_simps [simp]:
  "post_all trip [] d = d" "post_all trip (p # ps) d = post_all trip ps (post_draw trip d p)"
  "post_all trip (ps @ qs) d = post_all trip qs (post_all trip ps d)"
  by (simp_all add: post_all_def)

lemma post_all_same [simp]:
  "contracts (post_all trip ps d) = contracts d" "stays (post_all trip ps d) = stays d"
  "trips (post_all trip ps d) = trips d" "postable (post_all trip ps d) = postable d"
  by (induction ps arbitrary: d) simp_all

lemma post_all_ok: "db_ok d \<Longrightarrow> \<forall>p \<in> set ps. postable d p \<Longrightarrow> db_ok (post_all trip ps d)"
  by (induction ps arbitrary: d) (auto simp: post_draw_step(2))

lemma book_draws_post:
  "db_ok d \<Longrightarrow> \<forall>dr \<in> set draws. postable d (st, dr) \<Longrightarrow>
     book_draws trip st draws d = Inr (post_all trip (map (Pair st) draws) d)"
  by (induction draws arbitrary: d) (simp_all add: post_draw_step)

section \<open>The booking follows the plan\<close>

definition flat_plan :: "(trip_stay \<times> point_draw list) list \<Rightarrow> (trip_stay \<times> point_draw) list" where
  "flat_plan plan = concat (map (\<lambda>(st, draws). map (Pair st) draws) plan)"

lemma flat_plan_simps [simp]:
  "flat_plan [] = []" "flat_plan ((st, draws) # plan) = map (Pair st) draws @ flat_plan plan"
  by (simp_all add: flat_plan_def)

lemma ListStays_ids:
  "st \<in> set (ListStays tripID d) \<Longrightarrow> has_row st_ID (st_ID st) (stays d)"
  by (auto simp: ListStays_def Let_def tripStayFromRow_def stay_row.defs in_ListTripStays has_row_iff)

lemma ListStays_row:
  assumes "st \<in> set (ListStays tripID d)"
  shows "stay_row.truncate st \<in> set (stays d)" and "st_TripID st = tripID"
    and "st_EntryIDs st = entry_ids_by_stay (ListTripStayEntryIDsForTrip tripID d) (st_ID st)"
    and "st_EntryPoints st = used_by_stay (ListTripStayUsedPointsForTrip tripID d) (st_ID st)"
proof -
  have "stay_row.truncate st \<in> set (map stay_row.truncate (ListStays tripID d))" using assms by simp
  then show "stay_row.truncate st \<in> set (stays d)" by (simp add: ListStays_rows in_ListTripStays del: set_map)
  show "st_TripID st = tripID"
    and "st_EntryIDs st = entry_ids_by_stay (ListTripStayEntryIDsForTrip tripID d) (st_ID st)"
    and "st_EntryPoints st = used_by_stay (ListTripStayUsedPointsForTrip tripID d) (st_ID st)"
    using assms by (auto simp: ListStays_def Let_def tripStayFromRow_def stay_row.defs in_ListTripStays)
qed

lemma stay_checked:
  assumes "db_ok d" and "st \<in> set (ListStays tripID d)"
  shows "0 < st_Points st" and "in32 (st_Points st)"
proof -
  have "stay_check (stay_row.truncate st) \<and> stay_width (stay_row.truncate st)"
    using assms(1) ListStays_row(1) [OF assms(2)] by (simp add: db_ok_defs)
  then show "0 < st_Points st" "in32 (st_Points st)"
    by (simp_all add: stay_check_def stay_width_def stay_row.defs)
qed

lemma draws_postable:
  assumes "db_ok d" and "st \<in> set (ListStays tripID d)"
    and "AllocateStayPoints (lotSnapshotContracts d) (lotSnapshotLots d) consumed (st_CheckIn st) (st_Points st) = Inr draws"
    and "dr \<in> set draws"
  shows "postable d (st, dr)"
proof -
  note m = AllocateStayPoints_member(2) [OF assms(3,4)]
  note e = eligible_snapshot [of "draw_key dr" d consumed "st_CheckIn st"]
  obtain e where "e \<in> set (entries d)" "e_UseYear e = dr_UseYear dr"
    using e(2) m by (auto simp: draw_key_def)
  then have "in32 (dr_UseYear dr)" using assms(1) by (auto simp: db_ok_defs entry_width_def)
  moreover have "has_row c_ID (dr_ContractID dr) (contracts d)" using e(1) m by (simp add: draw_key_def)
  moreover have le: "dr_Points dr \<le> sum_list (map dr_Points draws)"
    using assms(4) AllocateStayPoints_member(2) [OF assms(3)] by (intro sum_list_member_le) (auto intro: less_imp_le)
  have "sum_list (map dr_Points draws) = st_Points st"
    using stay_checked(1) [OF assms(1,2)] AllocateStayPoints_sum [OF assms(3)] by simp
  then have "in32 (dr_Points dr)"
    using le m stay_checked(2) [OF assms(1,2)] by (simp add: in32_def)
  ultimately show ?thesis using ListStays_ids [OF assms(2)] by (simp add: postable_def)
qed

lemma book_loop_plan:
  assumes "db_ok d0" and "set sts \<subseteq> set (ListStays tripID d0)"
    and "db_ok d" and "contracts d = contracts d0" and "stays d = stays d0"
  shows "book_loop trip (lotSnapshotContracts d0) (lotSnapshotLots d0) legacy consumed sts d =
    and_then (fund_plan (lotSnapshotContracts d0) (lotSnapshotLots d0) legacy consumed sts)
      (\<lambda>plan. Inr (post_all trip (flat_plan plan) d))"
  using assms(2-)
proof (induction sts arbitrary: consumed d)
  case (Cons st sts)
  let ?cs = "lotSnapshotContracts d0" and ?ls = "lotSnapshotLots d0"
  show ?case
  proof (cases "Booked st \<or> st_Points st > availablePoints ?ls consumed legacy")
    case True
    then show ?thesis using Cons by auto
  next
    case False
    show ?thesis
    proof (cases "AllocateStayPoints ?cs ?ls consumed (st_CheckIn st) (st_Points st)")
      case (Inl e)
      then show ?thesis using False by simp
    next
      case (Inr draws)
      have st: "st \<in> set (ListStays tripID d0)" using Cons.prems(1) by simp
      have "postable d0 = postable d" using Cons.prems(3,4) by (simp add: postable_def [abs_def])
      then have p: "\<forall>dr \<in> set draws. postable d (st, dr)"
        using draws_postable [OF assms(1) st Inr] by auto
      let ?d = "post_all trip (map (Pair st) draws) d"
      have b: "book_draws trip st draws d = Inr ?d" by (rule book_draws_post [OF Cons.prems(2) p])
      have "db_ok ?d" using p by (intro post_all_ok [OF Cons.prems(2)]) simp
      then have "book_loop trip ?cs ?ls legacy (consumed @ draws) sts ?d =
          and_then (fund_plan ?cs ?ls legacy (consumed @ draws) sts) (\<lambda>plan. Inr (post_all trip (flat_plan plan) ?d))"
        using Cons.prems by (intro Cons.IH) auto
      then show ?thesis
        using False Inr b by (cases "fund_plan ?cs ?ls legacy (consumed @ draws) sts") simp_all
    qed
  qed
qed simp

lemma bookTripOnce_plan:
  assumes "db_ok d" and "GetTrip tripID d = Inr trip"
  shows "bookTripOnce tripID d =
    and_then (funding_plan (ListStays tripID d) d) (\<lambda>plan. Inr (post_all trip (flat_plan plan) d))"
  using book_loop_plan [OF assms(1) order_refl assms(1) refl refl]
  by (simp add: bookTripOnce_def assms(2) lotSnapshot_def Let_def funding_plan_def)

lemma plan_postable:
  assumes "db_ok d" and "funding_plan (ListStays tripID d) d = Inr plan"
  shows "\<forall>p \<in> set (flat_plan plan). postable d p"
proof
  fix p assume "p \<in> set (flat_plan plan)"
  then obtain st draws dr where p: "p = (st, dr)" "(st, draws) \<in> set plan" "dr \<in> set draws"
    by (auto simp: flat_plan_def)
  have "st \<in> set (map fst plan)" using p(2) by force
  then have st: "st \<in> set (ListStays tripID d)"
    using fund_plan_stays assms(2) unfolding funding_plan_def by fastforce
  show "postable d p"
    using fund_plan_draws assms(2) p(2) draws_postable [OF assms(1) st] p(3)
    unfolding funding_plan_def p(1) by blast
qed

lemma bookTripOnce_ok: "db_ok d \<Longrightarrow> bookTripOnce tripID d = Inr d' \<Longrightarrow> db_ok d'"
proof -
  assume a: "db_ok d" "bookTripOnce tripID d = Inr d'"
  then obtain trip where t: "GetTrip tripID d = Inr trip" by (auto simp: bookTripOnce_def and_then_Inr)
  obtain plan where "funding_plan (ListStays tripID d) d = Inr plan" "d' = post_all trip (flat_plan plan) d"
    using a(2) unfolding bookTripOnce_plan [OF a(1) t] by (auto simp: and_then_Inr)
  then show "db_ok d'" using post_all_ok [OF a(1)] plan_postable [OF a(1)] by simp
qed

section \<open>What is posted\<close>

fun posted_entries :: "trip \<Rightarrow> int \<Rightarrow> (trip_stay \<times> point_draw) list \<Rightarrow> entry_row list" where
  "posted_entries trip n [] = []"
| "posted_entries trip n (p # ps) = (draw_entry trip p)\<lparr>e_ID := n + 1\<rparr> # posted_entries trip (n + 1) ps"

fun posted_links :: "int \<Rightarrow> int \<Rightarrow> (trip_stay \<times> point_draw) list \<Rightarrow> link_row list" where
  "posted_links m n [] = []"
| "posted_links m n (p # ps) =
     \<lparr>k_ID = m + 1, k_StayID = st_ID (fst p), k_EntryID = n + 1\<rparr> # posted_links (m + 1) (n + 1) ps"

lemma post_all_closed:
  "post_all trip ps d = d\<lparr>
     entries := entries d @ posted_entries trip (entry_seq d) ps, entry_seq := entry_seq d + int (length ps),
     links := links d @ posted_links (link_seq d) (entry_seq d) ps, link_seq := link_seq d + int (length ps)\<rparr>"
proof (induction ps arbitrary: d)
  case (Cons p ps)
  show ?case unfolding post_all_simps Cons by (simp add: post_draw_def)
qed simp

lemma posted_entries_ids:
  "e_ID ` set (posted_entries trip n ps) = {n + 1..n + int (length ps)}"
  by (induction ps arbitrary: n) auto

lemma posted_links_entries: "k_EntryID ` set (posted_links m n ps) = {n + 1..n + int (length ps)}"
  by (induction ps arbitrary: m n) auto

lemma posted_links_stays: "k_StayID ` set (posted_links m n ps) = (st_ID \<circ> fst) ` set ps"
  by (induction ps arbitrary: m n) auto

lemma posted_entries_draws:
  "map (\<lambda>e. e\<lparr>e_ID := 0\<rparr>) (posted_entries trip n ps) = map (draw_entry trip) ps"
  by (induction ps arbitrary: n) (auto simp: draw_entry_def split: prod.split)

lemma sum_posted:
  assumes "\<And>e i. f (e\<lparr>e_ID := i\<rparr>) = (f e :: int)"
  shows "sum_list (map f (posted_entries trip n ps)) = sum_list (map (f \<circ> draw_entry trip) ps)"
  by (induction ps arbitrary: n) (simp_all add: assms)

lemma link_used_entry:
  assumes "db_ok d" and "e \<in> set (entries d)" and "k_EntryID k = e_ID e"
  shows "link_used d k = e_Used e"
proof -
  have "find (\<lambda>x. e_ID x = e_ID e) (entries d) = Some e"
  proof -
    have u: "x = e" if "x \<in> set (entries d)" "e_ID x = e_ID e" for x
      using assms(1,2) that entry_table.ok_unique by (auto simp: db_ok_defs)
    obtain x where x: "find (\<lambda>x. e_ID x = e_ID e) (entries d) = Some x"
      using assms(2) by (cases "find (\<lambda>x. e_ID x = e_ID e) (entries d)") (auto simp: find_None_iff)
    then have "x \<in> set (entries d)" "e_ID x = e_ID e" by (auto simp: find_Some_iff)
    then show ?thesis using u x by simp
  qed
  then show ?thesis by (simp add: link_used_def assms(3))
qed

lemma posted_links_used:
  assumes "db_ok d" and "set (posted_entries trip n ps) \<subseteq> set (entries d)"
  shows "(\<Sum>k\<leftarrow>filter (\<lambda>k. k_StayID k = i) (posted_links m n ps). link_used d k) =
    (\<Sum>p\<leftarrow>filter (\<lambda>p. st_ID (fst p) = i) ps. dr_Points (snd p))"
  using assms(2)
proof (induction ps arbitrary: m n)
  case (Cons p ps)
  have "link_used d \<lparr>k_ID = m + 1, k_StayID = st_ID (fst p), k_EntryID = n + 1\<rparr> = dr_Points (snd p)"
    using link_used_entry [OF assms(1), of "(draw_entry trip p)\<lparr>e_ID := n + 1\<rparr>"] Cons.prems
    by (cases p) (simp add: draw_entry_def)
  then show ?case using Cons by auto
qed simp

text \<open>The plan of a listing has each stay once, so the pairs of one stay are its draws.\<close>

lemma ListStays_distinct: "db_ok d \<Longrightarrow> distinct (map st_ID (ListStays tripID d))"
proof -
  assume "db_ok d"
  then have "distinct (map st_ID (stays d))"
    using stay_table.ok_distinct by (auto simp: db_ok_defs)
  then have "distinct (map st_ID (ListTripStays tripID d))"
    by (auto simp: ListTripStays_def distinct_map inj_on_def)
  moreover have "map st_ID (ListStays tripID d) = map st_ID (ListTripStays tripID d)"
    by (simp add: ListStays_def Let_def tripStayFromRow_def stay_row.defs comp_def)
  ultimately show ?thesis by simp
qed

lemma flat_plan_other_stay:
  "i \<notin> (st_ID \<circ> fst) ` set plan \<Longrightarrow> filter (\<lambda>p. st_ID (fst p) = i) (flat_plan plan) = []"
  by (induction plan) (auto simp: filter_empty_conv)

lemma flat_plan_stay_sum:
  assumes "distinct (map (st_ID \<circ> fst) plan)" and "(st, draws) \<in> set plan"
  shows "(\<Sum>p\<leftarrow>filter (\<lambda>p. st_ID (fst p) = st_ID st) (flat_plan plan). dr_Points (snd p)) = sum_list (map dr_Points draws)"
  using assms
proof (induction plan)
  case (Cons x plan)
  obtain s ds where x: "x = (s, ds)" by (cases x)
  show ?case
  proof (cases "(st, draws) = x")
    case True
    then have "st_ID st \<notin> (st_ID \<circ> fst) ` set plan" using Cons.prems(1) x by auto
    then show ?thesis using True x flat_plan_other_stay by (simp add: filter_map comp_def)
  next
    case False
    then have "(st, draws) \<in> set plan" using Cons.prems(2) by auto
    moreover from this have "st_ID s \<noteq> st_ID st" using Cons.prems(1) x by force
    ultimately show ?thesis using Cons x by (simp add: filter_map comp_def)
  qed
qed simp

section \<open>The stays after a booking\<close>

lemma listed_booked:
  assumes "st \<in> set (ListStays tripID d)" and "db_ok d"
  shows "Booked st \<longleftrightarrow> stay_links d (st_ID st) \<noteq> []"
    and "st_EntryPoints st = (\<Sum>k\<leftarrow>stay_links d (st_ID st). link_used d k)"
proof -
  note r = ListStays_row [OF assms(1)]
  have s: "stay_of_trip d tripID (st_ID st)"
    using stay_of_trip_row [OF r(1), of tripID] r(2) by (simp add: stay_row.defs)
  have "set (st_EntryIDs st) = k_EntryID ` set (stay_links d (st_ID st))"
    using stay_entry_ids [OF s] r(3) by simp
  then show "Booked st \<longleftrightarrow> stay_links d (st_ID st) \<noteq> []"
    by (auto simp: Booked_def)
  show "st_EntryPoints st = (\<Sum>k\<leftarrow>stay_links d (st_ID st). link_used d k)"
    using stay_used_points [OF s] r(4) by simp
qed

lemma old_link_used:
  assumes "db_ok d" and "k \<in> set (links d)"
  shows "link_used (post_all trip ps d) k = link_used d k"
proof -
  have "find P (xs @ ys) = (case find P xs of None \<Rightarrow> find P ys | Some x \<Rightarrow> Some x)" for P and xs ys :: "entry_row list"
    by (induction xs) auto
  moreover have "find (\<lambda>e. e_ID e = k_EntryID k) (entries d) \<noteq> None"
    using assms by (auto simp: db_ok_defs has_row_iff find_None_iff) (metis imageE)
  ultimately show ?thesis by (auto simp: link_used_def post_all_closed)
qed

lemma stay_links_post:
  "stay_links (post_all trip ps d) i =
     stay_links d i @ filter (\<lambda>k. k_StayID k = i) (posted_links (link_seq d) (entry_seq d) ps)"
  by (simp add: stay_links_def post_all_closed)

lemma ListTripStays_post [simp]: "ListTripStays tripID (post_all trip ps d) = ListTripStays tripID d"
  by (simp add: ListTripStays_def)

definition booked_points :: "db \<Rightarrow> int \<Rightarrow> int" where
  "booked_points d i = (\<Sum>k\<leftarrow>stay_links d i. link_used d k)"

lemma booked_points_post:
  assumes "db_ok d" and "\<forall>p \<in> set ps. postable d p"
  shows "booked_points (post_all trip ps d) i =
    booked_points d i + (\<Sum>p\<leftarrow>filter (\<lambda>p. st_ID (fst p) = i) ps. dr_Points (snd p))"
proof -
  let ?d = "post_all trip ps d"
  have ok: "db_ok ?d" by (rule post_all_ok [OF assms])
  have "(\<Sum>k\<leftarrow>filter (\<lambda>k. k_StayID k = i) (posted_links (link_seq d) (entry_seq d) ps). link_used ?d k) =
      (\<Sum>p\<leftarrow>filter (\<lambda>p. st_ID (fst p) = i) ps. dr_Points (snd p))"
    by (rule posted_links_used [OF ok, of trip "entry_seq d"]) (simp add: post_all_closed)
  moreover have "(\<Sum>k\<leftarrow>stay_links d i. link_used ?d k) = booked_points d i"
    unfolding booked_points_def using old_link_used [OF assms(1)]
    by (intro arg_cong [where f = sum_list] map_cong) (auto simp: stay_links_def)
  ultimately show ?thesis
    unfolding booked_points_def [of ?d] stay_links_post by simp
qed

lemma plan_stays_distinct:
  assumes "db_ok d" and "funding_plan (ListStays tripID d) d = Inr plan"
  shows "distinct (map (st_ID \<circ> fst) plan)"
proof -
  have "map fst plan = filter (\<lambda>st. \<not> Booked st) (ListStays tripID d)"
    using fund_plan_stays assms(2) unfolding funding_plan_def by blast
  then have "map (st_ID \<circ> fst) plan = map st_ID (filter (\<lambda>st. \<not> Booked st) (ListStays tripID d))"
    by (metis list.map_comp)
  then show ?thesis using ListStays_distinct [OF assms(1), of tripID] by (simp add: distinct_map_filter)
qed

lemma booked_stay_points:
  assumes "db_ok d" and "funding_plan (ListStays tripID d) d = Inr plan" and "st \<in> set (ListStays tripID d)"
  shows "booked_points (post_all trip (flat_plan plan) d) (st_ID st) =
      (if Booked st then st_EntryPoints st else st_Points st)"
    and "stay_links (post_all trip (flat_plan plan) d) (st_ID st) \<noteq> []"
proof -
  let ?d = "post_all trip (flat_plan plan) d" and ?i = "st_ID st"
  note plan = fund_plan_stays [OF assms(2) [unfolded funding_plan_def]]
  note pts = booked_points_post [OF assms(1) plan_postable [OF assms(1,2)], of trip ?i]
  have old: "booked_points d ?i = st_EntryPoints st"
    using listed_booked(2) [OF assms(3,1)] by (simp add: booked_points_def)
  show bp: "booked_points ?d ?i = (if Booked st then st_EntryPoints st else st_Points st)"
  proof (cases "Booked st")
    case True
    have "?i \<notin> (st_ID \<circ> fst) ` set plan"
    proof
      assume "?i \<in> (st_ID \<circ> fst) ` set plan"
      then obtain p where "p \<in> set plan" "st_ID (fst p) = ?i" by auto
      then obtain st' where st': "st' \<in> set (map fst plan)" "st_ID st' = ?i" by (metis imageI list.set_map)
      then have "st' \<in> set (ListStays tripID d)" "\<not> Booked st'" unfolding plan by auto
      then show False
        using True st'(2) listed_booked(1) [OF _ assms(1)] assms(3) by metis
    qed
    then show ?thesis using pts old True flat_plan_other_stay [of ?i plan] by simp
  next
    case False
    then have "st \<in> set (map fst plan)" unfolding plan using assms(3) by simp
    then obtain draws where p: "(st, draws) \<in> set plan" by auto
    have "stay_links d ?i = []" using False listed_booked(1) [OF assms(3,1)] by simp
    then have "booked_points d ?i = 0" by (simp add: booked_points_def)
    then show ?thesis
      using pts False flat_plan_stay_sum [OF plan_stays_distinct [OF assms(1,2)] p]
        funding_plan_sum [OF assms(2) p] stay_checked(1) [OF assms(1,3)] by simp
  qed
  show "stay_links ?d ?i \<noteq> []"
  proof (cases "Booked st")
    case True
    then show ?thesis using listed_booked(1) [OF assms(3,1)] by (simp add: stay_links_post)
  next
    case False
    then have "0 < booked_points ?d ?i" using bp stay_checked(1) [OF assms(1,3)] by simp
    then show ?thesis by (auto simp: booked_points_def)
  qed
qed

section \<open>Properties of a booking\<close>

text \<open>C1: The dry run of a trip predicts the booking: on the same database it reports the trip fundable
  exactly when a booking succeeds, the entries the booking appends are the previewed draws, in their
  order, with their lots, points and tags, and when it reports a shortfall the booking fails with
  \<open>ErrInsufficientPoints\<close>.\<close>

theorem preview_matches_booking:
  assumes "db_ok d" and "GetTrip tripID d = Inr trip"
  shows "\<exists>pv. PreviewTripFunding (ListStays tripID d) d = Inr pv \<and>
    (if tp_Fundable pv
     then \<exists>d'. bookTripOnce tripID d = Inr d' \<and> take (length (entries d)) (entries d') = entries d \<and>
       map (\<lambda>e. (e_ContractID e, e_UseYear e, e_Used e, e_Tag e, e_Kind e)) (drop (length (entries d)) (entries d')) =
       map (\<lambda>dr. (Some (dr_ContractID dr), dr_UseYear dr, dr_Points dr, DispositionTag (dr_Disposition dr), KindUsage))
         (concat (map sf_Draws (tp_Stays pv)))
     else bookTripOnce tripID d = Inl ErrInsufficientPoints)"
proof (cases "funding_plan (ListStays tripID d) d")
  case (Inl e)
  then have "e = ErrInsufficientPoints" using fund_plan_error by (auto simp: funding_plan_def)
  moreover obtain ss where "PreviewTripFunding (ListStays tripID d) d = Inr \<lparr>tp_Stays = ss, tp_Fundable = False\<rparr>"
    using PreviewTripFunding_plan [of "ListStays tripID d" d] Inl by auto
  ultimately show ?thesis
    using Inl by (intro exI [of _ "\<lparr>tp_Stays = ss, tp_Fundable = False\<rparr>"]) (simp add: bookTripOnce_plan [OF assms])
next
  case (Inr plan)
  let ?f = "\<lambda>e. (e_ContractID e, e_UseYear e, e_Used e, e_Tag e, e_Kind e)"
  have "map ?f (posted_entries trip n ps) = map (\<lambda>p. let dr = snd p in (Some (dr_ContractID dr), dr_UseYear dr,
      dr_Points dr, DispositionTag (dr_Disposition dr), KindUsage)) ps" for n ps
    by (induction ps arbitrary: n) (simp_all add: draw_entry_def Let_def split: prod.split)
  moreover have "concat (map sf_Draws (map funded plan)) = map snd (flat_plan plan)"
    by (induction plan) (auto simp: funded_def comp_def)
  ultimately show ?thesis
    using PreviewTripFunding_plan [of "ListStays tripID d" d] Inr
    by (simp add: bookTripOnce_plan [OF assms] post_all_closed Let_def comp_def)
qed

text \<open>A trip of one stay of 60 points, and a ledger that pays for it from two use years.\<close>

definition booking_db :: db where
  "booking_db = fresh_db\<lparr>
     contracts := [\<lparr>c_ID = 1, c_Name = ''A'', c_Number = '''', c_HomeResort = '''', c_AnnualPoints = 100,
       c_UseYearMonth = 4, c_TermYears = 0, c_PurchasePrice = 0, c_ClosingCosts = 0\<rparr>],
     contract_seq := 1,
     entries :=
       [\<lparr>e_ID = 1, e_UseYear = 2026, e_Date = 20544, e_Desc = ''A'', e_Kind = KindAllocation,
         e_Allotted = 100, e_Used = 0, e_Tag = '''', e_ContractID = Some 1\<rparr>,
        \<lparr>e_ID = 2, e_UseYear = 2025, e_Date = 20179, e_Desc = ''A'', e_Kind = KindAllocation,
         e_Allotted = 30, e_Used = 0, e_Tag = '''', e_ContractID = Some 1\<rparr>],
     entry_seq := 2,
     trips := [\<lparr>t_ID = 1, t_Name = ''T'', t_StartDate = 20600, t_EndDate = 20610, t_MinNights = 1,
       t_BudgetOverride = None, t_FilterMode = '''', t_ExcludeResorts = [], t_ExcludeRoomTypes = []\<rparr>],
     trip_seq := 1,
     stays := [\<lparr>st_ID = 1, st_TripID = 1, st_Resort = ''R'', st_RoomType = ''S'', st_View = '''', st_CheckIn = 20600,
       st_CheckOut = 20603, st_Nights = 3, st_Points = 60, st_QuoteHash = ''''\<rparr>],
     stay_seq := 1\<rparr>"

lemma booking_db_ok: "db_ok booking_db"
  by (simp add: booking_db_def fresh_db_def db_ok_defs table_ok_def contract_fk_def has_row_def
      contract_width_def entry_width_def in32_def seeded_dues_def stay_check_def stay_width_def trip_check_def)

lemma booking_db_trip: "\<exists>trip. GetTrip 1 booking_db = Inr trip"
  by (simp add: GetTrip_def GetTrip_row_def booking_db_def)

definition booked_db :: db where
  "booked_db = (case bookTripOnce 1 booking_db of Inr d \<Rightarrow> d | Inl _ \<Rightarrow> booking_db)"

lemma booking_succeeds: "bookTripOnce 1 booking_db = Inr booked_db"
proof -
  have "is_ok (bookTripOnce 1 booking_db)" by code_simp
  then show ?thesis by (auto simp: booked_db_def is_ok_iff)
qed

theorem preview_matches_booking_witness:
  "map (\<lambda>e. (e_UseYear e, e_Used e, e_Tag e)) (drop 2 (entries booked_db)) = [(2025, 30, ''Bank''), (2026, 30, '''')] \<and>
   (\<exists>pv. PreviewTripFunding (ListStays 1 booking_db) booking_db = Inr pv \<and> tp_Fundable pv)"
proof -
  have "map (\<lambda>e. (e_UseYear e, e_Used e, e_Tag e)) (drop 2 (entries booked_db)) = [(2025, 30, ''Bank''), (2026, 30, '''')]"
    by code_simp
  moreover obtain trip where "GetTrip 1 booking_db = Inr trip" using booking_db_trip by blast
  note preview_matches_booking [OF booking_db_ok this]
  ultimately show ?thesis using booking_succeeds by (auto split: if_splits)
qed

text \<open>C2: A successful booking books every stay of the trip: each listed stay has linked entries
  afterwards; one that was not booked is funded in full, to the point, and one that was booked keeps
  what it had.  The stays themselves are unchanged.\<close>

theorem booking_funds_every_stay:
  assumes "db_ok d" and "bookTripOnce tripID d = Inr d'" and "st \<in> set (ListStays tripID d)"
  shows "\<exists>st' \<in> set (ListStays tripID d'). stay_row.truncate st' = stay_row.truncate st \<and> Booked st' \<and>
    st_EntryPoints st' = (if Booked st then st_EntryPoints st else st_Points st)"
proof -
  obtain trip where t: "GetTrip tripID d = Inr trip" using assms(2) by (auto simp: bookTripOnce_def and_then_Inr)
  obtain plan where plan: "funding_plan (ListStays tripID d) d = Inr plan"
    and d': "d' = post_all trip (flat_plan plan) d"
    using assms(2) unfolding bookTripOnce_plan [OF assms(1) t] by (auto simp: and_then_Inr)
  have ok: "db_ok d'" by (rule bookTripOnce_ok [OF assms(1,2)])
  have "map stay_row.truncate (ListStays tripID d') = map stay_row.truncate (ListStays tripID d)"
    by (simp add: ListStays_rows d')
  then have "stay_row.truncate st \<in> set (map stay_row.truncate (ListStays tripID d'))"
    using assms(3) by simp
  then obtain st' where st': "st' \<in> set (ListStays tripID d')" "stay_row.truncate st' = stay_row.truncate st" by auto
  then have id: "st_ID st' = st_ID st" by (simp add: stay_row.defs)
  note b = booked_stay_points [OF assms(1) plan assms(3), of trip, folded d']
  have "Booked st'" "st_EntryPoints st' = booked_points d' (st_ID st)"
    using listed_booked [OF st'(1) ok] b(2) id by (simp_all add: booked_points_def)
  then show ?thesis using st' b(1) by auto
qed

theorem booking_funds_every_stay_witness:
  "\<exists>st' \<in> set (ListStays 1 booked_db). Booked st' \<and> st_EntryPoints st' = 60"
proof -
  let ?st = "hd (ListStays 1 booking_db)"
  have "length (ListStays 1 booking_db) = 1 \<and> \<not> Booked ?st \<and> st_Points ?st = 60" by code_simp
  moreover from this have "?st \<in> set (ListStays 1 booking_db)" by (intro hd_in_set) auto
  ultimately show ?thesis
    using booking_funds_every_stay [OF booking_db_ok booking_succeeds, of ?st] by auto
qed

lemma bookTripOnce_posts:
  assumes "db_ok d" and "bookTripOnce tripID d = Inr d'"
  obtains trip plan where "GetTrip tripID d = Inr trip" and "funding_plan (ListStays tripID d) d = Inr plan"
    and "d' = post_all trip (flat_plan plan) d"
proof -
  obtain trip where t: "GetTrip tripID d = Inr trip" using assms(2) by (auto simp: bookTripOnce_def and_then_Inr)
  show thesis
    using assms(2) that [OF t] unfolding bookTripOnce_plan [OF assms(1) t] by (auto simp: and_then_Inr)
qed

lemma ledger_remaining_post:
  assumes "\<forall>p \<in> set ps. 0 < dr_Points (snd p)"
  shows "ledger_remaining (post_all trip ps d) k =
    ledger_remaining d k - (\<Sum>dr\<leftarrow>filter (\<lambda>dr. draw_key dr = k) (map snd ps). dr_Points dr)"
proof -
  have "(\<Sum>e\<leftarrow>filter (\<lambda>e. e_ContractID e = Some (fst k) \<and> e_UseYear e = snd k) (posted_entries trip n ps).
      max 0 (e_Allotted e) - max 0 (e_Used e)) = - (\<Sum>dr\<leftarrow>filter (\<lambda>dr. draw_key dr = k) (map snd ps). dr_Points dr)" for n
    using assms
  proof (induction ps arbitrary: n)
    case (Cons p ps)
    then show ?case by (cases p; cases k) (auto simp: draw_entry_def draw_key_def)
  qed simp
  then show ?thesis by (simp add: ledger_remaining_def post_all_closed)
qed

text \<open>C3: A booking never overdraws a lot: a contract's use year that had points left, counted from the
  ledger's own entries, has no fewer than zero left afterwards, whatever the number of stays; and a
  booking that fails writes nothing, because it returns no database.\<close>

theorem booking_never_overdraws:
  assumes "db_ok d" and "bookTripOnce tripID d = Inr d'" and "0 \<le> ledger_remaining d k"
  shows "0 \<le> ledger_remaining d' k"
proof -
  obtain trip plan where plan: "funding_plan (ListStays tripID d) d = Inr plan"
    and d': "d' = post_all trip (flat_plan plan) d"
    using bookTripOnce_posts [OF assms(1,2)] by metis
  have pos: "\<forall>p \<in> set (flat_plan plan). 0 < dr_Points (snd p)"
    using funding_plan_draw(3) [OF plan] by (auto simp: flat_plan_def)
  have flat: "map snd (flat_plan plan) = concat (map snd plan)"
    by (induction plan) (auto simp: comp_def)
  have "0 \<le> remaining_of (lotSnapshotLots d) (lotSnapshotConsumed d @ concat (map snd plan)) k"
    using fund_plan_no_overdraw [OF plan [unfolded funding_plan_def], of k] assms(3)
    by (simp add: remaining_of_snapshot)
  then show ?thesis
    unfolding d' ledger_remaining_post [OF pos] flat remaining_of_append remaining_of_snapshot .
qed

theorem booking_never_overdraws_witness: "0 \<le> ledger_remaining booked_db (1, 2025)"
proof -
  have "0 \<le> ledger_remaining booking_db (1, 2025)" by code_simp
  then show ?thesis by (rule booking_never_overdraws [OF booking_db_ok booking_succeeds])
qed

lemma fund_plan_all_booked:
  "\<forall>st \<in> set sts. Booked st \<Longrightarrow> fund_plan cs lots legacy consumed sts = Inr []"
  by (induction sts) simp_all

lemma all_booked_after:
  assumes "db_ok d" and "funding_plan (ListStays tripID d) d = Inr plan"
  shows "\<forall>st \<in> set (ListStays tripID (post_all trip (flat_plan plan) d)). Booked st"
proof
  let ?d = "post_all trip (flat_plan plan) d"
  have ok: "db_ok ?d" by (rule post_all_ok [OF assms(1) plan_postable [OF assms]])
  fix st assume st: "st \<in> set (ListStays tripID ?d)"
  have "map stay_row.truncate (ListStays tripID ?d) = map stay_row.truncate (ListStays tripID d)"
    by (simp add: ListStays_rows)
  then obtain st0 where "st0 \<in> set (ListStays tripID d)" "stay_row.truncate st0 = stay_row.truncate st"
    using st by (metis (no_types, lifting) imageE imageI list.set_map)
  then show "Booked st"
    using booked_stay_points(2) [OF assms, of st0 trip] listed_booked(1) [OF st ok] by (simp add: stay_row.defs)
qed

text \<open>Booking again is a no-op: once a booking has succeeded, a second one succeeds and leaves the
  database exactly as it is.\<close>

theorem booking_idempotent:
  assumes "db_ok d" and "bookTripOnce tripID d = Inr d'"
  shows "bookTripOnce tripID d' = Inr d'"
proof -
  obtain trip plan where t: "GetTrip tripID d = Inr trip" and plan: "funding_plan (ListStays tripID d) d = Inr plan"
    and d': "d' = post_all trip (flat_plan plan) d"
    using bookTripOnce_posts [OF assms] by metis
  have "funding_plan (ListStays tripID d') d' = Inr []"
    unfolding funding_plan_def d' by (rule fund_plan_all_booked) (rule all_booked_after [OF assms(1) plan])
  moreover have "GetTrip tripID d' = Inr trip" using t by (simp add: GetTrip_def GetTrip_row_def d')
  ultimately show ?thesis using bookTripOnce_plan [OF bookTripOnce_ok [OF assms], of tripID trip] by simp
qed

theorem booking_idempotent_witness: "bookTripOnce 1 booked_db = Inr booked_db"
  by (rule booking_idempotent [OF booking_db_ok booking_succeeds])

section \<open>Unbooking\<close>

lemma linked_to_trip_iff:
  "linked_to_trip d tripID e \<longleftrightarrow> (\<exists>k \<in> set (links d). k_EntryID k = e \<and> stay_of_trip d tripID (k_StayID k))"
  by (auto simp: linked_to_trip_def stay_of_trip_def list_ex_iff)

lemma stay_of_trip_listed:
  assumes "stay_of_trip d tripID i"
  shows "\<exists>st \<in> set (ListStays tripID d). st_ID st = i"
proof -
  obtain r where "r \<in> set (ListTripStays tripID d)" "st_ID r = i"
    using assms by (auto simp: stay_of_trip_def list_ex_iff in_ListTripStays)
  then obtain st where "st \<in> set (ListStays tripID d)" "stay_row.truncate st = r"
    by (auto simp: ListStays_rows [symmetric])
  then show ?thesis using \<open>st_ID r = i\<close> by (auto simp: stay_row.defs)
qed

lemma unlinked_unbooked:
  assumes "db_ok d" and "\<forall>st \<in> set (ListStays tripID d). \<not> Booked st"
  shows "\<not> linked_to_trip d tripID e"
proof
  assume "linked_to_trip d tripID e"
  then obtain k where k: "k \<in> set (links d)" "stay_of_trip d tripID (k_StayID k)"
    by (auto simp: linked_to_trip_iff)
  then obtain st where st: "st \<in> set (ListStays tripID d)" "st_ID st = k_StayID k"
    using stay_of_trip_listed by blast
  then have "k \<in> set (stay_links d (st_ID st))" using k(1) by (simp add: stay_links_def)
  then have "Booked st" using listed_booked(1) [OF st(1) assms(1)] by auto
  then show False using assms(2) st(1) by blast
qed

text \<open>C4: Unbooking reverses a booking: it deletes exactly what unbooking the trip before the booking
  would have deleted, together with every entry and link the booking made.  When no stay was booked
  before, the ledger is as it was; only the sequences have moved on.\<close>

theorem unbook_reverses_booking:
  assumes "db_ok d" and "bookTripOnce tripID d = Inr d'"
  shows "UnbookTrip tripID d' = (UnbookTrip tripID d)\<lparr>entry_seq := entry_seq d', link_seq := link_seq d'\<rparr> \<and>
    ((\<forall>st \<in> set (ListStays tripID d). \<not> Booked st) \<longrightarrow> UnbookTrip tripID d = d)"
proof
  obtain trip plan where plan: "funding_plan (ListStays tripID d) d = Inr plan"
    and d': "d' = post_all trip (flat_plan plan) d"
    using bookTripOnce_posts [OF assms] by metis
  let ?ps = "flat_plan plan" and ?n = "entry_seq d"
  let ?new = "{?n + 1..?n + int (length ?ps)}"
  have old_e: "e_ID e \<notin> ?new" if "e \<in> set (entries d)" for e
    using assms(1) that by (auto simp: db_ok_defs table_ok_def)
  have old_k: "k_EntryID k \<notin> ?new" if "k \<in> set (links d)" for k
    using assms(1) that old_e by (fastforce simp: db_ok_defs has_row_iff)
  have trip: "stay_of_trip d tripID i" if i: "i \<in> (st_ID \<circ> fst) ` set ?ps" for i
  proof -
    obtain st where st: "st \<in> set (map fst plan)" "st_ID st = i" using i by (auto simp: flat_plan_def) force
    then have "st \<in> set (ListStays tripID d)"
      using fund_plan_stays [OF plan [unfolded funding_plan_def]] by (metis filter_is_subset subsetD)
    then show ?thesis
      using stay_of_trip_row [of "stay_row.truncate st" d tripID] ListStays_row(1,2) [of st tripID d] st(2)
      by (simp add: stay_row.defs)
  qed
  have same: "stay_of_trip d' tripID = stay_of_trip d tripID" by (simp add: d' stay_of_trip_def [abs_def])
  have linked: "linked_to_trip d' tripID e \<longleftrightarrow> linked_to_trip d tripID e \<or> e \<in> ?new" for e
  proof -
    have "(\<exists>k \<in> set (posted_links (link_seq d) ?n ?ps). k_EntryID k = e \<and> stay_of_trip d tripID (k_StayID k)) \<longleftrightarrow> e \<in> ?new"
      using posted_links_entries [of "link_seq d" ?n ?ps] posted_links_stays [of "link_seq d" ?n ?ps] trip
      by (metis (no_types, lifting) imageE imageI)
    then show ?thesis
      unfolding linked_to_trip_iff same by (auto simp: d' post_all_closed)
  qed
  have dropE: "filter (\<lambda>e. \<not> linked_to_trip d' tripID (e_ID e)) (posted_entries trip ?n ?ps) = []"
    using posted_entries_ids [of trip ?n ?ps] by (auto simp: linked filter_empty_conv)
  have dropK: "filter (\<lambda>k. \<not> linked_to_trip d' tripID (k_EntryID k)) (posted_links (link_seq d) ?n ?ps) = []"
    using posted_links_entries [of "link_seq d" ?n ?ps] by (auto simp: linked filter_empty_conv)
  have keepE: "filter (\<lambda>e. \<not> linked_to_trip d' tripID (e_ID e)) (entries d) =
      filter (\<lambda>e. \<not> linked_to_trip d tripID (e_ID e)) (entries d)"
    using old_e by (intro filter_cong) (auto simp: linked)
  have keepK: "filter (\<lambda>k. \<not> linked_to_trip d' tripID (k_EntryID k)) (links d) =
      filter (\<lambda>k. \<not> linked_to_trip d tripID (k_EntryID k)) (links d)"
    using old_k by (intro filter_cong) (auto simp: linked)
  have E: "entries d' = entries d @ posted_entries trip ?n ?ps"
    and K: "links d' = links d @ posted_links (link_seq d) ?n ?ps"
    by (simp_all add: d' post_all_closed)
  show "UnbookTrip tripID d' = (UnbookTrip tripID d)\<lparr>entry_seq := entry_seq d', link_seq := link_seq d'\<rparr>"
    unfolding UnbookTrip_def DeleteEntriesForTrip_def delete_entries_def delete_rows_def E K
      filter_append dropE dropK keepE keepK
    by (simp add: d' post_all_closed)
  show "(\<forall>st \<in> set (ListStays tripID d). \<not> Booked st) \<longrightarrow> UnbookTrip tripID d = d"
    using unlinked_unbooked [OF assms(1)]
    by (auto simp: UnbookTrip_def DeleteEntriesForTrip_def delete_entries_def delete_rows_def)
qed

theorem unbook_reverses_booking_witness:
  "entries (UnbookTrip 1 booked_db) = entries booking_db \<and> links (UnbookTrip 1 booked_db) = []"
proof -
  have "list_all (\<lambda>st. \<not> Booked st) (ListStays 1 booking_db)" by code_simp
  then have "UnbookTrip 1 booking_db = booking_db"
    using unbook_reverses_booking [OF booking_db_ok booking_succeeds] by (simp add: list_all_iff)
  then show ?thesis
    using unbook_reverses_booking [OF booking_db_ok booking_succeeds]
    by (simp add: booking_db_def fresh_db_def)
qed

section \<open>Deleting\<close>

lemma linked_entry_unique:
  assumes "db_ok d" and "k \<in> set (links d)" and "k' \<in> set (links d)" and "k_EntryID k = k_EntryID k'"
  shows "k = k'"
  using assms by (auto simp: db_ok_defs distinct_map dest: inj_onD)

lemma linked_to_trip_link:
  assumes "db_ok d" and "k \<in> set (links d)"
  shows "linked_to_trip d tripID (k_EntryID k) \<longleftrightarrow> stay_of_trip d tripID (k_StayID k)"
  using assms linked_entry_unique [OF assms(1) _ assms(2)] by (auto simp: linked_to_trip_iff)

text \<open>C30: Deleting a trip removes the trip, its stays, their links and exactly the entries those links
  reach; every other entry, link, stay and trip is kept.  Because an entry has at most one link, no entry
  of another trip is touched.\<close>

theorem delete_trip_exact:
  assumes "db_ok d"
  shows "trips (DeleteTrip tripID d) = filter (\<lambda>t. t_ID t \<noteq> tripID) (trips d) \<and>
    stays (DeleteTrip tripID d) = filter (\<lambda>st. st_TripID st \<noteq> tripID) (stays d) \<and>
    links (DeleteTrip tripID d) = filter (\<lambda>k. \<not> stay_of_trip d tripID (k_StayID k)) (links d) \<and>
    entries (DeleteTrip tripID d) =
      filter (\<lambda>e. \<not> (\<exists>k \<in> set (links d). k_EntryID k = e_ID e \<and> stay_of_trip d tripID (k_StayID k))) (entries d) \<and>
    contracts (DeleteTrip tripID d) = contracts d"
proof -
  have cascade: "list_ex (\<lambda>st. st_TripID st = tripID \<and> st_ID st = i) (stays d) \<longleftrightarrow> stay_of_trip d tripID i" for i
    by (auto simp: stay_of_trip_def list_ex_iff)
  have "filter (\<lambda>k. \<not> linked_to_trip d tripID (k_EntryID k) \<and> \<not> stay_of_trip d tripID (k_StayID k)) (links d) =
      filter (\<lambda>k. \<not> stay_of_trip d tripID (k_StayID k)) (links d)"
    using linked_to_trip_link [OF assms] by (intro filter_cong) auto
  then show ?thesis
    by (simp add: DeleteTrip_def DeleteTrip_row_def delete_stays_def DeleteEntriesForTrip_def delete_entries_def
        delete_rows_def cascade linked_to_trip_iff [abs_def] conj_commute)
qed

theorem delete_trip_exact_witness: "entries (DeleteTrip 1 booked_db) = entries booking_db"
proof -
  have "entries (DeleteTrip 1 booked_db) = take 2 (entries booked_db)" by code_simp
  moreover have "entries (DeleteTrip 1 booked_db) = filter (\<lambda>e. \<not> (\<exists>k \<in> set (links booked_db).
      k_EntryID k = e_ID e \<and> stay_of_trip booked_db 1 (k_StayID k))) (entries booked_db)"
    using delete_trip_exact [of booked_db 1] bookTripOnce_ok [OF booking_db_ok booking_succeeds] by simp
  moreover have "take 2 (entries booked_db) = entries booking_db" by code_simp
  ultimately show ?thesis by simp
qed

section \<open>Retries\<close>

text \<open>The database attempt \<open>i\<close> reads when all earlier attempts lost, and whether it loses too.\<close>

fun seen_db :: "(nat \<Rightarrow> db \<Rightarrow> db \<times> bool) \<Rightarrow> db \<Rightarrow> nat \<Rightarrow> db" where
  "seen_db env d 0 = fst (env 0 d)"
| "seen_db env d (Suc i) = fst (env (Suc i) (seen_db env d i))"

fun lost :: "(nat \<Rightarrow> db \<Rightarrow> db \<times> bool) \<Rightarrow> db \<Rightarrow> nat \<Rightarrow> bool" where
  "lost env d 0 = snd (env 0 d)"
| "lost env d (Suc i) = snd (env (Suc i) (seen_db env d i))"

text \<open>C31: \<open>BookTrip\<close> makes at most three attempts and returns the outcome of the first that does not lose a
  serialization conflict, on the database that attempt reads: its database on success, its error and
  that database unchanged otherwise.  It reports a serialization failure only when all three lose.\<close>

theorem book_trip_retries:
  "(\<exists>i < 3. (\<forall>j < i. lost env d j) \<and> \<not> lost env d i \<and>
      BookTrip env tripID d =
        (case bookTripOnce tripID (seen_db env d i) of
           Inl e \<Rightarrow> (Some e, seen_db env d i) | Inr d' \<Rightarrow> (None, d'))) \<or>
   ((\<forall>j < 3. lost env d j) \<and> BookTrip env tripID d = (Some ErrSerialization, seen_db env d 2))"
proof -
  let ?out = "\<lambda>i. case bookTripOnce tripID (seen_db env d i) of
    Inl e \<Rightarrow> (Some e, seen_db env d i) | Inr d' \<Rightarrow> (None, d')"
  have num: "(3 :: nat) = Suc (Suc (Suc 0))" "(2 :: nat) = Suc (Suc 0)" by simp_all
  have b: "BookTrip env tripID d =
      (if \<not> lost env d 0 then ?out 0 else if \<not> lost env d 1 then ?out 1 else if \<not> lost env d 2 then ?out 2
       else (Some ErrSerialization, seen_db env d 2))"
    unfolding One_nat_def num lost.simps seen_db.simps
    by (simp add: BookTrip_def bookTripAttempts_def num case_prod_beta)
  consider "\<not> lost env d 0" | "lost env d 0" "\<not> lost env d 1" | "lost env d 0" "lost env d 1" "\<not> lost env d 2"
    | "lost env d 0" "lost env d 1" "lost env d 2" by blast
  then show ?thesis
  proof cases
    case 1
    then have "BookTrip env tripID d = ?out 0" using b by simp
    with 1 show ?thesis by (intro disjI1 exI [of _ 0]) simp
  next
    case 2
    then have "BookTrip env tripID d = ?out 1" using b by simp
    with 2 show ?thesis by (intro disjI1 exI [of _ 1]) simp
  next
    case 3
    then have "BookTrip env tripID d = ?out 2" using b by simp
    with 3 show ?thesis by (intro disjI1 exI [of _ 2]) (simp add: less_Suc_eq num(2))
  next
    case 4
    then have "BookTrip env tripID d = (Some ErrSerialization, seen_db env d 2)" using b by simp
    with 4 show ?thesis by (intro disjI2) (simp add: less_Suc_eq num)
  qed
qed

theorem book_trip_retries_witness:
  "BookTrip (\<lambda>i d. (d, i < 2)) 1 booking_db = (None, booked_db)"
proof -
  have s: "seen_db (\<lambda>i d. (d, i < 2)) booking_db i = booking_db" for i by (induction i) simp_all
  have l: "lost (\<lambda>i d. (d, i < 2)) booking_db i \<longleftrightarrow> i < 2" for i by (cases i) simp_all
  have n: "\<not> (\<forall>j < (3 :: nat). j < 2)" by (auto intro!: exI [of _ 2])
  show ?thesis
    using book_trip_retries [of "\<lambda>i d. (d, i < 2)" booking_db 1] booking_succeeds
    unfolding s l using n by auto
qed

end
