(* ===== verification/Distribute.thy ===== *)
theory Distribute
  imports Store
begin

text \<open>
  \<open>internal/ledger/distribute.go\<close> and \<open>budget.go\<close>.  The distribution is not a transaction: its
  statements take effect one by one, so the result carries the database reached also when a statement
  fails.  The clock of \<open>DistributeNextYear\<close> is the current year, an argument here.
\<close>

section \<open>Distribution\<close>

definition latestAllocationYear :: "db \<Rightarrow> int \<Rightarrow> int option" where
  "latestAllocationYear d contractID = LatestAllocationYear contractID KindAllocation d"

definition hasAllocationFor :: "db \<Rightarrow> int \<Rightarrow> int \<Rightarrow> bool" where
  "hasAllocationFor d contractID useYear \<longleftrightarrow> 0 < CountAllocationFor contractID KindAllocation (int32 useYear) d"

definition allocation_entry :: "contract \<Rightarrow> int \<Rightarrow> entry_row" where
  "allocation_entry c target =
     \<lparr>e_ID = 0, e_UseYear = target, e_Date = go_Date target (c_UseYearMonth c) 1, e_Desc = c_Name c,
      e_Kind = KindAllocation, e_Allotted = c_AnnualPoints c, e_Used = 0, e_Tag = '''',
      e_ContractID = Some (c_ID c)\<rparr>"

fun distribute_loop :: "int \<Rightarrow> contract list \<Rightarrow> db \<Rightarrow> entry_row list result \<times> db" where
  "distribute_loop maxYear [] d = (Inr [], d)"
| "distribute_loop maxYear (c # cs) d =
     (case latestAllocationYear d (c_ID c) of
        None \<Rightarrow> distribute_loop maxYear cs d
      | Some latest \<Rightarrow>
          let target = latest + 1 in
          if target > maxYear then distribute_loop maxYear cs d
          else if hasAllocationFor d (c_ID c) target then distribute_loop maxYear cs d
          else (case AddEntry (allocation_entry c target) d of
              Inl err \<Rightarrow> (Inl err, d)
            | Inr (newID, d') \<Rightarrow>
                (case distribute_loop maxYear cs d' of
                   (Inl err, d'') \<Rightarrow> (Inl err, d'')
                 | (Inr created, d'') \<Rightarrow> (Inr ((allocation_entry c target)\<lparr>e_ID := newID\<rparr> # created), d''))))"

definition distributeUpTo :: "int \<Rightarrow> db \<Rightarrow> entry_row list result \<times> db" where
  "distributeUpTo maxYear d = distribute_loop maxYear (ListContracts d) d"

definition DistributeNextYear :: "int \<Rightarrow> db \<Rightarrow> entry_row list result \<times> db" where
  "DistributeNextYear currentYear d = distributeUpTo (currentYear + 1) d"

section \<open>Budget\<close>

record trip_budget =
  b_UseYear :: int
  b_Current :: int
  b_Banked :: int
  b_Borrowable :: int
  b_Total :: int

definition zero_summary :: use_year_summary where
  "zero_summary = \<lparr>s_UseYear = 0, s_Allotted = 0, s_Used = 0, s_Net = 0, s_OverBorrowed = False,
     s_Cost = 0, s_CostKnown = False, s_CostProjected = False\<rparr>"

definition by_year :: "use_year_summary list \<Rightarrow> int \<Rightarrow> use_year_summary" where
  "by_year ss = foldl (\<lambda>m s. m(s_UseYear s := s)) (\<lambda>_. zero_summary) ss"

definition BudgetForUseYear :: "use_year_summary list \<Rightarrow> int \<Rightarrow> int \<Rightarrow> trip_budget" where
  "BudgetForUseYear summaries useYear annualPointsTotal =
     (let byYear = by_year summaries;
          current = s_Net (byYear useYear);
          banked = s_Net (byYear (useYear - 1));
          borrowable = annualPointsTotal - s_Used (byYear (useYear + 1));
          borrowable' = (if borrowable < 0 then 0 else borrowable)
      in \<lparr>b_UseYear = useYear, b_Current = current, b_Banked = banked, b_Borrowable = borrowable',
          b_Total = current + banked + borrowable'\<rparr>)"

definition TripBudget :: "db \<Rightarrow> date \<Rightarrow> trip_budget" where
  "TripBudget d start =
     (let cs = ListContracts d;
          month = UseYearStartMonth cs;
          annualPointsTotal = (\<Sum>c\<leftarrow>cs. c_AnnualPoints c)
      in BudgetForUseYear (UseYearSummaries d) (UseYearForDate start month) annualPointsTotal)"

section \<open>Latest years\<close>

lemma LatestAllocationYear_Max:
  "LatestAllocationYear i k d =
     (if allocation_rows d i k = [] then None else Some (Max (e_UseYear ` set (allocation_rows d i k))))"
proof (cases "allocation_rows d i k = []")
  case True
  then show ?thesis by (simp add: LatestAllocationYear_def)
next
  case False
  let ?ys = "map e_UseYear (allocation_rows d i k)"
  have ne: "sort ?ys \<noteq> []" using False by (metis length_0_conv length_map length_sort)
  have "last (sort ?ys) = Max (set ?ys)"
    using sorted_hd_last(2,3) [of ?ys] False by (intro Max_eqI [symmetric]) auto
  moreover have "(case rev zs of [] \<Rightarrow> None | y # _ \<Rightarrow> Some y) = Some (last zs)" if "zs \<noteq> []" for zs :: "int list"
    using that by (cases zs rule: rev_cases) simp_all
  ultimately show ?thesis using False ne by (simp add: LatestAllocationYear_def)
qed

lemma latest_bound:
  assumes "LatestAllocationYear i k d = Some y" and "e \<in> set (entries d)"
    and "e_ContractID e = Some i" and "e_Kind e = k"
  shows "e_UseYear e \<le> y"
proof -
  have "e \<in> set (allocation_rows d i k)" using assms(2-) by (simp add: allocation_rows_def)
  then show ?thesis using assms(1) by (auto simp: LatestAllocationYear_Max split: if_splits)
qed

lemma latest_witness:
  assumes "LatestAllocationYear i k d = Some y"
  shows "\<exists>e \<in> set (entries d). e_ContractID e = Some i \<and> e_Kind e = k \<and> e_UseYear e = y"
proof -
  have "Max (e_UseYear ` set (allocation_rows d i k)) \<in> e_UseYear ` set (allocation_rows d i k)"
    using assms by (intro Max_in) (auto simp: LatestAllocationYear_Max split: if_splits)
  then show ?thesis
    using assms by (auto simp: LatestAllocationYear_Max allocation_rows_def split: if_splits)
qed

lemma LatestAllocationYear_cong:
  "filter (\<lambda>e. e_ContractID e = Some i) (entries d') = filter (\<lambda>e. e_ContractID e = Some i) (entries d) \<Longrightarrow>
     LatestAllocationYear i k d' = LatestAllocationYear i k d"
proof -
  have "allocation_rows x i k = filter (\<lambda>e. e_Kind e = k) (filter (\<lambda>e. e_ContractID e = Some i) (entries x))" for x
    unfolding allocation_rows_def filter_filter by (rule filter_cong) auto
  then show "filter (\<lambda>e. e_ContractID e = Some i) (entries d') = filter (\<lambda>e. e_ContractID e = Some i) (entries d) \<Longrightarrow>
     LatestAllocationYear i k d' = LatestAllocationYear i k d"
    unfolding LatestAllocationYear_Max by (simp del: filter_filter)
qed

text \<open>A year after the latest is never present: the test \<open>hasAllocationFor\<close> cannot succeed.\<close>

lemma hasAllocationFor_next:
  assumes "latestAllocationYear d i = Some y" and "in32 (y + 1)"
  shows "\<not> hasAllocationFor d i (y + 1)"
proof -
  have "e_UseYear e \<noteq> y + 1" if "e \<in> set (allocation_rows d i KindAllocation)" for e
    using latest_bound [of i KindAllocation d y e] assms(1) that
    by (auto simp: latestAllocationYear_def allocation_rows_def)
  then have "filter (\<lambda>e. e_UseYear e = y + 1) (allocation_rows d i KindAllocation) = []"
    by (simp add: filter_empty_conv)
  then show ?thesis
    using assms(2) by (simp add: hasAllocationFor_def CountAllocationFor_def int32_id)
qed

section \<open>The loop in closed form\<close>

definition next_allocation :: "int \<Rightarrow> db \<Rightarrow> contract \<Rightarrow> int option" where
  "next_allocation maxYear d c =
     (case latestAllocationYear d (c_ID c) of None \<Rightarrow> None
      | Some y \<Rightarrow> if y < maxYear then Some (y + 1) else None)"

lemma latest_in32: "db_ok d \<Longrightarrow> latestAllocationYear d i = Some y \<Longrightarrow> in32 y"
  unfolding latestAllocationYear_def
  by (drule latest_witness) (auto simp: db_ok_defs entry_width_def)

lemma add_allocation:
  assumes "db_ok d" and "c \<in> set (contracts d)" and "next_allocation maxYear d c = Some t" and "maxYear < 2 ^ 31"
  shows "AddEntry (allocation_entry c t) d =
    Inr (entry_seq d + 1, d\<lparr>entries := entries d @ [(allocation_entry c t)\<lparr>e_ID := entry_seq d + 1\<rparr>],
      entry_seq := entry_seq d + 1\<rparr>)"
    and "in32 t" and "\<not> hasAllocationFor d (c_ID c) t"
proof -
  obtain y where y: "latestAllocationYear d (c_ID c) = Some y" "y < maxYear" "t = y + 1"
    using assms(3) by (auto simp: next_allocation_def split: option.splits if_splits)
  show t: "in32 t" using latest_in32 [OF assms(1) y(1)] y assms(4) by (simp add: in32_def)
  show "\<not> hasAllocationFor d (c_ID c) t" using hasAllocationFor_next [OF y(1)] t y(3) by simp
  have "contract_width c" using assms(1,2) by (simp add: db_ok_defs)
  then have "entry_width (allocation_entry c t)"
    using t by (simp add: entry_width_def allocation_entry_def contract_width_def in32_def)
  moreover have "contract_fk (contracts d) (e_ContractID (allocation_entry c t))"
    using assms(2) by (simp add: contract_fk_def allocation_entry_def has_row_iff)
  ultimately show "AddEntry (allocation_entry c t) d =
    Inr (entry_seq d + 1, d\<lparr>entries := entries d @ [(allocation_entry c t)\<lparr>e_ID := entry_seq d + 1\<rparr>],
      entry_seq := entry_seq d + 1\<rparr>)"
    by (simp add: AddEntry_def InsertEntry_def narrow_entry_id insert_row_def)
qed

lemma distribute_loop_closed:
  assumes "db_ok d" and "set cs \<subseteq> set (contracts d)" and "distinct (map c_ID cs)" and "maxYear < 2 ^ 31"
  shows "\<exists>es d'. distribute_loop maxYear cs d = (Inr es, d') \<and> db_ok d' \<and>
    d' = d\<lparr>entries := entries d @ es, entry_seq := entry_seq d + int (length es)\<rparr> \<and>
    map (\<lambda>e. e\<lparr>e_ID := 0\<rparr>) es =
      map (\<lambda>c. allocation_entry c (the (next_allocation maxYear d c)))
        (filter (\<lambda>c. next_allocation maxYear d c \<noteq> None) cs)"
  using assms
proof (induction cs arbitrary: d)
  case (Cons c cs)
  show ?case
  proof (cases "next_allocation maxYear d c")
    case None
    then have "distribute_loop maxYear (c # cs) d = distribute_loop maxYear cs d"
      by (auto simp: next_allocation_def Let_def split: option.splits if_splits)
    then show ?thesis using Cons None by simp
  next
    case (Some t)
    have c: "c \<in> set (contracts d)" using Cons.prems(2) by simp
    note add = add_allocation [OF Cons.prems(1) c Some Cons.prems(4)]
    let ?e = "(allocation_entry c t)\<lparr>e_ID := entry_seq d + 1\<rparr>"
    let ?d = "d\<lparr>entries := entries d @ [?e], entry_seq := entry_seq d + 1\<rparr>"
    have ok: "db_ok ?d" using AddEntry_ok [OF Cons.prems(1) add(1)] .
    have other: "next_allocation maxYear ?d c' = next_allocation maxYear d c'" if "c' \<in> set cs" for c'
    proof -
      have "c_ID c' \<noteq> c_ID c" using imageI [OF that, of c_ID] Cons.prems(3) by auto
      then have "LatestAllocationYear (c_ID c') KindAllocation ?d = LatestAllocationYear (c_ID c') KindAllocation d"
        by (intro LatestAllocationYear_cong) (simp add: allocation_entry_def)
      then show ?thesis by (simp add: next_allocation_def latestAllocationYear_def)
    qed
    obtain es d' where IH: "distribute_loop maxYear cs ?d = (Inr es, d')" "db_ok d'"
      "d' = ?d\<lparr>entries := entries ?d @ es, entry_seq := entry_seq ?d + int (length es)\<rparr>"
      "map (\<lambda>e. e\<lparr>e_ID := 0\<rparr>) es = map (\<lambda>c. allocation_entry c (the (next_allocation maxYear ?d c)))
        (filter (\<lambda>c. next_allocation maxYear ?d c \<noteq> None) cs)"
      using Cons.IH [OF ok] Cons.prems by auto
    have es: "map (\<lambda>e. e\<lparr>e_ID := 0\<rparr>) es = map (\<lambda>c. allocation_entry c (the (next_allocation maxYear d c)))
        (filter (\<lambda>c. next_allocation maxYear d c \<noteq> None) cs)"
      unfolding IH(4) using other by (auto intro!: map_cong filter_cong)
    obtain y where y: "latestAllocationYear d (c_ID c) = Some y" "y < maxYear" "t = y + 1"
      using Some by (auto simp: next_allocation_def split: option.splits if_splits)
    have step: "distribute_loop maxYear (c # cs) d = (Inr (?e # es), d')"
      using y add IH(1) by (simp add: Let_def)
    show ?thesis
      by (rule exI [of _ "?e # es"], rule exI [of _ d'])
        (use step IH(2,3) es Some in \<open>simp add: allocation_entry_def\<close>)
  qed
qed simp

lemma distributeUpTo_closed:
  assumes "db_ok d" and "maxYear < 2 ^ 31"
  shows "\<exists>es d'. distributeUpTo maxYear d = (Inr es, d') \<and> db_ok d' \<and>
    d' = d\<lparr>entries := entries d @ es, entry_seq := entry_seq d + int (length es)\<rparr> \<and>
    map (\<lambda>e. e\<lparr>e_ID := 0\<rparr>) es =
      map (\<lambda>c. allocation_entry c (the (next_allocation maxYear d c)))
        (filter (\<lambda>c. next_allocation maxYear d c \<noteq> None) (contracts d))"
proof -
  have "distinct (map c_ID (contracts d))"
    using assms(1) contract_table.ok_distinct by (auto simp: db_ok_defs)
  then show ?thesis
    using distribute_loop_closed [OF assms(1), of "contracts d" maxYear] assms
    by (simp add: distributeUpTo_def ListContracts_ok)
qed

text \<open>What a run leaves as the latest year of each contract.\<close>

lemma latest_after:
  assumes "distinct (map c_ID cs)" and "c \<in> set cs"
    and "map (\<lambda>e. e\<lparr>e_ID := 0\<rparr>) es = map (\<lambda>c. allocation_entry c (the (next_allocation maxYear d c)))
      (filter (\<lambda>c. next_allocation maxYear d c \<noteq> None) cs)"
  shows "latestAllocationYear (d\<lparr>entries := entries d @ es, entry_seq := n\<rparr>) (c_ID c) =
    (case next_allocation maxYear d c of None \<Rightarrow> latestAllocationYear d (c_ID c) | Some t \<Rightarrow> Some t)"
proof -
  let ?d = "d\<lparr>entries := entries d @ es, entry_seq := n\<rparr>"
  let ?P = "\<lambda>e. e_ContractID e = Some (c_ID c) \<and> e_Kind e = KindAllocation"
  have inj: "c' = c" if "c' \<in> set cs" "c_ID c' = c_ID c" for c'
    using assms(1,2) that by (auto simp: distinct_map dest: inj_onD)
  have "{e \<in> (\<lambda>e. e\<lparr>e_ID := 0\<rparr>) ` set es. ?P e} = (\<lambda>e. e\<lparr>e_ID := 0\<rparr>) ` {e \<in> set es. ?P e}"
    by auto
  then have "e_UseYear ` {e \<in> set es. ?P e} = e_UseYear ` {e \<in> (\<lambda>e. e\<lparr>e_ID := 0\<rparr>) ` set es. ?P e}"
    by (simp add: image_image)
  also have "(\<lambda>e. e\<lparr>e_ID := 0\<rparr>) ` set es = (\<lambda>c. allocation_entry c (the (next_allocation maxYear d c))) `
      {c \<in> set cs. next_allocation maxYear d c \<noteq> None}"
    by (metis assms(3) list.set_map set_filter)
  also have "e_UseYear ` {e \<in> \<dots>. ?P e} = {t. next_allocation maxYear d c = Some t}"
    using assms(2) inj by (force simp: allocation_entry_def)
  finally have new: "e_UseYear ` {e \<in> set es. ?P e} = {t. next_allocation maxYear d c = Some t}" .
  have rows: "e_UseYear ` set (allocation_rows ?d (c_ID c) KindAllocation) =
      e_UseYear ` set (allocation_rows d (c_ID c) KindAllocation) \<union> {t. next_allocation maxYear d c = Some t}"
    unfolding new [symmetric] by (auto simp: allocation_rows_def)
  have empty: "allocation_rows x i k = [] \<longleftrightarrow> e_UseYear ` set (allocation_rows x i k) = {}" for x :: db and i k
    by simp
  show ?thesis
  proof (cases "next_allocation maxYear d c")
    case None
    then have "e_UseYear ` set (allocation_rows ?d (c_ID c) KindAllocation) =
        e_UseYear ` set (allocation_rows d (c_ID c) KindAllocation)" using rows by simp
    then show ?thesis
      using None by (simp add: latestAllocationYear_def LatestAllocationYear_Max) (metis empty)
  next
    case (Some t)
    then obtain y where y: "latestAllocationYear d (c_ID c) = Some y" "t = y + 1"
      by (auto simp: next_allocation_def split: option.splits if_splits)
    have le: "x \<le> y" if "x \<in> e_UseYear ` set (allocation_rows d (c_ID c) KindAllocation)" for x
      using latest_bound [of "c_ID c" KindAllocation d y] y(1) that
      by (auto simp: latestAllocationYear_def allocation_rows_def)
    have "Max (e_UseYear ` set (allocation_rows ?d (c_ID c) KindAllocation)) = t"
      unfolding rows using Some le y(2) by (intro Max_eqI) (auto dest!: le)
    moreover have "allocation_rows ?d (c_ID c) KindAllocation \<noteq> []"
      unfolding empty rows using Some by simp
    ultimately show ?thesis
      using Some by (simp add: latestAllocationYear_def LatestAllocationYear_Max)
  qed
qed

text \<open>C32: A distribution up to \<open>maxYear\<close> always succeeds on a consistent database.  It appends, and
  changes nothing else: one allocation of its annual points for every contract whose latest
  allocation year is below \<open>maxYear\<close>, for the following year and dated on the first day of it, in the
  order of the contracts; a contract that never posted an allocation gets none.\<close>

theorem distribute_exact:
  assumes "db_ok d" and "maxYear < 2 ^ 31" and "distributeUpTo maxYear d = (r, d')"
  shows "\<exists>es. r = Inr es \<and> db_ok d' \<and>
    d' = d\<lparr>entries := entries d @ es, entry_seq := entry_seq d + int (length es)\<rparr> \<and>
    map (\<lambda>e. e\<lparr>e_ID := 0\<rparr>) es =
      map (\<lambda>c. allocation_entry c (the (latestAllocationYear d (c_ID c)) + 1))
        (filter (\<lambda>c. \<exists>y. latestAllocationYear d (c_ID c) = Some y \<and> y < maxYear) (contracts d))"
proof -
  obtain es where es: "r = Inr es" "db_ok d'"
    "d' = d\<lparr>entries := entries d @ es, entry_seq := entry_seq d + int (length es)\<rparr>"
    "map (\<lambda>e. e\<lparr>e_ID := 0\<rparr>) es =
      map (\<lambda>c. allocation_entry c (the (next_allocation maxYear d c)))
        (filter (\<lambda>c. next_allocation maxYear d c \<noteq> None) (contracts d))"
    using distributeUpTo_closed [OF assms(1,2)] assms(3) by auto
  have "next_allocation maxYear d c \<noteq> None \<longleftrightarrow> (\<exists>y. latestAllocationYear d (c_ID c) = Some y \<and> y < maxYear)"
    and "next_allocation maxYear d c \<noteq> None \<Longrightarrow>
      the (next_allocation maxYear d c) = the (latestAllocationYear d (c_ID c)) + 1" for c
    by (auto simp: next_allocation_def split: option.splits if_splits)
  then have "map (\<lambda>e. e\<lparr>e_ID := 0\<rparr>) es =
      map (\<lambda>c. allocation_entry c (the (latestAllocationYear d (c_ID c)) + 1))
        (filter (\<lambda>c. \<exists>y. latestAllocationYear d (c_ID c) = Some y \<and> y < maxYear) (contracts d))"
    unfolding es(4) by (intro map_cong filter_cong) auto
  with es(1-3) show ?thesis by blast
qed

theorem distribute_exact_witness:
  "length (entries (snd (distributeUpTo 2027 sample_db))) = 3"
proof -
  have l: "latestAllocationYear sample_db 1 = Some 2026" by code_simp
  obtain es where "snd (distributeUpTo 2027 sample_db) = sample_db\<lparr>entries := entries sample_db @ es,
      entry_seq := entry_seq sample_db + int (length es)\<rparr>"
    "map (\<lambda>e. e\<lparr>e_ID := 0\<rparr>) es = map (\<lambda>c. allocation_entry c (the (latestAllocationYear sample_db (c_ID c)) + 1))
        (filter (\<lambda>c. \<exists>y. latestAllocationYear sample_db (c_ID c) = Some y \<and> y < 2027) (contracts sample_db))"
    using distribute_exact [OF sample_db_ok, of 2027 "fst (distributeUpTo 2027 sample_db)"
        "snd (distributeUpTo 2027 sample_db)"] by auto
  moreover from this(2) have "length es = 1" using l by (simp add: sample_db_def) (metis length_map length_Cons list.size(3))
  ultimately show ?thesis by (simp add: sample_db_def)
qed

text \<open>Running the distribution a second time with the same \<open>maxYear\<close> changes nothing, provided no
  contract was more than one year behind before the first run.\<close>

theorem distribute_idempotent:
  assumes "db_ok d" and "maxYear < 2 ^ 31" and "distributeUpTo maxYear d = (r, d')"
    and "\<And>c y. c \<in> set (contracts d) \<Longrightarrow> latestAllocationYear d (c_ID c) = Some y \<Longrightarrow> maxYear - 1 \<le> y"
  shows "distributeUpTo maxYear d' = (Inr [], d')"
proof -
  obtain es where es: "db_ok d'"
    "d' = d\<lparr>entries := entries d @ es, entry_seq := entry_seq d + int (length es)\<rparr>"
    "map (\<lambda>e. e\<lparr>e_ID := 0\<rparr>) es =
      map (\<lambda>c. allocation_entry c (the (next_allocation maxYear d c)))
        (filter (\<lambda>c. next_allocation maxYear d c \<noteq> None) (contracts d))"
    using distributeUpTo_closed [OF assms(1,2)] assms(3) by auto
  have dist: "distinct (map c_ID (contracts d))"
    using assms(1) contract_table.ok_distinct by (auto simp: db_ok_defs)
  have cs: "contracts d' = contracts d" by (simp add: es(2))
  have "next_allocation maxYear d' c = None" if "c \<in> set (contracts d)" for c
    using latest_after [OF dist that es(3), of "entry_seq d + int (length es)"] assms(4) [OF that]
    by (auto simp: es(2) next_allocation_def split: option.splits if_splits)
  then have none: "filter (\<lambda>c. next_allocation maxYear d' c \<noteq> None) (contracts d') = []"
    by (simp add: cs filter_empty_conv)
  obtain es' where "distributeUpTo maxYear d' = (Inr es', d'\<lparr>entries := entries d' @ es', entry_seq := entry_seq d' + int (length es')\<rparr>)"
    "map (\<lambda>e. e\<lparr>e_ID := 0\<rparr>) es' = []"
    using distributeUpTo_closed [OF es(1) assms(2)] unfolding none by auto
  then show ?thesis by simp
qed

theorem distribute_idempotent_witness:
  "distributeUpTo 2027 (snd (distributeUpTo 2027 sample_db)) = (Inr [], snd (distributeUpTo 2027 sample_db))"
proof -
  have l: "latestAllocationYear sample_db 1 = Some 2026" by code_simp
  have "2027 - 1 \<le> y" if "c \<in> set (contracts sample_db)" "latestAllocationYear sample_db (c_ID c) = Some y" for c y
    using that l by (simp add: sample_db_def)
  then show ?thesis
    using distribute_idempotent [OF sample_db_ok, of 2027 "fst (distributeUpTo 2027 sample_db)"
        "snd (distributeUpTo 2027 sample_db)"] by simp
qed

text \<open>A ledger one contract of which was last allotted points six years ago: the second run in the
  same year posts another allocation, so the run is a no-op only under the proviso above.\<close>

definition lagging_db :: db where
  "lagging_db = fresh_db\<lparr>
     contracts := [\<lparr>c_ID = 1, c_Name = ''A'', c_Number = '''', c_HomeResort = '''', c_AnnualPoints = 100,
       c_UseYearMonth = 4, c_TermYears = 0, c_PurchasePrice = 0, c_ClosingCosts = 0\<rparr>],
     contract_seq := 1,
     entries := [\<lparr>e_ID = 1, e_UseYear = 2020, e_Date = 18353, e_Desc = ''A'', e_Kind = KindAllocation,
       e_Allotted = 100, e_Used = 0, e_Tag = '''', e_ContractID = Some 1\<rparr>],
     entry_seq := 1\<rparr>"

lemma lagging_db_ok: "db_ok lagging_db"
  by (simp add: lagging_db_def fresh_db_def db_ok_defs table_ok_def contract_fk_def has_row_def
      contract_width_def entry_width_def in32_def seeded_dues_def)

lemma lagging_runs:
  "length (entries (snd (distributeUpTo 2026 lagging_db))) = 2"
  "length (entries (snd (distributeUpTo 2026 (snd (distributeUpTo 2026 lagging_db))))) = 3"
  by code_simp+

text \<open>The distribution is not a no-op on a second run in the same year when a contract is more
  than one year behind: it posts one more year each time.\<close>

theorem distribute_catches_up:
  "\<exists>d. db_ok d \<and> distributeUpTo 2026 (snd (distributeUpTo 2026 d)) \<noteq> (Inr [], snd (distributeUpTo 2026 d))"
proof (intro exI conjI)
  show "db_ok lagging_db" by (rule lagging_db_ok)
  show "distributeUpTo 2026 (snd (distributeUpTo 2026 lagging_db)) \<noteq> (Inr [], snd (distributeUpTo 2026 lagging_db))"
    using lagging_runs by (metis numeral_eq_iff semiring_norm(88,90) snd_conv)
qed

section \<open>The budget and the ledger\<close>

definition year_allotted :: "db \<Rightarrow> int \<Rightarrow> int" where
  "year_allotted d y = (\<Sum>e\<leftarrow>filter (\<lambda>e. e_UseYear e = y) (entries d). e_Allotted e)"

definition year_used :: "db \<Rightarrow> int \<Rightarrow> int" where
  "year_used d y = (\<Sum>e\<leftarrow>filter (\<lambda>e. e_UseYear e = y) (entries d). e_Used e)"

lemma by_year_foldl:
  "distinct (map s_UseYear ss) \<Longrightarrow> foldl (\<lambda>m s. m(s_UseYear s := s)) m ss y =
     (case find (\<lambda>s. s_UseYear s = y) ss of Some s \<Rightarrow> s | None \<Rightarrow> m y)"
proof (induction ss arbitrary: m)
  case (Cons s ss)
  have "find (\<lambda>s'. s_UseYear s' = s_UseYear s) ss = None"
    using Cons.prems by (auto simp: find_None_iff) (metis imageI)
  then show ?case using Cons by auto
qed simp

lemma UseYearSummaries_years: "map s_UseYear (UseYearSummaries d) = group_keys e_UseYear (entries d)"
  by (simp add: UseYearSummaries_def UseYearSummaries_rows_def comp_def)

lemma by_year_summaries:
  "s_Net (by_year (UseYearSummaries d) y) = year_allotted d y - year_used d y"
  "s_Used (by_year (UseYearSummaries d) y) = year_used d y"
proof -
  have lk: "by_year (UseYearSummaries d) y =
      (case find (\<lambda>s. s_UseYear s = y) (UseYearSummaries d) of Some s \<Rightarrow> s | None \<Rightarrow> zero_summary)"
    unfolding by_year_def by (rule by_year_foldl) (simp add: UseYearSummaries_years)
  have "s_Net (by_year (UseYearSummaries d) y) = year_allotted d y - year_used d y \<and>
    s_Used (by_year (UseYearSummaries d) y) = year_used d y"
  proof (cases "find (\<lambda>s. s_UseYear s = y) (UseYearSummaries d)")
    case None
    have "y \<notin> set (map s_UseYear (UseYearSummaries d))"
      using None by (auto simp: find_None_iff)
    then have "filter (\<lambda>e. e_UseYear e = y) (entries d) = []"
      unfolding UseYearSummaries_years by (auto simp: filter_empty_conv)
    then show ?thesis by (simp add: lk None zero_summary_def year_allotted_def year_used_def)
  next
    case (Some s)
    then have "s \<in> set (UseYearSummaries d)" "s_UseYear s = y" by (auto simp: find_Some_iff)
    then have "s_Net s = year_allotted d y - year_used d y \<and> s_Used s = year_used d y"
      by (auto simp: UseYearSummaries_def UseYearSummaries_rows_def year_allotted_def year_used_def)
    then show ?thesis unfolding lk Some by simp
  qed
  then show "s_Net (by_year (UseYearSummaries d) y) = year_allotted d y - year_used d y"
    "s_Used (by_year (UseYearSummaries d) y) = year_used d y" by simp_all
qed

text \<open>The budget of a trip is the net of the start date's use year, plus the signed net of the
  year before, plus the contracts' annual points less what the next year has already used, never
  below zero; the use year is that of the first contract's start month.\<close>

theorem budget_from_ledger:
  "b_Total (TripBudget d start) =
     (let uy = UseYearForDate start (UseYearStartMonth (ListContracts d)) in
      (year_allotted d uy - year_used d uy) + (year_allotted d (uy - 1) - year_used d (uy - 1)) +
      max 0 ((\<Sum>c\<leftarrow>ListContracts d. c_AnnualPoints c) - year_used d (uy + 1)))"
  by (simp add: TripBudget_def BudgetForUseYear_def Let_def by_year_summaries max_def)

end
