(* ===== verification/LedgerView.thy ===== *)
theory LedgerView
  imports Booking Distribute DateText
begin

text \<open>
  \<open>internal/web/ledger_view.go\<close>: the data of the ledger pages.  \<open>buildLedgerView\<close> reads the database
  once and projects it; the current date, which the code takes from \<open>time.Now\<close>, is the argument
  \<open>today\<close>.  The lemmas show that the totals of the entry table and of the use-year table agree, and
  what the two widgets select.
\<close>

section \<open>Rows\<close>

record recent_entry_row =
  re_DateLabel :: string
  re_Desc :: string
  re_Delta :: int
  re_DeltaLabel :: string
  re_CostLabel :: string
  re_CostProjected :: bool
  re_FundingLine :: string

record year_spend =
  ys_UseYear :: int
  ys_Spent :: int
  ys_CostLabel :: string
  ys_CostProjected :: bool

record contract_row =
  cr_ID :: int
  cr_Name :: string
  cr_Number :: string
  cr_HomeResort :: string
  cr_AnnualPoints :: int
  cr_UseYearMonth :: month
  cr_TermYears :: int
  cr_PriceLabel :: string
  cr_ClosingLabel :: string
  cr_RateLabel :: string
  cr_PriceInput :: string
  cr_ClosingInput :: string

record dues_row =
  du_UseYear :: int
  du_RateLabel :: string
  du_Projected :: bool

record ledger_view =
  lv_Entries :: "entry list"
  lv_Total :: int
  lv_Summaries :: "use_year_summary list"
  lv_Contracts :: "contract list"
  lv_Kinds :: "string list"
  lv_EditID :: int
  lv_Err :: string
  lv_EditContractID :: int
  lv_Recent :: "recent_entry_row list"
  lv_SpentByYear :: "year_spend list"
  lv_ShowCosts :: bool
  lv_TotalCostLabel :: string
  lv_CostFootnote :: bool
  lv_BalanceValueLabel :: string
  lv_BlendedRateLabel :: string
  lv_ContractRows :: "contract_row list"
  lv_Dues :: "dues_row list"

definition recentActivityLimit :: nat where "recentActivityLimit = 20"
definition duesPreviewYears :: int where "duesPreviewYears = 3"
definition spentByYearLimit :: nat where "spentByYearLimit = 5"

section \<open>Projections\<close>

definition contractRow :: "contract \<Rightarrow> contract_row" where
  "contractRow c =
     \<lparr>cr_ID = c_ID c, cr_Name = c_Name c, cr_Number = c_Number c, cr_HomeResort = c_HomeResort c,
      cr_AnnualPoints = c_AnnualPoints c, cr_UseYearMonth = c_UseYearMonth c, cr_TermYears = c_TermYears c,
      cr_PriceLabel = FormatUSD (c_PurchasePrice c), cr_ClosingLabel = FormatUSD (c_ClosingCosts c),
      cr_RateLabel = (case PricePerPointYear c of Some rate \<Rightarrow> FormatRate rate | None \<Rightarrow> em_dash),
      cr_PriceInput = Cents_String (c_PurchasePrice c), cr_ClosingInput = Cents_String (c_ClosingCosts c)\<rparr>"

definition contractRows :: "contract list \<Rightarrow> contract_row list" where
  "contractRows cs = map contractRow cs"

definition duesRows :: "cost_basis \<Rightarrow> dues_rate list \<Rightarrow> dues_row list" where
  "duesRows basis ds =
     (let rows = map (\<lambda>d. \<lparr>du_UseYear = d_UseYear d, du_RateLabel = FormatRate (d_Rate d), du_Projected = False\<rparr>) ds
      in if ds = [] then rows
         else let lastYear = d_UseYear (last ds) in
           rows @ map (\<lambda>i. let year = lastYear + i; (rate, _) = DuesFor basis year
             in \<lparr>du_UseYear = year, du_RateLabel = FormatRate rate, du_Projected = True\<rparr>) [1..duesPreviewYears])"

definition costLabel :: "cents \<Rightarrow> bool \<Rightarrow> string" where
  "costLabel cost known = (if \<not> known then [] else FormatUSD cost)"

definition entryKinds :: "string list" where
  "entryKinds = [KindUsage, KindAllocation, KindBonus, KindSingleUse, KindAdjustment]"

definition balanceValueLabel :: "cost_basis \<Rightarrow> int \<Rightarrow> date \<Rightarrow> string" where
  "balanceValueLabel basis balance today =
     (if \<not> Known basis then []
      else let year = UseYearForDate today (UseYearMonth basis); (d, _) = DuesFor basis year
           in FormatUSD (PointCost balance (RateFor basis None) d))"

definition sumEntryCosts :: "entry list \<Rightarrow> cents \<times> bool" where
  "sumEntryCosts es =
     foldl (\<lambda>(tot, anyProjected) e.
       if \<not> e_CostKnown e then (tot, anyProjected)
       else (int64 (tot + e_Cost e), anyProjected \<or> e_CostProjected e)) (0, False) es"

definition contractNameOf :: "contract list \<Rightarrow> int \<Rightarrow> string" where
  "contractNameOf cs i = (case find (\<lambda>c. c_ID c = i) cs of Some c \<Rightarrow> c_Name c | None \<Rightarrow> [])"

definition middle_dot :: string where
  "middle_dot = '' '' @ [CHR 0xC2, CHR 0xB7] @ '' ''"

definition fundingLine :: "entry \<Rightarrow> contract list \<Rightarrow> string" where
  "fundingLine e cs =
     (case e_ContractID e of
        None \<Rightarrow> []
      | Some i \<Rightarrow>
          if e_Used e = 0 then []
          else let disposition = (if e_Tag e = [] then ''Current'' else e_Tag e)
               in contractNameOf cs i @ middle_dot @ ''UY'' @ fmt_d (e_UseYear e) @ middle_dot @ disposition)"

definition formatSignedDelta :: "int \<Rightarrow> string" where
  "formatSignedDelta delta = (if delta < 0 then ''-'' @ fmt_d (- delta) else ''+'' @ fmt_d delta)"

definition recentRow :: "contract list \<Rightarrow> entry \<Rightarrow> recent_entry_row" where
  "recentRow cs e =
     (let delta = e_Allotted e - e_Used e
      in \<lparr>re_DateLabel = format_date (e_Date e), re_Desc = e_Desc e, re_Delta = delta,
          re_DeltaLabel = formatSignedDelta delta, re_CostLabel = costLabel (e_Cost e) (e_CostKnown e),
          re_CostProjected = e_CostProjected e, re_FundingLine = fundingLine e cs\<rparr>)"

definition recentEntries :: "entry list \<Rightarrow> contract list \<Rightarrow> recent_entry_row list" where
  "recentEntries es cs =
     (let n = (if length es > recentActivityLimit then recentActivityLimit else length es)
      in map (\<lambda>i. recentRow cs (es ! (length es - 1 - i))) [0..<n])"

definition spentRow :: "use_year_summary \<Rightarrow> year_spend" where
  "spentRow s = \<lparr>ys_UseYear = s_UseYear s, ys_Spent = s_Used s,
     ys_CostLabel = costLabel (s_Cost s) (s_CostKnown s), ys_CostProjected = s_CostProjected s\<rparr>"

definition spentByYear :: "use_year_summary list \<Rightarrow> int \<Rightarrow> year_spend list" where
  "spentByYear summaries currentUseYear =
     (let kept = filter (\<lambda>s. \<not> (s_UseYear s > currentUseYear \<and> s_Used s = 0)) summaries;
          n = length kept;
          start = (if n > spentByYearLimit then n - spentByYearLimit else 0)
      in map (\<lambda>i. spentRow (kept ! i)) (rev [start..<n]))"

definition buildLedgerView :: "db \<Rightarrow> date \<Rightarrow> int \<Rightarrow> int \<Rightarrow> string \<Rightarrow> ledger_view" where
  "buildLedgerView d today editID editContractID errMsg =
     (let es = ListEntries d;
          summaries = UseYearSummaries d;
          cs = ListContracts d;
          ds = ListDuesRates d;
          tot = (if 0 < length es then RunningBalance (es ! (length es - 1)) else 0);
          basis = CostBasis d;
          priced = PriceEntries basis es;
          pricedSummaries = PriceSummaries summaries priced;
          (totalCost, costFootnote) = sumEntryCosts priced
      in \<lparr>lv_Entries = priced, lv_Total = tot, lv_Summaries = pricedSummaries, lv_Contracts = cs,
          lv_Kinds = entryKinds, lv_EditID = editID, lv_Err = errMsg, lv_EditContractID = editContractID,
          lv_Recent = recentEntries priced cs,
          lv_SpentByYear = spentByYear pricedSummaries (UseYearForDate today (UseYearMonth basis)),
          lv_ShowCosts = Known basis, lv_TotalCostLabel = FormatUSD totalCost, lv_CostFootnote = costFootnote,
          lv_BalanceValueLabel = balanceValueLabel basis tot today,
          lv_BlendedRateLabel = FormatRate (Blended basis),
          lv_ContractRows = contractRows cs, lv_Dues = duesRows basis ds\<rparr>)"


section \<open>Totals\<close>

lemma foldl_sumEntryCosts:
  "in64 t \<Longrightarrow> foldl (\<lambda>(tot, anyProjected) e.
       if \<not> e_CostKnown e then (tot, anyProjected)
       else (int64 (tot + e_Cost e), anyProjected \<or> e_CostProjected e)) (t, p) es =
     (int64 (t + sum_list (map e_Cost (filter e_CostKnown es))),
      p \<or> list_ex e_CostProjected (filter e_CostKnown es))"
  by (induction es arbitrary: t p) (auto simp: int64_id add.assoc)

lemma sumEntryCosts_eq:
  "sumEntryCosts es = (int64 (sum_list (map e_Cost (filter e_CostKnown es))),
     list_ex e_CostProjected (filter e_CostKnown es))"
  unfolding sumEntryCosts_def by (subst foldl_sumEntryCosts) (simp_all add: in64_def)

lemma UseYearSummaries_fresh:
  "s \<in> set (UseYearSummaries d) \<Longrightarrow> s_Cost s = 0 \<and> \<not> s_CostKnown s \<and> \<not> s_CostProjected s"
  by (auto simp: UseYearSummaries_def)

lemma int64_sum_list: "int64 (\<Sum>x\<leftarrow>xs. int64 (f x)) = int64 (\<Sum>x\<leftarrow>xs. f x)"
proof (induction xs)
  case (Cons x xs)
  have "int64 (int64 (f x) + (\<Sum>x\<leftarrow>xs. int64 (f x))) = int64 (f x + int64 (\<Sum>x\<leftarrow>xs. int64 (f x)))"
    by simp
  also have "\<dots> = int64 (f x + (\<Sum>x\<leftarrow>xs. f x))" unfolding Cons by simp
  finally show ?case by simp
qed simp

lemma foldl_add_cost_other [simp]:
  "s_Net (foldl (\<lambda>s e. add_cost e s) s es) = s_Net s"
  "s_Used (foldl (\<lambda>s e. add_cost e s) s es) = s_Used s"
  "s_UseYear (foldl (\<lambda>s e. add_cost e s) s es) = s_UseYear s"
  by (induction es arbitrary: s) (simp_all add: add_cost_def)

lemma UseYearSummaries_distinct: "distinct (map s_UseYear (UseYearSummaries d))"
  by (simp add: UseYearSummaries_years)

lemmas priced_summaries = PriceSummaries_map [OF UseYearSummaries_distinct]

text \<open>Pricing keeps the row fields of the entries.\<close>

lemma PriceEntry_row [simp]:
  "entry_row.truncate (PriceEntry b e) = entry_row.truncate e" "RunningBalance (PriceEntry b e) = RunningBalance e"
  by (simp_all add: PriceEntry_def entry_row.defs split: prod.split)

lemma priced_rows: "map entry_row.truncate (PriceEntries b (ListEntries d)) = ListEntries_rows d"
  by (simp add: PriceEntries_def comp_def ListEntries_def running_truncate)

lemma priced_years: "e \<in> set (PriceEntries b (ListEntries d)) \<Longrightarrow> e_UseYear e \<in> e_UseYear ` set (entries d)"
proof -
  assume "e \<in> set (PriceEntries b (ListEntries d))"
  then have "entry_row.truncate e \<in> set (map entry_row.truncate (PriceEntries b (ListEntries d)))" by simp
  then have "entry_row.truncate e \<in> set (entries d)"
    unfolding priced_rows using mset_ListEntries_rows [of d] by (metis set_mset_mset)
  moreover have "e_UseYear (entry_row.truncate e) = e_UseYear e" by (simp add: entry_row.defs)
  ultimately show ?thesis by (metis imageI)
qed

lemma summaries_cost_total:
  assumes es: "es = PriceEntries b (ListEntries d)"
  shows "int64 (\<Sum>s\<leftarrow>PriceSummaries (UseYearSummaries d) es. s_Cost s) =
      int64 (sum_list (map e_Cost (filter e_CostKnown es)))"
    and "list_ex s_CostProjected (PriceSummaries (UseYearSummaries d) es) =
      list_ex e_CostProjected (filter e_CostKnown es)"
proof -
  let ?known = "filter e_CostKnown es"
  let ?ys = "map s_UseYear (UseYearSummaries d)"
  have mine: "filter (belongs s) es = filter (\<lambda>e. e_UseYear e = s_UseYear s) ?known" for s
    by (auto simp: belongs_def intro!: filter_cong)
  have row: "s_Cost (foldl (\<lambda>s e. add_cost e s) s (filter (belongs s) es)) =
        int64 (sum_list (map e_Cost (filter (\<lambda>e. e_UseYear e = s_UseYear s) ?known)))"
      "s_CostProjected (foldl (\<lambda>s e. add_cost e s) s (filter (belongs s) es)) =
        list_ex e_CostProjected (filter (\<lambda>e. e_UseYear e = s_UseYear s) ?known)"
    if "s \<in> set (UseYearSummaries d)" for s
    using foldl_add_cost [of s "filter (belongs s) es"] UseYearSummaries_fresh [OF that]
    by (simp_all add: mine in64_def)
  have years: "e_UseYear e \<in> set ?ys" if "e \<in> set ?known" for e
    using that priced_years [of e b d] by (auto simp: UseYearSummaries_years es)
  have "(\<Sum>s\<leftarrow>PriceSummaries (UseYearSummaries d) es. s_Cost s) =
      (\<Sum>s\<leftarrow>UseYearSummaries d. int64 (sum_list (map e_Cost (filter (\<lambda>e. e_UseYear e = s_UseYear s) ?known))))"
    unfolding priced_summaries map_map comp_def using row(1)
    by (intro arg_cong [where f = sum_list] map_cong) auto
  also have "\<dots> = (\<Sum>y\<leftarrow>?ys. int64 (sum_list (map e_Cost (filter (\<lambda>e. e_UseYear e = y) ?known))))"
    by (simp add: comp_def)
  finally have "int64 (\<Sum>s\<leftarrow>PriceSummaries (UseYearSummaries d) es. s_Cost s) =
      int64 (\<Sum>y\<leftarrow>?ys. sum_list (map e_Cost (filter (\<lambda>e. e_UseYear e = y) ?known)))"
    by (simp only: int64_sum_list)
  also have "(\<Sum>y\<leftarrow>?ys. sum_list (map e_Cost (filter (\<lambda>e. e_UseYear e = y) ?known))) = sum_list (map e_Cost ?known)"
    by (rule sum_list_partition [OF UseYearSummaries_distinct years])
  finally show "int64 (\<Sum>s\<leftarrow>PriceSummaries (UseYearSummaries d) es. s_Cost s) =
      int64 (sum_list (map e_Cost ?known))" .
  show "list_ex s_CostProjected (PriceSummaries (UseYearSummaries d) es) = list_ex e_CostProjected ?known"
    unfolding priced_summaries using row(2) years by (fastforce simp: list_ex_iff)
qed

lemma view_total:
  "(let es = ListEntries d in if 0 < length es then RunningBalance (es ! (length es - 1)) else 0) =
     (\<Sum>s\<leftarrow>UseYearSummaries d. s_Net s)"
proof -
  have len: "length (ListEntries d) = length (ListEntries_rows d)" by (simp add: ListEntries_def)
  have "(\<Sum>s\<leftarrow>UseYearSummaries d. s_Net s) = (\<Sum>r\<leftarrow>ListEntries_rows d. e_Allotted r - e_Used r)"
    using sum_list_mset_cong [OF mset_ListEntries_rows, of "\<lambda>r. e_Allotted r - e_Used r" d]
    by (simp add: summaries_net_total)
  moreover have "RunningBalance (ListEntries d ! (length (ListEntries d) - 1)) =
      (\<Sum>r\<leftarrow>ListEntries_rows d. e_Allotted r - e_Used r)" if "0 < length (ListEntries d)"
    using that len by (simp add: ListEntries_def running_balance)
  moreover have "ListEntries_rows d = []" if "\<not> 0 < length (ListEntries d)"
    using that len by simp
  ultimately show ?thesis by (cases "0 < length (ListEntries d)") (simp_all add: Let_def)
qed

text \<open>The tables of the ledger page agree: the balance shown is the sum of the nets of the use years,
  the total cost shown is the sum of their costs (in 64 bits), and the footnote on projected dues is
  shown exactly when a use year is marked as projected.\<close>
theorem ledger_view_totals:
  "let v = buildLedgerView d today editID editContractID errMsg in
     lv_Total v = (\<Sum>s\<leftarrow>lv_Summaries v. s_Net s) \<and>
     lv_TotalCostLabel v = FormatUSD (int64 (\<Sum>s\<leftarrow>lv_Summaries v. s_Cost s)) \<and>
     lv_CostFootnote v = list_ex s_CostProjected (lv_Summaries v)"
proof -
  have net: "(\<Sum>s\<leftarrow>PriceSummaries (UseYearSummaries d) es. s_Net s) = (\<Sum>s\<leftarrow>UseYearSummaries d. s_Net s)" for es
    unfolding priced_summaries by (simp add: comp_def)
  show ?thesis
    using view_total [of d] summaries_cost_total [OF refl, of d "CostBasis d"]
    by (simp add: buildLedgerView_def Let_def sumEntryCosts_eq net)
qed


section \<open>The widgets\<close>

lemma map_nth_rev_prefix: "n \<le> length xs \<Longrightarrow> map (\<lambda>i. f (xs ! (length xs - 1 - i))) [0..<n] = map f (take n (rev xs))"
  by (rule nth_equalityI) (simp_all add: rev_nth)

lemma map_nth_rev_suffix: "map (\<lambda>i. f (xs ! i)) (rev [length xs - n..<length xs]) = map f (take n (rev xs))"
proof (rule nth_equalityI)
  fix i assume "i < length (map (\<lambda>i. f (xs ! i)) (rev [length xs - n..<length xs]))"
  then have i: "i < length xs" "i < n" by auto
  then have "rev [length xs - n..<length xs] ! i = length xs - Suc i"
    by (subst rev_nth) auto
  with i show "map (\<lambda>i. f (xs ! i)) (rev [length xs - n..<length xs]) ! i = map f (take n (rev xs)) ! i"
    by (simp add: rev_nth)
qed simp

lemma recentEntries_eq: "recentEntries es cs = map (recentRow cs) (take recentActivityLimit (rev es))"
proof -
  let ?n = "if length es > recentActivityLimit then recentActivityLimit else length es"
  have "map (\<lambda>i. recentRow cs (es ! (length es - 1 - i))) [0..<?n] = map (recentRow cs) (take ?n (rev es))"
    by (rule map_nth_rev_prefix) simp
  then show ?thesis by (simp add: recentEntries_def Let_def)
qed

lemma spentByYear_eq:
  "spentByYear ss y = map spentRow (take spentByYearLimit
     (rev (filter (\<lambda>s. \<not> (s_UseYear s > y \<and> s_Used s = 0)) ss)))"
proof -
  let ?kept = "filter (\<lambda>s. \<not> (s_UseYear s > y \<and> s_Used s = 0)) ss"
  have "(if length ?kept > spentByYearLimit then length ?kept - spentByYearLimit else 0) =
      length ?kept - spentByYearLimit" by simp
  then show ?thesis unfolding spentByYear_def Let_def by (simp only: map_nth_rev_suffix [where f = spentRow])
qed

lemma UseYearSummaries_sorted: "sorted (map s_UseYear (UseYearSummaries d))"
  by (simp add: UseYearSummaries_years group_keys_def)

lemma priced_summaries_years:
  "map s_UseYear (PriceSummaries (UseYearSummaries d) es) = map s_UseYear (UseYearSummaries d)"
  unfolding priced_summaries by (simp add: comp_def)

text \<open>The entries of a view are the stored rows by date and id; the years of its summaries increase.\<close>

text \<open>The Recent widget shows the twenty newest entries, newest first, each with its own points delta
  and funding line; the Spent widget shows the five latest use years that have arrived or have spending,
  latest first, and years that lie ahead without spending take none of the five places.\<close>
theorem ledger_view_widgets:
  "let v = buildLedgerView d today editID editContractID errMsg;
       arrived = (\<lambda>s. s_UseYear s \<le> UseYearForDate today (UseYearMonth (CostBasis d)) \<or> s_Used s \<noteq> 0) in
     lv_Recent v = map (recentRow (ListContracts d)) (take 20 (rev (lv_Entries v))) \<and>
     map entry_row.truncate (lv_Entries v) = sort_key (\<lambda>e. (e_Date e, e_ID e)) (entries d) \<and>
     lv_SpentByYear v = map spentRow (take 5 (rev (filter arrived (lv_Summaries v)))) \<and>
     sorted_wrt (>) (map ys_UseYear (lv_SpentByYear v))"
proof -
  let ?ss = "PriceSummaries (UseYearSummaries d) (PriceEntries (CostBasis d) (ListEntries d))"
  let ?y = "UseYearForDate today (UseYearMonth (CostBasis d))"
  let ?arrived = "\<lambda>s. s_UseYear s \<le> ?y \<or> s_Used s \<noteq> 0"
  have spent: "spentByYear ?ss ?y = map spentRow (take 5 (rev (filter ?arrived ?ss)))"
    by (simp add: spentByYear_eq spentByYearLimit_def not_less del: not_not)
  have rows: "map entry_row.truncate (PriceEntries (CostBasis d) (ListEntries d)) =
      sort_key (\<lambda>e. (e_Date e, e_ID e)) (entries d)"
    by (simp add: priced_rows ListEntries_rows_def)
  have "sorted_wrt (<) (map s_UseYear ?ss)"
    unfolding priced_summaries_years strict_sorted_iff
    using UseYearSummaries_sorted UseYearSummaries_distinct by blast
  then have "sorted_wrt (\<lambda>s t. s_UseYear s < s_UseYear t) ?ss"
    by (simp add: sorted_wrt_map)
  then have "sorted_wrt (\<lambda>s t. s_UseYear s > s_UseYear t) (take 5 (rev (filter ?arrived ?ss)))"
    by (intro sorted_wrt_take) (simp add: sorted_wrt_rev sorted_wrt_filter)
  then have "sorted_wrt (>) (map ys_UseYear (map spentRow (take 5 (rev (filter ?arrived ?ss)))))"
    by (simp add: sorted_wrt_map spentRow_def del: take_map rev_map)
  then show ?thesis
    using rows
    by (simp add: buildLedgerView_def Let_def recentEntries_eq recentActivityLimit_def spent
        sumEntryCosts_eq)
qed

end
