(* ===== verification/Search.thy ===== *)
theory Search
  imports Prelude DateText
begin

text \<open>
  Point charts and the stay search: \<open>internal/dvc/types.go\<close> and \<open>internal/dvc/search.go\<close>.
  A chart is what its JSON file decodes to, the date ranges as text.  An index out of range, which
  panics in Go, is \<open>None\<close>; the error of \<open>PointsForNight\<close>, on which \<open>Search\<close> stops extending a
  stay, is a value.
\<close>

section \<open>Data\<close>

record date_range =
  Start :: string
  End :: string

record column =
  RoomType :: string
  View :: string
  Sleeps :: int

record season =
  Periods :: "date_range list"
  SunThu :: "int list"
  FriSat :: "int list"

record resort_chart =
  ResortName :: string
  ResortCode :: string
  ChartYear :: int
  Columns :: "column list"
  Seasons :: "season list"

record search_params =
  WindowStart :: date
  WindowEnd :: date
  Budget :: int
  MinNights :: int
  ExcludeResorts :: "string list"
  ExcludeRoomTypes :: "string list"

record stay_result =
  r_Resort :: string
  r_RoomType :: string
  r_View :: string
  r_CheckIn :: date
  r_CheckOut :: date
  r_Nights :: int
  r_Points :: int

definition MaxNights :: int where
  "MaxNights = 30"

section \<open>\<open>Contains\<close> and \<open>PointsForNight\<close>\<close>

definition Contains :: "date_range \<Rightarrow> date \<Rightarrow> bool result" where
  "Contains dr d =
     (case parse_iso (Start dr) of None \<Rightarrow> Inl (ErrInput ''parsing time'')
      | Some start \<Rightarrow>
     (case parse_iso (End dr) of None \<Rightarrow> Inl (ErrInput ''parsing time'')
      | Some end_ \<Rightarrow> Inr (\<not> d < start \<and> \<not> d > end_)))"

definition isWeekend :: "date \<Rightarrow> bool" where
  "isWeekend d \<longleftrightarrow> date_Weekday d = 5 \<or> date_Weekday d = 6"

definition index_panic :: "'a list \<Rightarrow> nat \<Rightarrow> 'a option" where
  "index_panic xs i = (if i < length xs then Some (xs ! i) else None)"

text \<open>The inner loop over the periods of one season: whether one covers the date, or the first error.\<close>

fun season_covers :: "date_range list \<Rightarrow> date \<Rightarrow> bool result" where
  "season_covers [] d = Inr False"
| "season_covers (p # ps) d =
     and_then (Contains p d) (\<lambda>ok. if ok then Inr True else season_covers ps d)"

fun points_in :: "season list \<Rightarrow> date \<Rightarrow> nat \<Rightarrow> int result option" where
  "points_in [] d colIdx = Some (Inl (ErrInput ''no season covers date''))"
| "points_in (s # ss) d colIdx =
     (case season_covers (Periods s) d of
        Inl e \<Rightarrow> Some (Inl e)
      | Inr True \<Rightarrow> map_option Inr (index_panic (if isWeekend d then FriSat s else SunThu s) colIdx)
      | Inr False \<Rightarrow> points_in ss d colIdx)"

definition PointsForNight :: "resort_chart \<Rightarrow> date \<Rightarrow> nat \<Rightarrow> int result option" where
  "PointsForNight chart d colIdx = points_in (Seasons chart) d colIdx"

section \<open>\<open>Search\<close>\<close>

text \<open>The loop over the check-out dates of one check-in date.  \<open>nights\<close> is \<open>int(Sub().Hours() / 24)\<close>.\<close>

function extend_stay ::
    "resort_chart \<Rightarrow> nat \<Rightarrow> column \<Rightarrow> search_params \<Rightarrow> int \<Rightarrow> date \<Rightarrow> date \<Rightarrow> int \<Rightarrow> stay_result list option" where
  "extend_stay chart colIdx col params minNights checkIn checkOut tot =
     (if checkOut > WindowEnd params then Some []
      else case PointsForNight chart (checkOut - 1) colIdx of
        None \<Rightarrow> None
      | Some (Inl err) \<Rightarrow> Some []
      | Some (Inr pts) \<Rightarrow>
          let tot' = int64 (tot + pts) in
          if tot' > Budget params then Some []
          else
            let nights = days_between checkIn checkOut;
                found = (if nights \<ge> minNights
                  then [\<lparr>r_Resort = ResortName chart, r_RoomType = RoomType col, r_View = View col,
                         r_CheckIn = checkIn, r_CheckOut = checkOut, r_Nights = nights, r_Points = tot'\<rparr>]
                  else [])
            in if nights \<ge> MaxNights then Some found
               else map_option (\<lambda>rest. found @ rest)
                 (extend_stay chart colIdx col params minNights checkIn (checkOut + 1) tot'))"
  by pat_completeness auto

termination extend_stay
  by (relation "measure (\<lambda>(chart, colIdx, col, params, minNights, checkIn, checkOut, tot).
        nat (WindowEnd params + 1 - checkOut))") auto

declare extend_stay.simps [simp del]

text \<open>Collecting the results of a loop body over a list; the first panic wins.\<close>

fun collect_all :: "('a \<Rightarrow> 'b list option) \<Rightarrow> 'a list \<Rightarrow> 'b list option" where
  "collect_all f [] = Some []"
| "collect_all f (x # xs) =
     (case f x of None \<Rightarrow> None | Some ys \<Rightarrow> map_option (\<lambda>zs. ys @ zs) (collect_all f xs))"

definition search_column :: "search_params \<Rightarrow> int \<Rightarrow> resort_chart \<Rightarrow> nat \<times> column \<Rightarrow> stay_result list option" where
  "search_column params minNights chart ic =
     (if RoomType (snd ic) \<in> set (ExcludeRoomTypes params) then Some []
      else collect_all (\<lambda>checkIn. extend_stay chart (fst ic) (snd ic) params minNights checkIn (checkIn + 1) 0)
             [WindowStart params .. WindowEnd params - 1])"

definition search_chart :: "search_params \<Rightarrow> int \<Rightarrow> resort_chart \<Rightarrow> stay_result list option" where
  "search_chart params minNights chart =
     (if ResortCode chart \<in> set (ExcludeResorts params) then Some []
      else collect_all (search_column params minNights chart) (enumerate 0 (Columns chart)))"

definition result_less :: "stay_result \<Rightarrow> stay_result \<Rightarrow> bool" where
  "result_less a b \<longleftrightarrow>
     (if r_Points a \<noteq> r_Points b then r_Points a < r_Points b else r_CheckIn a < r_CheckIn b)"

definition Search :: "resort_chart list \<Rightarrow> search_params \<Rightarrow> stay_result list option" where
  "Search charts params =
     (let minNights = (if MinNights params < 1 then 1 else MinNights params)
      in map_option (sort_slice result_less) (collect_all (search_chart params minNights) charts))"


section \<open>What a search offers\<close>

text \<open>The points of the first \<open>n\<close> nights from a check-in date, if every one of them is priced.\<close>

definition night_points :: "resort_chart \<Rightarrow> nat \<Rightarrow> date \<Rightarrow> int option" where
  "night_points chart colIdx d =
     (case PointsForNight chart d colIdx of Some (Inr p) \<Rightarrow> Some p | _ \<Rightarrow> None)"

fun stay_total :: "resort_chart \<Rightarrow> nat \<Rightarrow> date \<Rightarrow> nat \<Rightarrow> int option" where
  "stay_total chart colIdx checkIn 0 = Some 0"
| "stay_total chart colIdx checkIn (Suc n) =
     Option.bind (stay_total chart colIdx checkIn n) (\<lambda>t.
       map_option (\<lambda>p. t + p) (night_points chart colIdx (checkIn + int n)))"

text \<open>The stay of \<open>n\<close> nights, when it lies in the window, is long enough and within the budget.\<close>

definition offer :: "search_params \<Rightarrow> resort_chart \<Rightarrow> nat \<times> column \<Rightarrow> date \<Rightarrow> nat \<Rightarrow> stay_result list" where
  "offer params chart ic checkIn n =
     (case stay_total chart (fst ic) checkIn n of
        None \<Rightarrow> []
      | Some t \<Rightarrow>
          if checkIn + int n \<le> WindowEnd params \<and> MinNights params \<le> int n \<and> t \<le> Budget params
          then [\<lparr>r_Resort = ResortName chart, r_RoomType = RoomType (snd ic), r_View = View (snd ic),
                 r_CheckIn = checkIn, r_CheckOut = checkIn + int n, r_Nights = int n, r_Points = t\<rparr>]
          else [])"

text \<open>Every stay of one to thirty nights in the charts, resorts and room types the search looks at.\<close>

definition offered_stays :: "resort_chart list \<Rightarrow> search_params \<Rightarrow> stay_result list" where
  "offered_stays charts params =
     [r. chart \<leftarrow> charts, ResortCode chart \<notin> set (ExcludeResorts params),
         ic \<leftarrow> enumerate 0 (Columns chart), RoomType (snd ic) \<notin> set (ExcludeRoomTypes params),
         checkIn \<leftarrow> [WindowStart params .. WindowEnd params - 1],
         n \<leftarrow> [1..<31], r \<leftarrow> offer params chart ic checkIn n]"

text \<open>A chart whose rows price every column, in a range in which thirty nights cannot wrap around.\<close>

definition chart_ok :: "resort_chart \<Rightarrow> bool" where
  "chart_ok chart \<longleftrightarrow>
     (\<forall>s \<in> set (Seasons chart).
        length (Columns chart) \<le> length (SunThu s) \<and> length (Columns chart) \<le> length (FriSat s)
        \<and> (\<forall>p \<in> set (SunThu s) \<union> set (FriSat s). 0 \<le> p \<and> p < 2 ^ 31))"

lemma points_in_ok:
  assumes "\<And>s. s \<in> set ss \<Longrightarrow> colIdx < length (SunThu s) \<and> colIdx < length (FriSat s)
      \<and> (\<forall>p \<in> set (SunThu s) \<union> set (FriSat s). 0 \<le> p \<and> p < 2 ^ 31)"
  shows "(\<exists>e. points_in ss d colIdx = Some (Inl e))
    \<or> (\<exists>p. points_in ss d colIdx = Some (Inr p) \<and> 0 \<le> p \<and> p < 2 ^ 31)"
  using assms
proof (induction ss)
  case (Cons s ss)
  have row: "colIdx < length (SunThu s)" "colIdx < length (FriSat s)"
    and range: "\<And>p. p \<in> set (SunThu s) \<Longrightarrow> 0 \<le> p \<and> p < 2 ^ 31"
      "\<And>p. p \<in> set (FriSat s) \<Longrightarrow> 0 \<le> p \<and> p < 2 ^ 31"
    using Cons.prems [of s] by auto
  have IH: "(\<exists>e. points_in ss d colIdx = Some (Inl e))
    \<or> (\<exists>p. points_in ss d colIdx = Some (Inr p) \<and> 0 \<le> p \<and> p < 2 ^ 31)"
    by (rule Cons.IH) (rule Cons.prems, simp)
  show ?case
  proof (cases "season_covers (Periods s) d")
    case (Inr b)
    then show ?thesis
      using IH row range [OF nth_mem] by (cases b) (simp_all add: index_panic_def)
  qed simp
qed simp

lemma PointsForNight_ok:
  assumes "chart_ok chart" and "colIdx < length (Columns chart)"
  obtains e where "PointsForNight chart d colIdx = Some (Inl e)"
  | p where "PointsForNight chart d colIdx = Some (Inr p)" and "0 \<le> p" and "p < 2 ^ 31"
proof -
  have "(\<exists>e. points_in (Seasons chart) d colIdx = Some (Inl e))
    \<or> (\<exists>p. points_in (Seasons chart) d colIdx = Some (Inr p) \<and> 0 \<le> p \<and> p < 2 ^ 31)"
    using assms by (intro points_in_ok) (fastforce simp: chart_ok_def)
  with that show ?thesis unfolding PointsForNight_def by blast
qed

lemma stay_total_bounds:
  assumes "chart_ok chart" and "colIdx < length (Columns chart)"
  shows "stay_total chart colIdx ci n = Some t \<Longrightarrow> 0 \<le> t \<and> t \<le> int n * 2 ^ 31"
proof (induction n arbitrary: t)
  case (Suc n)
  then obtain t0 p where "stay_total chart colIdx ci n = Some t0"
      and p: "night_points chart colIdx (ci + int n) = Some p" and t: "t = t0 + p"
    by (auto simp: bind_eq_Some_conv)
  moreover from p have "0 \<le> p \<and> p < 2 ^ 31"
    by (cases rule: PointsForNight_ok [OF assms, of "ci + int n"]) (simp_all add: night_points_def)
  ultimately show ?case using Suc.IH by (fastforce simp: algebra_simps)
qed simp

lemma stay_total_later:
  assumes ok: "chart_ok chart" "colIdx < length (Columns chart)"
    and over: "case stay_total chart colIdx ci n of None \<Rightarrow> True | Some t \<Rightarrow> b < t"
  shows "case stay_total chart colIdx ci (n + k) of None \<Rightarrow> True | Some t \<Rightarrow> b < t"
proof (induction k)
  case (Suc k)
  show ?case
  proof (cases "stay_total chart colIdx ci (n + k)")
    case (Some t)
    with Suc show ?thesis
      by (cases rule: PointsForNight_ok [OF ok, of "ci + int (n + k)"]) (simp_all add: night_points_def)
  qed simp
qed (use over in simp)

lemma offers_stop:
  assumes "chart_ok chart" "fst ic < length (Columns chart)"
    and "case stay_total chart (fst ic) ci n of None \<Rightarrow> True | Some t \<Rightarrow> Budget params < t"
  shows "concat (map (offer params chart ic ci) [n..<m]) = []"
proof -
  have "offer params chart ic ci k = []" if "n \<le> k" for k
    using stay_total_later [OF assms, of "k - n"] that by (auto simp: offer_def split: option.splits)
  then show ?thesis by (simp add: concat_eq_Nil_conv)
qed


lemma extend_stay_offers:
  assumes ok: "chart_ok chart" "colIdx < length (Columns chart)"
  shows "n < 30 \<Longrightarrow> stay_total chart colIdx ci n = Some t \<Longrightarrow>
    extend_stay chart colIdx col params (if MinNights params < 1 then 1 else MinNights params) ci (ci + int n + 1) t =
      Some (concat (map (offer params chart (colIdx, col) ci) [Suc n..<31]))"
proof (induction "30 - n" arbitrary: n t)
  case (Suc k)
  let ?off = "offer params chart (colIdx, col) ci"
  let ?min = "if MinNights params < 1 then 1 else MinNights params"
  have list: "[Suc n..<31] = Suc n # [Suc (Suc n)..<31]"
    using Suc.prems(1) by (subst upt_conv_Cons) simp_all
  show ?case
  proof (cases "ci + int n + 1 > WindowEnd params")
    case True
    then have "?off m = []" if "Suc n \<le> m" for m
      using that by (auto simp: offer_def split: option.splits)
    with True show ?thesis by (subst extend_stay.simps) (simp add: concat_eq_Nil_conv)
  next
    case inside: False
    show ?thesis
    proof (cases rule: PointsForNight_ok [OF ok, of "ci + int n"])
      case (1 e)
      then have "concat (map ?off [Suc n..<31]) = []"
        using ok Suc.prems by (intro offers_stop) (simp_all add: night_points_def)
      with 1 inside show ?thesis by (subst extend_stay.simps) simp
    next
      case (2 p)
      have now: "stay_total chart colIdx ci (Suc n) = Some (t + p)"
        using 2 Suc.prems by (simp add: night_points_def)
      have "in64 (t + p)"
        using stay_total_bounds [OF ok Suc.prems(2)] 2 Suc.prems(1) by (simp add: in64_def)
      then have wrap: "int64 (t + p) = t + p" by (rule int64_id)
      have days: "days_between ci (ci + int n + 1) = int n + 1"
        using Suc.prems(1) by (simp add: days_between_def)
      show ?thesis
      proof (cases "t + p > Budget params")
        case True
        with now have "concat (map ?off [Suc n..<31]) = []"
          using ok by (intro offers_stop) simp_all
        with 2 inside wrap True show ?thesis by (subst extend_stay.simps) simp
      next
        case False
        let ?found = "if int n + 1 \<ge> ?min
            then [\<lparr>r_Resort = ResortName chart, r_RoomType = RoomType col, r_View = View col,
              r_CheckIn = ci, r_CheckOut = ci + int n + 1, r_Nights = int n + 1, r_Points = t + p\<rparr>] else []"
        have first: "?off (Suc n) = ?found"
          using now inside False by (simp add: offer_def ac_simps)
        have step: "extend_stay chart colIdx col params ?min ci (ci + int n + 1) t =
            (if int n + 1 \<ge> MaxNights then Some ?found
             else map_option (\<lambda>rest. ?found @ rest)
               (extend_stay chart colIdx col params ?min ci (ci + int n + 1 + 1) (t + p)))"
          using 2 inside wrap False by (subst extend_stay.simps) (simp add: days Let_def)
        show ?thesis
        proof (cases "n = 29")
          case True
          then show ?thesis
            unfolding step list list.map concat.simps first by (simp add: MaxNights_def del: upt_rec_numeral)
        next
          case more: False
          have "extend_stay chart colIdx col params ?min ci (ci + int (Suc n) + 1) (t + p) =
              Some (concat (map ?off [Suc (Suc n)..<31]))"
            using Suc.prems(1) more Suc.hyps(2) now by (intro Suc.hyps(1)) simp_all
          then have rest: "extend_stay chart colIdx col params ?min ci (ci + int n + 1 + 1) (t + p) =
              Some (concat (map ?off [Suc (Suc n)..<31]))"
            by (simp add: ac_simps)
          show ?thesis
            unfolding step list rest list.map concat.simps first using more Suc.prems(1)
            by (simp add: MaxNights_def del: upt_rec_numeral)
        qed
      qed
    qed
  qed
qed simp

lemma collect_all_some:
  assumes "\<And>x. x \<in> set xs \<Longrightarrow> f x = Some (g x)"
  shows "collect_all f xs = Some (concat (map g xs))"
  using assms by (induction xs) simp_all

lemma search_offers:
  assumes "\<And>chart. chart \<in> set charts \<Longrightarrow> chart_ok chart"
  shows "Search charts params = Some (sort_slice result_less (offered_stays charts params))"
proof -
  let ?min = "if MinNights params < 1 then 1 else MinNights params"
  let ?column = "\<lambda>chart ic. if RoomType (snd ic) \<notin> set (ExcludeRoomTypes params)
      then concat (map (\<lambda>ci. concat (map (offer params chart ic ci) [1..<31]))
        [WindowStart params .. WindowEnd params - 1]) else []"
  have column: "search_column params ?min chart ic = Some (?column chart ic)"
    if "chart \<in> set charts" "ic \<in> set (enumerate 0 (Columns chart))" for chart ic
  proof -
    have "chart_ok chart" "fst ic < length (Columns chart)"
      using assms that by (auto simp: in_set_enumerate_eq)
    from extend_stay_offers [OF this, of 0 _ 0 "snd ic" params]
    have "extend_stay chart (fst ic) (snd ic) params ?min ci (ci + 1) 0 =
        Some (concat (map (offer params chart ic ci) [1..<31]))" for ci
      by simp
    then show ?thesis by (simp add: search_column_def collect_all_some)
  qed
  have "search_chart params ?min chart =
      Some (if ResortCode chart \<notin> set (ExcludeResorts params)
        then concat (map (?column chart) (enumerate 0 (Columns chart))) else [])" if "chart \<in> set charts" for chart
    using column [OF that] by (simp add: search_chart_def collect_all_some del: upt_rec_numeral)
  then have "collect_all (search_chart params ?min) charts = Some (offered_stays charts params)"
    unfolding offered_stays_def list.map_ident by (rule collect_all_some)
  then show ?thesis by (simp add: Search_def)
qed


section \<open>Result order\<close>

interpretation result_order: slice_sort "\<lambda>r. (r_Points r, r_CheckIn r)" "sort_slice result_less"
  by (rule slice_sort_key) (auto simp: result_less_def less_prod_def)

section \<open>A sample chart\<close>

definition sample_chart :: resort_chart where
  "sample_chart = \<lparr>ResortName = ''Grand Floridian'', ResortCode = ''VGF'', ChartYear = 2026,
     Columns = [\<lparr>RoomType = ''RESORT STUDIO'', View = ''R'', Sleeps = 5\<rparr>,
                \<lparr>RoomType = ''ONE-BEDROOM VILLA'', View = '''', Sleeps = 5\<rparr>],
     Seasons = [\<lparr>Periods = [\<lparr>Start = ''2026-05-01'', End = ''2026-05-14''\<rparr>], SunThu = [17, 35], FriSat = [20, 40]\<rparr>]\<rparr>"

definition sample_search :: search_params where
  "sample_search = \<lparr>WindowStart = days_from_civil 2026 5 7, WindowEnd = days_from_civil 2026 5 9, Budget = 60,
     MinNights = 1, ExcludeResorts = [], ExcludeRoomTypes = [''ONE-BEDROOM VILLA'']\<rparr>"

text \<open>A rate row shorter than the columns makes the search panic.\<close>

lemma search_short_row:
  "Search [sample_chart\<lparr>Seasons := [\<lparr>Periods = [\<lparr>Start = ''2026-05-01'', End = ''2026-05-14''\<rparr>],
     SunThu = [17], FriSat = [20, 40]\<rparr>]\<rparr>] (sample_search\<lparr>ExcludeRoomTypes := []\<rparr>) = None"
  by code_simp

section \<open>The search is exact\<close>

text \<open>C36: \<open>Search\<close> does not panic on well-formed charts, and returns, cheapest first and by check-in
  date among equal points, exactly the stays of the allowed resorts and room types which lie in the
  window, have between the minimum and thirty nights, every night of which a season prices, and whose
  nightly points add up to a total within the budget: each such stay once, and nothing else.\<close>
theorem search_exact:
  assumes "\<forall>chart \<in> set charts. chart_ok chart"
  shows "\<exists>rs. Search charts params = Some rs \<and> mset rs = mset (offered_stays charts params)
    \<and> sorted (map (\<lambda>r. (r_Points r, r_CheckIn r)) rs)"
  using search_offers [of charts params] assms
  by (simp add: result_order.sorter_mset result_order.sorter_sorted)

theorem search_exact_witness:
  "\<exists>rs. Search [sample_chart] sample_search = Some rs \<and> mset rs = mset (offered_stays [sample_chart] sample_search)
    \<and> sorted (map (\<lambda>r. (r_Points r, r_CheckIn r)) rs)
    \<and> map (\<lambda>r. (r_Points r, r_Nights r)) rs = [(17, 1), (20, 1), (37, 2)]"
proof -
  have "\<forall>chart \<in> set [sample_chart]. chart_ok chart"
    by (simp add: chart_ok_def sample_chart_def)
  from search_exact [OF this, of sample_search] show ?thesis
  proof (elim exE conjE)
    fix rs assume rs: "Search [sample_chart] sample_search = Some rs"
      "mset rs = mset (offered_stays [sample_chart] sample_search)"
      "sorted (map (\<lambda>r. (r_Points r, r_CheckIn r)) rs)"
    have "map_option (map (\<lambda>r. (r_Points r, r_Nights r))) (Search [sample_chart] sample_search) =
        Some [(17, 1), (20, 1), (37, 2)]"
      by code_simp
    with rs show ?thesis by simp
  qed
qed

end
