(* ===== verification/Filters.thy ===== *)
theory Filters
  imports Search
begin

text \<open>
  The search filters: \<open>internal/dvc/filters.go\<close>, the \<open>Config\<close> of \<open>internal/dvc/config.go\<close> and the
  process-wide filters of \<open>internal/web/global_filters.go\<close>.  A copied slice is the same value; the
  configuration file is the configuration last saved to it.
\<close>

section \<open>Filter sets\<close>

record filter_set =
  f_ExcludeResorts :: "string list"
  f_ExcludeRoomTypes :: "string list"

record config =
  cfg_ExcludeResorts :: "string list"
  cfg_ExcludeRoomTypes :: "string list"

abbreviation FilterModeInherit :: string where "FilterModeInherit \<equiv> ''''"
abbreviation FilterModeOverride :: string where "FilterModeOverride \<equiv> ''override''"

definition AsFilterSet :: "config \<Rightarrow> filter_set" where
  "AsFilterSet c = \<lparr>f_ExcludeResorts = cfg_ExcludeResorts c, f_ExcludeRoomTypes = cfg_ExcludeRoomTypes c\<rparr>"

definition EffectiveFilters :: "config \<Rightarrow> string \<Rightarrow> filter_set \<Rightarrow> filter_set" where
  "EffectiveFilters global mode f = (if mode = FilterModeOverride then f else AsFilterSet global)"

definition CloneFilterSet :: "filter_set \<Rightarrow> filter_set" where
  "CloneFilterSet f = \<lparr>f_ExcludeResorts = [] @ f_ExcludeResorts f, f_ExcludeRoomTypes = [] @ f_ExcludeRoomTypes f\<rparr>"

definition stayEquals :: "stay_result \<Rightarrow> stay_result \<Rightarrow> bool" where
  "stayEquals a b \<longleftrightarrow> r_Resort a = r_Resort b \<and> r_RoomType a = r_RoomType b \<and> r_View a = r_View b
     \<and> r_CheckIn a = r_CheckIn b \<and> r_CheckOut a = r_CheckOut b \<and> r_Points a = r_Points b"

section \<open>\<open>FilterOptionsFor\<close>\<close>

record resort_option =
  ro_Code :: string
  ro_Name :: string
  ro_Enabled :: bool

record room_type_option =
  rt_Name :: string
  rt_Enabled :: bool

record filter_options_view =
  fo_Resorts :: "resort_option list"
  fo_RoomTypes :: "room_type_option list"

fun room_types_loop :: "column list \<Rightarrow> (string \<Rightarrow> bool) \<Rightarrow> string list \<Rightarrow> (string \<Rightarrow> bool) \<times> string list" where
  "room_types_loop [] roomSeen roomTypes = (roomSeen, roomTypes)"
| "room_types_loop (col # cols) roomSeen roomTypes =
     (if \<not> roomSeen (RoomType col)
      then room_types_loop cols (roomSeen(RoomType col := True)) (roomTypes @ [RoomType col])
      else room_types_loop cols roomSeen roomTypes)"

fun options_loop :: "resort_chart list \<Rightarrow> (string \<rightharpoonup> string) \<Rightarrow> string list \<Rightarrow> (string \<Rightarrow> bool) \<Rightarrow> string list
    \<Rightarrow> (string \<rightharpoonup> string) \<times> string list \<times> string list" where
  "options_loop [] resortNames resortCodes roomSeen roomTypes = (resortNames, resortCodes, roomTypes)"
| "options_loop (c # cs) resortNames resortCodes roomSeen roomTypes =
     (let (resortNames', resortCodes') =
            (case resortNames (ResortCode c) of
               None \<Rightarrow> (resortNames(ResortCode c \<mapsto> ResortName c), resortCodes @ [ResortCode c])
             | Some _ \<Rightarrow> (resortNames, resortCodes));
          (roomSeen', roomTypes') = room_types_loop (Columns c) roomSeen roomTypes
      in options_loop cs resortNames' resortCodes' roomSeen' roomTypes')"

definition FilterOptionsFor :: "resort_chart list \<Rightarrow> filter_set \<Rightarrow> filter_options_view" where
  "FilterOptionsFor charts excluded =
     (let (resortNames, resortCodes, roomTypes) = options_loop charts Map.empty [] (\<lambda>_. False) []
      in \<lparr>fo_Resorts = map (\<lambda>code. \<lparr>ro_Code = code,
              ro_Name = (case resortNames code of Some n \<Rightarrow> n | None \<Rightarrow> []),
              ro_Enabled = (code \<notin> set (f_ExcludeResorts excluded))\<rparr>) (sort resortCodes),
          fo_RoomTypes = map (\<lambda>rt. \<lparr>rt_Name = rt,
              rt_Enabled = (rt \<notin> set (f_ExcludeRoomTypes excluded))\<rparr>) (sort roomTypes)\<rparr>)"

section \<open>The process-wide filters\<close>

text \<open>\<open>g_saved\<close> is the content of the file; \<open>save_ok\<close> says whether this write succeeds.\<close>

record global_filters =
  g_cfg :: config
  g_saved :: config

definition global_Get :: "global_filters \<Rightarrow> config" where
  "global_Get g = \<lparr>cfg_ExcludeResorts = [] @ cfg_ExcludeResorts (g_cfg g),
     cfg_ExcludeRoomTypes = [] @ cfg_ExcludeRoomTypes (g_cfg g)\<rparr>"

text \<open>\<open>slices.Index\<close> and \<open>slices.Delete(s, i, i+1)\<close>: the first occurrence is removed.\<close>

definition toggleString :: "string list \<Rightarrow> string \<Rightarrow> string list" where
  "toggleString s v = (if v \<in> set s then remove1 v s else s @ [v])"

definition SaveConfig :: "bool \<Rightarrow> global_filters \<Rightarrow> error option \<times> global_filters" where
  "SaveConfig save_ok g = (if save_ok then (None, g\<lparr>g_saved := g_cfg g\<rparr>) else (Some (ErrInput ''save config''), g))"

definition ToggleResort :: "bool \<Rightarrow> string \<Rightarrow> global_filters \<Rightarrow> error option \<times> global_filters" where
  "ToggleResort save_ok code g = SaveConfig save_ok
     (g\<lparr>g_cfg := (g_cfg g)\<lparr>cfg_ExcludeResorts := toggleString (cfg_ExcludeResorts (g_cfg g)) code\<rparr>\<rparr>)"

definition ToggleRoomType :: "bool \<Rightarrow> string \<Rightarrow> global_filters \<Rightarrow> error option \<times> global_filters" where
  "ToggleRoomType save_ok name g = SaveConfig save_ok
     (g\<lparr>g_cfg := (g_cfg g)\<lparr>cfg_ExcludeRoomTypes := toggleString (cfg_ExcludeRoomTypes (g_cfg g)) name\<rparr>\<rparr>)"

section \<open>Toggling\<close>

lemma toggleString_distinct: "distinct s \<Longrightarrow> distinct (toggleString s v)"
  by (simp add: toggleString_def)

lemma toggleString_set:
  "distinct s \<Longrightarrow> set (toggleString s v) = (if v \<in> set s then set s - {v} else insert v (set s))"
  by (auto simp: toggleString_def set_remove1_eq)

lemma toggleString_twice: "distinct s \<Longrightarrow> set (toggleString (toggleString s v) v) = set s"
  by (auto simp: toggleString_distinct toggleString_set)

section \<open>Options\<close>

lemma room_types_loop_spec:
  assumes "distinct rts" and "\<And>t. seen t \<longleftrightarrow> t \<in> set rts"
    and "room_types_loop cols seen rts = (seen', rts')"
  shows "distinct rts' \<and> (\<forall>t. seen' t \<longleftrightarrow> t \<in> set rts') \<and> set rts' = set rts \<union> RoomType ` set cols"
  using assms
proof (induction cols arbitrary: seen rts)
  case (Cons c cols)
  show ?case
  proof (cases "seen (RoomType c)")
    case True
    with Cons.prems(3) have "room_types_loop cols seen rts = (seen', rts')" by simp
    from Cons.IH [OF Cons.prems(1,2) this] True Cons.prems(2) show ?thesis by auto
  next
    case False
    with Cons.prems(3)
    have "room_types_loop cols (seen(RoomType c := True)) (rts @ [RoomType c]) = (seen', rts')" by simp
    from Cons.IH [OF _ _ this] False Cons.prems(1,2) show ?thesis by simp
  qed
qed simp

lemma options_loop_spec:
  assumes "distinct codes" and "dom names = set codes"
    and "distinct rts" and "\<And>t. seen t \<longleftrightarrow> t \<in> set rts"
    and "options_loop cs names codes seen rts = (names', codes', rts')"
  shows "distinct codes' \<and> set codes' = set codes \<union> ResortCode ` set cs
    \<and> distinct rts' \<and> set rts' = set rts \<union> (\<Union>c \<in> set cs. RoomType ` set (Columns c))
    \<and> (\<forall>code. names' code = (case names code of Some n \<Rightarrow> Some n
          | None \<Rightarrow> map_option ResortName (find (\<lambda>c. ResortCode c = code) cs)))"
  using assms
proof (induction cs arbitrary: names codes seen rts)
  case (Cons c cs)
  obtain seen' rts'' where rooms: "room_types_loop (Columns c) seen rts = (seen', rts'')" by fastforce
  from room_types_loop_spec [OF Cons.prems(3,4) this]
  have inner: "distinct rts''" "\<And>t. seen' t \<longleftrightarrow> t \<in> set rts''" "set rts'' = set rts \<union> RoomType ` set (Columns c)"
    by auto
  let ?step = "case names (ResortCode c) of
      None \<Rightarrow> (names(ResortCode c \<mapsto> ResortName c), codes @ [ResortCode c]) | Some _ \<Rightarrow> (names, codes)"
  obtain names1 codes1 where step: "?step = (names1, codes1)" by fastforce
  have mem: "ResortCode c \<in> set codes \<longleftrightarrow> names (ResortCode c) \<noteq> None"
    using Cons.prems(2) by auto
  have codes1: "distinct codes1" "set codes1 = insert (ResortCode c) (set codes)"
    using step mem Cons.prems(1) by (auto split: option.splits)
  have names1: "names1 code = (case names code of Some n \<Rightarrow> Some n
      | None \<Rightarrow> if code = ResortCode c then Some (ResortName c) else None)" for code
    using step by (auto split: option.splits)
  have "dom names1 = set codes1"
    unfolding codes1(2) Cons.prems(2) [symmetric] dom_def by (auto simp: names1 split: option.splits if_splits)
  moreover have "options_loop cs names1 codes1 seen' rts'' = (names', codes', rts')"
    using Cons.prems(5) by (simp add: step rooms)
  ultimately have IH: "distinct codes' \<and> set codes' = set codes1 \<union> ResortCode ` set cs
    \<and> distinct rts' \<and> set rts' = set rts'' \<union> (\<Union>c \<in> set cs. RoomType ` set (Columns c))
    \<and> (\<forall>code. names' code = (case names1 code of Some n \<Rightarrow> Some n
          | None \<Rightarrow> map_option ResortName (find (\<lambda>c. ResortCode c = code) cs)))"
    using codes1(1) inner(1,2) by (intro Cons.IH)
  have "names' code = (case names code of Some n \<Rightarrow> Some n
      | None \<Rightarrow> map_option ResortName (find (\<lambda>c. ResortCode c = code) (c # cs)))" for code
    using IH by (auto simp: names1 split: option.split)
  with IH codes1(2) inner(3) show ?case by auto
qed (auto split: option.splits)

lemma sort_distinct_set: "distinct (xs :: 'a::linorder list) \<Longrightarrow> sort xs = sorted_list_of_set (set xs)"
  by (rule sorted_distinct_set_unique) simp_all

text \<open>The filter panel offers each resort code and each room type of the charts exactly once, in
  increasing order; a resort carries the name of the first chart with its code, and an option is
  enabled exactly when the filter set does not exclude it.\<close>
theorem filter_options:
  "FilterOptionsFor charts excluded =
     \<lparr>fo_Resorts = map (\<lambda>code. \<lparr>ro_Code = code,
         ro_Name = ResortName (the (find (\<lambda>c. ResortCode c = code) charts)),
         ro_Enabled = (code \<notin> set (f_ExcludeResorts excluded))\<rparr>) (sorted_list_of_set (ResortCode ` set charts)),
      fo_RoomTypes = map (\<lambda>rt. \<lparr>rt_Name = rt, rt_Enabled = (rt \<notin> set (f_ExcludeRoomTypes excluded))\<rparr>)
         (sorted_list_of_set (\<Union>c \<in> set charts. RoomType ` set (Columns c)))\<rparr>"
proof -
  obtain names codes rts where loop: "options_loop charts Map.empty [] (\<lambda>_. False) [] = (names, codes, rts)"
    by (metis prod_cases3)
  from options_loop_spec [OF _ _ _ _ this]
  have spec: "distinct codes" "set codes = ResortCode ` set charts"
      "distinct rts" "set rts = (\<Union>c \<in> set charts. RoomType ` set (Columns c))"
      "\<And>code. names code = map_option ResortName (find (\<lambda>c. ResortCode c = code) charts)"
    by auto
  have "(case names code of Some n \<Rightarrow> n | None \<Rightarrow> []) = ResortName (the (find (\<lambda>c. ResortCode c = code) charts))"
    if "code \<in> ResortCode ` set charts" for code
    using that spec(5) by (cases "find (\<lambda>c. ResortCode c = code) charts") (auto simp: find_None_iff)
  then show ?thesis
    by (simp add: FilterOptionsFor_def loop sort_distinct_set spec(1-4))
qed

end
