(* ===== verification/TripView.thy ===== *)
theory TripView
  imports LedgerView Filters
begin

text \<open>
  \<open>internal/web/render.go\<close>: the projections of trips into the data of their pages.  Nothing here reads
  or writes the database.  The lemmas show what the point budget of a search is worth before and after
  a booking, that the key marking a collected row identifies the stay, and that the funding section
  adds up to the preview it shows.
\<close>

section \<open>View data\<close>

record trip_row_view =
  rv_ID :: int
  rv_Name :: string
  rv_StartLabel :: string
  rv_EndLabel :: string
  rv_MinNights :: int
  rv_Stays :: nat
  rv_Points :: int
  rv_Status :: string
  rv_CostLabel :: string

record trip_list_view =
  tl_Trips :: "trip_row_view list"
  tl_Err :: string

record budget_view =
  bv_UseYear :: int
  bv_Current :: int
  bv_Banked :: int
  bv_Borrowable :: int
  bv_Total :: int
  bv_CurrentLabel :: string
  bv_BankedLabel :: string
  bv_BorrowableLabel :: string
  bv_Overridden :: bool
  bv_ComputedTotal :: int

record funding_line_view =
  fl_ContractID :: int
  fl_UseYear :: int
  fl_Tag :: string
  fl_Points :: int

record trip_funding_view =
  fv_Show :: bool
  fv_Fundable :: bool
  fv_TotalPoints :: int
  fv_Lines :: "funding_line_view list"
  fv_ShortBy :: int
  fv_ShortStayLabel :: string
  fv_ShortCheckIn :: date

record stay_view =
  sv_ID :: int
  sv_Resort :: string
  sv_RoomType :: string
  sv_View :: string
  sv_CheckIn :: date
  sv_CheckOut :: date
  sv_Nights :: int
  sv_Points :: int
  sv_Booked :: bool
  sv_PartiallyBooked :: bool
  sv_CostLabel :: string
  sv_CostProjected :: bool
  sv_cost :: cents

record result_row =
  rr_RowIndex :: nat
  rr_Resort :: string
  rr_RoomType :: string
  rr_View :: string
  rr_CheckIn :: date
  rr_CheckOut :: date
  rr_Nights :: int
  rr_Points :: int
  rr_Selected :: bool
  rr_CostLabel :: string
  rr_CostProjected :: bool
  rr_cost :: cents

record trip_view =
  tv_ID :: int
  tv_Name :: string
  tv_StartDate :: date
  tv_EndDate :: date
  tv_StartLabel :: string
  tv_EndLabel :: string
  tv_MinNights :: int
  tv_Budget :: budget_view
  tv_EffectiveBudget :: int
  tv_BudgetOverridden :: bool
  tv_Stays :: "stay_view list"
  tv_StaysPoints :: int
  tv_StaysCostLabel :: string
  tv_Funding :: trip_funding_view
  tv_Booked :: bool
  tv_PartlyBooked :: bool
  tv_HasBookedStays :: bool
  tv_HasUnbookedStays :: bool
  tv_SpansUseYears :: bool
  tv_SpanNote :: string
  tv_Remaining :: int
  tv_Results :: "result_row list"
  tv_ResultsTotal :: nat
  tv_Err :: string
  tv_ShowCosts :: bool

record filter_scope =
  fs_IsTrip :: bool
  fs_TripID :: int
  fs_TripName :: string
  fs_Mode :: string

record filters_view =
  fw_Scope :: filter_scope
  fw_Resorts :: "resort_option list"
  fw_RoomTypes :: "room_type_option list"

section \<open>Keys and prices\<close>

definition stay_key_text :: "string \<Rightarrow> string \<Rightarrow> string \<Rightarrow> date \<Rightarrow> date \<Rightarrow> int \<Rightarrow> string" where
  "stay_key_text resort roomType view checkIn checkOut points =
     resort @ ''|'' @ roomType @ ''|'' @ view @ ''|'' @ format_date checkIn @ ''|'' @ format_date checkOut
     @ ''|'' @ fmt_d points"

definition stayKey :: "stay_result \<Rightarrow> string" where
  "stayKey r = stay_key_text (r_Resort r) (r_RoomType r) (r_View r) (r_CheckIn r) (r_CheckOut r) (r_Points r)"

definition stayKeyForStay :: "trip_stay \<Rightarrow> string" where
  "stayKeyForStay st =
     stay_key_text (st_Resort st) (st_RoomType st) (st_View st) (st_CheckIn st) (st_CheckOut st) (st_Points st)"

definition priceRow :: "cost_basis \<Rightarrow> result_row \<Rightarrow> result_row" where
  "priceRow basis row =
     (let year = UseYearForDate (rr_CheckIn row) (UseYearMonth basis);
          (cost, projected, known) = Cost basis (rr_Points row) year None
      in if \<not> known then row
         else row\<lparr>rr_cost := cost, rr_CostLabel := FormatUSD cost, rr_CostProjected := projected\<rparr>)"

definition priceStay :: "month \<Rightarrow> cost_basis \<Rightarrow> stay_view \<Rightarrow> stay_view" where
  "priceStay month basis sv =
     (let year = UseYearForDate (sv_CheckIn sv) month;
          (cost, projected, known) = Cost basis (sv_Points sv) year None
      in if \<not> known then sv
         else sv\<lparr>sv_cost := cost, sv_CostLabel := FormatUSD cost, sv_CostProjected := projected\<rparr>)"

section \<open>Status and funding\<close>

definition stayBookingStatus :: "trip_stay list \<Rightarrow> bool \<times> bool" where
  "stayBookingStatus sts =
     foldl (\<lambda>(anyBooked, anyUnbooked) st.
       if Booked st then (True, anyUnbooked) else (anyBooked, True)) (False, False) sts"

definition findStayByID :: "trip_stay list \<Rightarrow> int \<Rightarrow> trip_stay option" where
  "findStayByID sts i = find (\<lambda>st. st_ID st = i) sts"

type_synonym line_key = "int \<times> int \<times> string"

definition zero_time :: date where
  "zero_time = days_from_civil 1 1 1"

text \<open>The loop over the draws of one stay: the running total, the totals of the lines and their order of
  first appearance (\<open>seen\<close> is presence in the Go map).\<close>

definition line_key_of :: "point_draw \<Rightarrow> line_key" where
  "line_key_of d = (dr_ContractID d, dr_UseYear d, DispositionTag (dr_Disposition d))"

fun draws_loop :: "point_draw list \<Rightarrow> int \<Rightarrow> (line_key \<Rightarrow> int option) \<Rightarrow> line_key list \<Rightarrow>
    int \<times> (line_key \<Rightarrow> int option) \<times> line_key list" where
  "draws_loop [] tot totals order = (tot, totals, order)"
| "draws_loop (d # ds) tot totals order =
     (let key = line_key_of d;
          order' = (if totals key = None then order @ [key] else order);
          old = (case totals key of Some n \<Rightarrow> n | None \<Rightarrow> 0)
      in draws_loop ds (tot + dr_Points d) (totals(key \<mapsto> old + dr_Points d)) order')"

fun funding_loop :: "trip_stay list \<Rightarrow> stay_funding list \<Rightarrow> trip_funding_view \<Rightarrow> (line_key \<Rightarrow> int option) \<Rightarrow>
    line_key list \<Rightarrow> trip_funding_view \<times> (line_key \<Rightarrow> int option) \<times> line_key list" where
  "funding_loop sts [] fv totals order = (fv, totals, order)"
| "funding_loop sts (sf # sfs) fv totals order =
     (if \<not> sf_Fundable sf then
        (let fv' = fv\<lparr>fv_ShortBy := sf_ShortBy sf\<rparr>
         in case findStayByID sts (sf_StayID sf) of
              None \<Rightarrow> (fv', totals, order)
            | Some st \<Rightarrow> (fv'\<lparr>fv_ShortStayLabel := st_Resort st @ '' '' @ st_RoomType st,
                           fv_ShortCheckIn := st_CheckIn st\<rparr>, totals, order))
      else
        (let (tot, totals', order') = draws_loop (sf_Draws sf) (fv_TotalPoints fv) totals order
         in funding_loop sts sfs (fv\<lparr>fv_TotalPoints := tot\<rparr>) totals' order'))"

definition zero_funding_view :: trip_funding_view where
  "zero_funding_view = \<lparr>fv_Show = False, fv_Fundable = False, fv_TotalPoints = 0, fv_Lines = [], fv_ShortBy = 0,
     fv_ShortStayLabel = [], fv_ShortCheckIn = zero_time\<rparr>"

definition buildTripFundingView :: "trip_funding_preview \<Rightarrow> trip_stay list \<Rightarrow> trip_funding_view" where
  "buildTripFundingView preview sts =
     (let (fv, totals, order) = funding_loop sts (tp_Stays preview)
            (zero_funding_view\<lparr>fv_Show := True, fv_Fundable := tp_Fundable preview\<rparr>) Map.empty []
      in fv\<lparr>fv_Lines := map (\<lambda>k. \<lparr>fl_ContractID = fst k, fl_UseYear = fst (snd k), fl_Tag = snd (snd k),
              fl_Points = (case totals k of Some n \<Rightarrow> n | None \<Rightarrow> 0)\<rparr>) order\<rparr>)"

definition deriveTripStatus :: "bool \<Rightarrow> bool \<Rightarrow> bool \<times> bool" where
  "deriveTripStatus anyBooked anyUnbooked =
     (if anyBooked \<and> \<not> anyUnbooked then (True, False)
      else if anyBooked \<and> anyUnbooked then (False, True)
      else (False, False))"

section \<open>The trip list\<close>

text \<open>The loop over the stays: points, cost and whether any was priced.\<close>

definition row_costs :: "trip_stay list \<Rightarrow> month \<Rightarrow> cost_basis \<Rightarrow> bool \<Rightarrow> int \<times> cents \<times> bool" where
  "row_costs sts month basis showCosts =
     foldl (\<lambda>(points, cost, priced) st.
       let points' = points + st_Points st in
       if \<not> showCosts then (points', cost, priced)
       else let (c, _, known) = Cost basis (st_Points st) (UseYearForDate (st_CheckIn st) month) None
            in if known then (points', int64 (cost + c), True) else (points', cost, priced))
     (0, 0, False) sts"

definition buildTripRowView :: "trip \<Rightarrow> trip_stay list \<Rightarrow> month \<Rightarrow> cost_basis \<Rightarrow> bool \<Rightarrow> trip_row_view" where
  "buildTripRowView t sts month basis showCosts =
     (let (anyBooked, anyUnbooked) = stayBookingStatus sts;
          (booked, partlyBooked) = deriveTripStatus anyBooked anyUnbooked;
          status = (if booked then ''booked'' else if partlyBooked then ''partly booked'' else ''planning'');
          (points, cost, priced) = row_costs sts month basis showCosts
      in \<lparr>rv_ID = t_ID t, rv_Name = t_Name t, rv_StartLabel = format_date (t_StartDate t),
          rv_EndLabel = format_date (t_EndDate t), rv_MinNights = t_MinNights t, rv_Stays = length sts,
          rv_Points = points, rv_Status = status, rv_CostLabel = (if priced then FormatUSD cost else [])\<rparr>)"

section \<open>The budget of a search\<close>

definition effectiveBudget :: "trip \<Rightarrow> trip_budget \<Rightarrow> int" where
  "effectiveBudget t b = (case t_BudgetOverride t of Some n \<Rightarrow> n | None \<Rightarrow> b_Total b)"

definition searchBudgetFor :: "trip \<Rightarrow> trip_budget \<Rightarrow> trip_stay list \<Rightarrow> int" where
  "searchBudgetFor t b sts =
     foldl (\<lambda>budget st. if \<not> Booked st then budget - st_Points st else budget) (effectiveBudget t b) sts"

definition spanBoundary :: "int \<Rightarrow> month \<Rightarrow> date" where
  "spanBoundary endUseYear month = go_Date endUseYear month 1"

definition maxResultRows :: nat where
  "maxResultRows = 200"

section \<open>The trip page\<close>

definition arrow :: string where
  "arrow = '' '' @ [CHR 0xE2, CHR 0x86, CHR 0x92] @ '' ''"

definition spanNote :: "int \<Rightarrow> int \<Rightarrow> month \<Rightarrow> string" where
  "spanNote startUY endUY month =
     ''This window spans use years '' @ fmt_d startUY @ arrow @ fmt_d endUY
     @ ''. The budget shown is for UY'' @ fmt_d startUY
     @ '' (the window start); stays checking in on or after '' @ format_date (spanBoundary endUY month)
     @ '' draw from UY'' @ fmt_d endUY @ ''.''"

definition stay_view_of :: "month \<Rightarrow> cost_basis \<Rightarrow> bool \<Rightarrow> trip_stay \<Rightarrow> stay_view" where
  "stay_view_of month basis showCosts st =
     (let sv = \<lparr>sv_ID = st_ID st, sv_Resort = st_Resort st, sv_RoomType = st_RoomType st, sv_View = st_View st,
            sv_CheckIn = st_CheckIn st, sv_CheckOut = st_CheckOut st, sv_Nights = st_Nights st,
            sv_Points = st_Points st, sv_Booked = Booked st, sv_PartiallyBooked = PartiallyBooked st,
            sv_CostLabel = [], sv_CostProjected = False, sv_cost = 0\<rparr>
      in if showCosts then priceStay month basis sv else sv)"

definition result_row_of :: "trip_stay list \<Rightarrow> cost_basis \<Rightarrow> bool \<Rightarrow> nat \<times> stay_result \<Rightarrow> result_row" where
  "result_row_of sts basis showCosts ir = (case ir of (i, r) \<Rightarrow>
     (let row = \<lparr>rr_RowIndex = i, rr_Resort = r_Resort r, rr_RoomType = r_RoomType r, rr_View = r_View r,
            rr_CheckIn = r_CheckIn r, rr_CheckOut = r_CheckOut r, rr_Nights = r_Nights r, rr_Points = r_Points r,
            rr_Selected = (stayKey r \<in> stayKeyForStay ` set sts),
            rr_CostLabel = [], rr_CostProjected = False, rr_cost = 0\<rparr>
      in if showCosts then priceRow basis row else row))"

definition buildTripView :: "trip \<Rightarrow> trip_stay list \<Rightarrow> trip_budget \<Rightarrow> stay_result list \<Rightarrow> month \<Rightarrow> cost_basis \<Rightarrow>
    bool \<Rightarrow> trip_funding_preview \<Rightarrow> trip_view" where
  "buildTripView t sts b results month basis showCosts funding =
     (let (anyBooked, anyUnbooked) = stayBookingStatus sts;
          (booked, partlyBooked) = deriveTripStatus anyBooked anyUnbooked;
          overridden = (t_BudgetOverride t \<noteq> None);
          startUY = UseYearForDate (t_StartDate t) month;
          endUY = UseYearForDate (t_EndDate t) month;
          svs = map (stay_view_of month basis showCosts) sts;
          staysCost = foldl (\<lambda>c sv. int64 (c + sv_cost sv)) 0 svs;
          shown = (if length results > maxResultRows then take maxResultRows results else results)
      in \<lparr>tv_ID = t_ID t, tv_Name = t_Name t, tv_StartDate = t_StartDate t, tv_EndDate = t_EndDate t,
          tv_StartLabel = format_date (t_StartDate t), tv_EndLabel = format_date (t_EndDate t),
          tv_MinNights = t_MinNights t,
          tv_Budget = \<lparr>bv_UseYear = b_UseYear b, bv_Current = b_Current b, bv_Banked = b_Banked b,
            bv_Borrowable = b_Borrowable b, bv_Total = b_Total b,
            bv_CurrentLabel = formatSignedDelta (b_Current b), bv_BankedLabel = formatSignedDelta (b_Banked b),
            bv_BorrowableLabel = formatSignedDelta (b_Borrowable b),
            bv_Overridden = overridden, bv_ComputedTotal = b_Total b\<rparr>,
          tv_EffectiveBudget = effectiveBudget t b, tv_BudgetOverridden = overridden,
          tv_Stays = svs, tv_StaysPoints = (\<Sum>st\<leftarrow>sts. st_Points st),
          tv_StaysCostLabel = (if showCosts then FormatUSD staysCost else []),
          tv_Funding = (if anyUnbooked then buildTripFundingView funding sts else zero_funding_view),
          tv_Booked = booked, tv_PartlyBooked = partlyBooked,
          tv_HasBookedStays = anyBooked, tv_HasUnbookedStays = anyUnbooked,
          tv_SpansUseYears = (startUY \<noteq> endUY),
          tv_SpanNote = (if startUY \<noteq> endUY then spanNote startUY endUY month else []),
          tv_Remaining = searchBudgetFor t b sts,
          tv_Results = map (result_row_of sts basis showCosts) (enumerate 0 shown),
          tv_ResultsTotal = length results, tv_Err = [], tv_ShowCosts = showCosts\<rparr>)"

definition toFiltersView :: "filter_options_view \<Rightarrow> filter_scope \<Rightarrow> filters_view" where
  "toFiltersView opts scope =
     \<lparr>fw_Scope = scope,
      fw_Resorts = map (\<lambda>r. \<lparr>ro_Code = ro_Code r, ro_Name = ro_Name r, ro_Enabled = ro_Enabled r\<rparr>) (fo_Resorts opts),
      fw_RoomTypes = map (\<lambda>rt. \<lparr>rt_Name = rt_Name rt, rt_Enabled = rt_Enabled rt\<rparr>) (fo_RoomTypes opts)\<rparr>"


section \<open>What a booking does to the budget\<close>

definition unbooked_points :: "trip_stay list \<Rightarrow> int" where
  "unbooked_points sts = (\<Sum>st\<leftarrow>filter (\<lambda>st. \<not> Booked st) sts. st_Points st)"

lemma searchBudgetFor_eq: "searchBudgetFor t b sts = effectiveBudget t b - unbooked_points sts"
proof -
  have "foldl (\<lambda>budget st. if \<not> Booked st then budget - st_Points st else budget) x sts = x - unbooked_points sts" for x
    by (induction sts arbitrary: x) (auto simp: unbooked_points_def)
  then show ?thesis by (simp add: searchBudgetFor_def)
qed

lemma TripBudget_total:
  "b_Total (TripBudget d start) =
     (let uy = UseYearForDate start (UseYearStartMonth (ListContracts d)) in
      (year_allotted d uy - year_used d uy) + (year_allotted d (uy - 1) - year_used d (uy - 1)) +
      max 0 ((\<Sum>c\<leftarrow>ListContracts d. c_AnnualPoints c) - year_used d (uy + 1)))"
  by (simp add: TripBudget_def BudgetForUseYear_def Let_def by_year_summaries max_def)

lemma lot_months_of_member: "months_of cs i = Some m \<Longrightarrow> \<exists>c \<in> set cs. c_ID c = i \<and> c_UseYearMonth c = m"
  unfolding months_of_def by (induction cs rule: rev_induct) (auto split: if_splits)

text \<open>A draw of the plan is on the use year of its stay, the one before or the one after.\<close>

lemma plan_draw_year:
  assumes "funding_plan sts d = Inr plan" and "(st, draws) \<in> set plan" and "dr \<in> set draws"
  shows "\<exists>c \<in> set (contracts d). \<bar>dr_UseYear dr - UseYearForDate (st_CheckIn st) (c_UseYearMonth c)\<bar> \<le> 1"
proof -
  obtain consumed where a: "AllocateStayPoints (lotSnapshotContracts d) (lotSnapshotLots d) consumed
      (st_CheckIn st) (st_Points st) = Inr draws"
    using fund_plan_draws assms(1,2) unfolding funding_plan_def by blast
  have "eligible_year (lotSnapshotContracts d) (st_CheckIn st) (draw_key dr)"
    using AllocateStayPoints_member(2) [OF a assms(3)] by (simp add: eligible_def)
  then obtain m where m: "months_of (lotSnapshotContracts d) (dr_ContractID dr) = Some m"
      "\<bar>dr_UseYear dr - UseYearForDate (st_CheckIn st) m\<bar> \<le> 1"
    by (auto simp: eligible_year_def draw_key_def split: option.splits)
  then obtain c where "c \<in> set (lotSnapshotContracts d)" "c_UseYearMonth c = m"
    using lot_months_of_member by blast
  then show ?thesis using m(2) by (auto simp: lotSnapshotContracts_def)
qed

lemma posted_year_sum:
  assumes "\<And>e i. f (e\<lparr>e_ID := i\<rparr>) = (f e :: int)"
  shows "(\<Sum>e\<leftarrow>filter (\<lambda>e. e_UseYear e = y) (posted_entries trip n ps). f e) =
    (\<Sum>p\<leftarrow>filter (\<lambda>p. dr_UseYear (snd p) = y) ps. f (draw_entry trip p))"
  using assms by (induction ps arbitrary: n) (auto simp: draw_entry_def)

lemma year_post:
  "year_allotted (post_all trip ps d) y = year_allotted d y"
  "year_used (post_all trip ps d) y = year_used d y + (\<Sum>p\<leftarrow>filter (\<lambda>p. dr_UseYear (snd p) = y) ps. dr_Points (snd p))"
proof -
  have "(\<Sum>p\<leftarrow>qs. e_Allotted (draw_entry trip p)) = 0" "(\<Sum>p\<leftarrow>qs. e_Used (draw_entry trip p)) = (\<Sum>p\<leftarrow>qs. dr_Points (snd p))"
    for qs by (induction qs) (auto simp: draw_entry_def)
  then show "year_allotted (post_all trip ps d) y = year_allotted d y"
    "year_used (post_all trip ps d) y = year_used d y + (\<Sum>p\<leftarrow>filter (\<lambda>p. dr_UseYear (snd p) = y) ps. dr_Points (snd p))"
    by (simp_all add: year_allotted_def year_used_def post_all_closed posted_year_sum)
qed

lemma flat_plan_points:
  assumes "db_ok d" and "funding_plan (ListStays tripID d) d = Inr plan"
  shows "(\<Sum>p\<leftarrow>flat_plan plan. dr_Points (snd p)) = unbooked_points (ListStays tripID d)"
proof -
  have stays: "map fst plan = filter (\<lambda>st. \<not> Booked st) (ListStays tripID d)"
    using fund_plan_stays assms(2) unfolding funding_plan_def by blast
  have draws: "sum_list (map dr_Points draws) = st_Points st" if p: "(st, draws) \<in> set plan" for st draws
  proof -
    have "st \<in> set (map fst plan)" using p by force
    then show ?thesis
      using funding_plan_sum [OF assms(2) p] stay_checked(1) [OF assms(1), of st tripID] by (simp add: stays)
  qed
  have "(\<Sum>p\<leftarrow>flat_plan plan. dr_Points (snd p)) = (\<Sum>q\<leftarrow>plan. sum_list (map dr_Points (snd q)))"
    by (induction plan) (auto simp: comp_def)
  also have "\<dots> = (\<Sum>q\<leftarrow>plan. st_Points (fst q))"
    using draws by (intro arg_cong [where f = sum_list] map_cong) auto
  also have "\<dots> = (\<Sum>st\<leftarrow>map fst plan. st_Points st)" by (simp add: comp_def)
  finally show ?thesis by (simp add: unbooked_points_def stays)
qed




section \<open>The funding section\<close>

text \<open>What the loops leave: the lines are the distinct line keys of all draws of the fundable stays, in
  order of appearance, and each carries the sum of its draws.\<close>

definition line_total :: "point_draw list \<Rightarrow> line_key \<Rightarrow> int" where
  "line_total ds k = (\<Sum>d\<leftarrow>filter (\<lambda>d. line_key_of d = k) ds. dr_Points d)"

definition lines_ok :: "point_draw list \<Rightarrow> int \<Rightarrow> (line_key \<Rightarrow> int option) \<Rightarrow> line_key list \<Rightarrow> bool" where
  "lines_ok ds tot totals order \<longleftrightarrow>
     tot = (\<Sum>d\<leftarrow>ds. dr_Points d) \<and> distinct order \<and> set order = line_key_of ` set ds \<and>
     (\<forall>k. totals k = (if k \<in> line_key_of ` set ds then Some (line_total ds k) else None))"

lemma draws_loop_lines:
  "lines_ok ds0 tot totals order \<Longrightarrow> draws_loop ds tot totals order = (tot', totals', order') \<Longrightarrow>
     lines_ok (ds0 @ ds) tot' totals' order'"
proof (induction ds arbitrary: ds0 tot totals order)
  case (Cons d ds)
  let ?k = "line_key_of d"
  let ?old = "case totals ?k of Some n \<Rightarrow> n | None \<Rightarrow> 0"
  have T: "totals k = (if k \<in> line_key_of ` set ds0 then Some (line_total ds0 k) else None)" for k
    using Cons.prems(1) unfolding lines_ok_def by blast
  have ks: "distinct order" "set order = line_key_of ` set ds0"
    using Cons.prems(1) by (simp_all add: lines_ok_def)
  have none: "line_total ds0 k = 0" if "k \<notin> line_key_of ` set ds0" for k
  proof -
    have "line_key_of d' \<noteq> k" if "d' \<in> set ds0" for d'
      using imageI [OF that, of line_key_of] \<open>k \<notin> line_key_of ` set ds0\<close> by metis
    then have "filter (\<lambda>d'. line_key_of d' = k) ds0 = []" by (simp add: filter_empty_conv)
    then show ?thesis by (simp add: line_total_def)
  qed
  have old: "?old = line_total ds0 ?k" using T [of ?k] none [of ?k] by (auto split: if_splits)
  have absent: "totals ?k = None \<longleftrightarrow> ?k \<notin> set order" by (simp only: T ks) simp
  have "lines_ok (ds0 @ [d]) (tot + dr_Points d) (totals(?k \<mapsto> ?old + dr_Points d))
      (if totals ?k = None then order @ [?k] else order)"
    unfolding lines_ok_def
  proof (intro conjI allI)
    show "distinct (if totals ?k = None then order @ [?k] else order)"
      using ks(1) by (simp add: absent)
    show "set (if totals ?k = None then order @ [?k] else order) = line_key_of ` set (ds0 @ [d])"
      by (simp add: absent ks(2) insert_absorb)
    show "tot + dr_Points d = (\<Sum>d\<leftarrow>ds0 @ [d]. dr_Points d)"
      using Cons.prems(1) by (simp add: lines_ok_def)
    show "(totals(?k \<mapsto> ?old + dr_Points d)) k =
        (if k \<in> line_key_of ` set (ds0 @ [d]) then Some (line_total (ds0 @ [d]) k) else None)" for k
    proof (cases "k = ?k")
      case True
      have "line_total (ds0 @ [d]) ?k = line_total ds0 ?k + dr_Points d" by (simp add: line_total_def)
      then show ?thesis unfolding True old by simp
    next
      case False
      then show ?thesis by (auto simp: T line_total_def)
    qed
  qed
  moreover have "draws_loop ds (tot + dr_Points d) (totals(?k \<mapsto> ?old + dr_Points d))
      (if totals ?k = None then order @ [?k] else order) = (tot', totals', order')"
    using Cons.prems(2) by (simp only: draws_loop.simps Let_def)
  ultimately have "lines_ok ((ds0 @ [d]) @ ds) tot' totals' order'" by (rule Cons.IH)
  then show ?case by simp
qed simp

text \<open>The draws of the stays before the first that cannot be funded.\<close>

definition fundable_draws :: "stay_funding list \<Rightarrow> point_draw list" where
  "fundable_draws sfs = concat (map sf_Draws (takeWhile sf_Fundable sfs))"

lemma funding_loop_lines:
  assumes "lines_ok ds0 (fv_TotalPoints fv) totals order"
    and "funding_loop sts sfs fv totals order = (fv', totals', order')"
  shows "lines_ok (ds0 @ fundable_draws sfs) (fv_TotalPoints fv') totals' order' \<and>
    fv_Show fv' = fv_Show fv \<and> fv_Fundable fv' = fv_Fundable fv \<and>
    fv_ShortBy fv' = (case find (\<lambda>sf. \<not> sf_Fundable sf) sfs of None \<Rightarrow> fv_ShortBy fv | Some sf \<Rightarrow> sf_ShortBy sf)"
  using assms
proof (induction sfs arbitrary: ds0 fv totals order)
  case (Cons sf sfs)
  show ?case
  proof (cases "sf_Fundable sf")
    case False
    then show ?thesis
      using Cons.prems by (auto simp: fundable_draws_def Let_def split: option.splits)
  next
    case True
    obtain tot1 totals1 order1 where inner:
        "draws_loop (sf_Draws sf) (fv_TotalPoints fv) totals order = (tot1, totals1, order1)"
      by (metis prod_cases3)
    have loop: "funding_loop sts sfs (fv\<lparr>fv_TotalPoints := tot1\<rparr>) totals1 order1 = (fv', totals', order')"
      using Cons.prems(2) True inner by simp
    have "lines_ok (ds0 @ sf_Draws sf) (fv_TotalPoints (fv\<lparr>fv_TotalPoints := tot1\<rparr>)) totals1 order1"
      using draws_loop_lines [OF Cons.prems(1) inner] by simp
    from Cons.IH [OF this loop] True show ?thesis
      by (simp add: fundable_draws_def split: option.splits)
  qed
qed (simp add: fundable_draws_def)


lemma funding_view_lines:
  fixes preview :: trip_funding_preview
  assumes "fv = buildTripFundingView preview sts" and "ds = fundable_draws (tp_Stays preview)"
  shows "fv_Fundable fv = tp_Fundable preview" and "fv_Show fv"
    and "fv_TotalPoints fv = (\<Sum>d\<leftarrow>ds. dr_Points d)"
    and "map (\<lambda>l. (fl_ContractID l, fl_UseYear l, fl_Tag l)) (fv_Lines fv) = order \<longrightarrow>
      distinct order \<and> set order = line_key_of ` set ds"
    and "\<forall>l \<in> set (fv_Lines fv). fl_Points l = line_total ds (fl_ContractID l, fl_UseYear l, fl_Tag l)"
    and "fv_ShortBy fv = (case find (\<lambda>sf. \<not> sf_Fundable sf) (tp_Stays preview) of None \<Rightarrow> 0 | Some sf \<Rightarrow> sf_ShortBy sf)"
proof -
  let ?fv0 = "zero_funding_view\<lparr>fv_Show := True, fv_Fundable := tp_Fundable preview\<rparr>"
  obtain fv1 totals ks where loop: "funding_loop sts (tp_Stays preview) ?fv0 Map.empty [] = (fv1, totals, ks)"
    by (metis prod_cases3)
  have start: "lines_ok [] (fv_TotalPoints ?fv0) Map.empty []"
    by (simp add: lines_ok_def zero_funding_view_def)
  have fv: "fv = fv1\<lparr>fv_Lines := map (\<lambda>k. \<lparr>fl_ContractID = fst k, fl_UseYear = fst (snd k), fl_Tag = snd (snd k),
      fl_Points = (case totals k of Some n \<Rightarrow> n | None \<Rightarrow> 0)\<rparr>) ks\<rparr>"
    by (simp add: assms(1) buildTripFundingView_def loop)
  note l = funding_loop_lines [OF start loop]
  have ok: "lines_ok ds (fv_TotalPoints fv1) totals ks" using l assms(2) by simp
  show "fv_Fundable fv = tp_Fundable preview" "fv_Show fv" using l fv by simp_all
  show "fv_TotalPoints fv = (\<Sum>d\<leftarrow>ds. dr_Points d)" using ok fv by (simp add: lines_ok_def)
  show "fv_ShortBy fv = (case find (\<lambda>sf. \<not> sf_Fundable sf) (tp_Stays preview) of None \<Rightarrow> 0 | Some sf \<Rightarrow> sf_ShortBy sf)"
    using l fv by (simp add: zero_funding_view_def split: option.splits)
  have "map (\<lambda>l. (fl_ContractID l, fl_UseYear l, fl_Tag l)) (fv_Lines fv) = ks"
    by (simp add: fv comp_def)
  then show "map (\<lambda>l. (fl_ContractID l, fl_UseYear l, fl_Tag l)) (fv_Lines fv) = order \<longrightarrow>
      distinct order \<and> set order = line_key_of ` set ds"
    using ok by (auto simp: lines_ok_def)
  have "totals k = Some (line_total ds k)" if "k \<in> set ks" for k
    using ok that unfolding lines_ok_def by metis
  then show "\<forall>l \<in> set (fv_Lines fv). fl_Points l = line_total ds (fl_ContractID l, fl_UseYear l, fl_Tag l)"
    by (auto simp: fv)
qed

lemma funded_draws [simp]: "fundable_draws (map funded plan) = map snd (flat_plan plan)"
proof -
  have all: "takeWhile sf_Fundable (map funded plan) = map funded plan"
    unfolding takeWhile_eq_all_conv by (auto simp: funded_def)
  have "fundable_draws (map funded plan) = concat (map snd plan)"
    unfolding fundable_draws_def all by (simp add: comp_def funded_def)
  also have "\<dots> = map snd (flat_plan plan)" by (induction plan) (auto simp: comp_def)
  finally show ?thesis .
qed

definition posted_total :: "entry_row list \<Rightarrow> line_key \<Rightarrow> int" where
  "posted_total es k =
     (\<Sum>e\<leftarrow>filter (\<lambda>e. (the (e_ContractID e), e_UseYear e, e_Tag e) = k) es. e_Used e)"

lemma posted_total_draws:
  "posted_total (posted_entries trip n ps) k = line_total (map snd ps) k"
  by (induction ps arbitrary: n) (auto simp: posted_total_def line_total_def line_key_of_def draw_entry_def)

lemma posted_used: "(\<Sum>e\<leftarrow>posted_entries trip n ps. e_Used e) = (\<Sum>d\<leftarrow>map snd ps. dr_Points d)"
  by (induction ps arbitrary: n) (auto simp: draw_entry_def)

text \<open>C37: The funding section of a trip page tells what booking the trip would do: when the booking succeeds,
  the section is shown as fundable, has one line for each contract, use year and disposition tag the new
  entries carry, each line's points are what those entries use, and the total is what all of them use,
  which is the points of the stays that were not booked.\<close>
theorem funding_section_predicts_booking:
  assumes "db_ok d" and "bookTripOnce tripID d = Inr d'"
    and "PreviewTripFunding (ListStays tripID d) d = Inr pv"
  shows "let fv = buildTripFundingView pv (ListStays tripID d); new = drop (length (entries d)) (entries d');
       key = (\<lambda>l. (fl_ContractID l, fl_UseYear l, fl_Tag l)) in
     fv_Fundable fv \<and> distinct (map key (fv_Lines fv)) \<and>
     key ` set (fv_Lines fv) = (\<lambda>e. (the (e_ContractID e), e_UseYear e, e_Tag e)) ` set new \<and>
     (\<forall>l \<in> set (fv_Lines fv). fl_Points l = posted_total new (key l)) \<and>
     fv_TotalPoints fv = (\<Sum>e\<leftarrow>new. e_Used e) \<and>
     fv_TotalPoints fv = (\<Sum>st\<leftarrow>filter (\<lambda>st. \<not> Booked st) (ListStays tripID d). st_Points st)"
proof -
  obtain trip plan where plan: "funding_plan (ListStays tripID d) d = Inr plan"
    and d': "d' = post_all trip (flat_plan plan) d"
    using bookTripOnce_posts [OF assms(1,2)] by metis
  let ?new = "posted_entries trip (entry_seq d) (flat_plan plan)" and ?ds = "map snd (flat_plan plan)"
  have new: "drop (length (entries d)) (entries d') = ?new" by (simp add: d' post_all_closed)
  have pv: "pv = \<lparr>tp_Stays = map funded plan, tp_Fundable = True\<rparr>"
    using PreviewTripFunding_plan [of "ListStays tripID d" d] plan assms(3) by simp
  have ds: "?ds = fundable_draws (tp_Stays pv)" by (simp add: pv)
  note fv = funding_view_lines [OF refl ds, of "ListStays tripID d"]
  have keys: "(\<lambda>e. (the (e_ContractID e), e_UseYear e, e_Tag e)) ` set (posted_entries trip n ps) =
      line_key_of ` set (map snd ps)" for n ps
    by (induction ps arbitrary: n) (auto simp: draw_entry_def line_key_of_def)
  have lines: "distinct (map (\<lambda>l. (fl_ContractID l, fl_UseYear l, fl_Tag l)) (fv_Lines (buildTripFundingView pv (ListStays tripID d))))"
    "(\<lambda>l. (fl_ContractID l, fl_UseYear l, fl_Tag l)) ` set (fv_Lines (buildTripFundingView pv (ListStays tripID d))) = line_key_of ` set ?ds"
    using fv(4) by (metis list.set_map)+
  have pts: "(\<Sum>d\<leftarrow>?ds. dr_Points d) = (\<Sum>st\<leftarrow>filter (\<lambda>st. \<not> Booked st) (ListStays tripID d). st_Points st)"
    using flat_plan_points [OF assms(1) plan] by (simp add: comp_def unbooked_points_def)
  show ?thesis
    unfolding Let_def new keys posted_total_draws posted_used
    using fv(1,3,5) lines pts by (simp add: pv)
qed

theorem funding_section_predicts_booking_witness:
  "\<exists>pv. PreviewTripFunding (ListStays 1 booking_db) booking_db = Inr pv \<and>
     fv_Fundable (buildTripFundingView pv (ListStays 1 booking_db)) \<and>
     fv_TotalPoints (buildTripFundingView pv (ListStays 1 booking_db)) = 60"
proof -
  have pts: "(\<Sum>st\<leftarrow>filter (\<lambda>st. \<not> Booked st) (ListStays 1 booking_db). st_Points st) = 60" by code_simp
  have "is_ok (PreviewTripFunding (ListStays 1 booking_db) booking_db)" by code_simp
  then obtain pv where "PreviewTripFunding (ListStays 1 booking_db) booking_db = Inr pv" by (auto simp: is_ok_iff)
  with funding_section_predicts_booking [OF booking_db_ok booking_succeeds this] pts
  show ?thesis by (auto simp: Let_def)
qed


section \<open>The marking of collected rows\<close>

text \<open>Names without the separator and dates of four-digit years: what charts and trips hold.\<close>

definition plain_names :: "string \<Rightarrow> string \<Rightarrow> string \<Rightarrow> date \<Rightarrow> date \<Rightarrow> bool" where
  "plain_names resort roomType view checkIn checkOut \<longleftrightarrow>
     CHR ''|'' \<notin> set resort \<and> CHR ''|'' \<notin> set roomType \<and> CHR ''|'' \<notin> set view \<and>
     0 \<le> date_Year checkIn \<and> date_Year checkIn \<le> 9999 \<and> 0 \<le> date_Year checkOut \<and> date_Year checkOut \<le> 9999"

lemma fmt_d_inj: "fmt_d x = fmt_d y \<longleftrightarrow> x = y"
proof
  have minus: "dec n \<noteq> CHR ''-'' # s" for n s
    using dec_digits [of "CHR ''-''" n] by (auto simp: is_digit_def digit_val_def)
  have dec: "dec m = dec n \<longleftrightarrow> m = n" for m n by (metis dec_val_dec)
  assume "fmt_d x = fmt_d y"
  then show "x = y"
    using minus minus [symmetric] by (auto simp: fmt_d_def dec split: if_splits)
qed simp

lemma not_digit_bar: "list_all is_digit s \<Longrightarrow> CHR ''|'' \<notin> set s"
  by (auto simp: list_all_iff is_digit_def digit_val_def)

lemma fmt_d_no_bar: "CHR ''|'' \<notin> set (fmt_d x)"
  by (auto simp: fmt_d_def not_digit_bar)

lemma format_date_no_bar: "CHR ''|'' \<notin> set (format_date z)"
  by (auto simp: format_date_def Let_def not_digit_bar zero_pad_digits)

lemma format_date_inj:
  assumes "0 \<le> date_Year z" "date_Year z \<le> 9999" "0 \<le> date_Year z'" "date_Year z' \<le> 9999"
  shows "format_date z = format_date z' \<longleftrightarrow> z = z'"
proof
  assume eq: "format_date z = format_date z'"
  have "Some z = Some z'"
    using parse_format_date [OF assms(1,2)] parse_format_date [OF assms(3,4)] unfolding eq by simp
  then show "z = z'" by simp
qed simp

lemma stay_key_inj:
  assumes "plain_names r t v ci co" and "plain_names r' t' v' ci' co'"
  shows "stay_key_text r t v ci co p = stay_key_text r' t' v' ci' co' p' \<longleftrightarrow>
    r = r' \<and> t = t' \<and> v = v' \<and> ci = ci' \<and> co = co' \<and> p = p'"
proof
  let ?join = "\<lambda>r t v ci co p. r @ concat (map ((#) (CHR ''|'')) [t, v, format_date ci, format_date co, fmt_d p])"
  assume "stay_key_text r t v ci co p = stay_key_text r' t' v' ci' co' p'"
  then have "?join r t v ci co p = ?join r' t' v' ci' co' p'"
    by (simp add: stay_key_text_def)
  then have "r = r' \<and> [t, v, format_date ci, format_date co, fmt_d p] =
      [t', v', format_date ci', format_date co', fmt_d p']"
    by (rule join_sep_inj [of r _ "CHR ''|''", rotated 2])
      (use assms fmt_d_no_bar format_date_no_bar in \<open>auto simp: plain_names_def\<close>)
  then show "r = r' \<and> t = t' \<and> v = v' \<and> ci = ci' \<and> co = co' \<and> p = p'"
    using assms by (simp add: plain_names_def fmt_d_inj format_date_inj)
qed simp

text \<open>The result rows of a trip page are the cheapest two hundred results in the order of the search,
  numbered from zero; a row is marked as collected exactly when the trip has a stay with the same
  resort, room type, view, dates and points, provided no name contains the separator of the key.\<close>
theorem result_rows_marked:
  assumes "v = buildTripView t sts b results month basis showCosts funding" and "i < length (tv_Results v)"
    and "plain_names (r_Resort (results ! i)) (r_RoomType (results ! i)) (r_View (results ! i))
      (r_CheckIn (results ! i)) (r_CheckOut (results ! i))"
    and "\<forall>st \<in> set sts. plain_names (st_Resort st) (st_RoomType st) (st_View st) (st_CheckIn st) (st_CheckOut st)"
  shows "length (tv_Results v) = min 200 (length results) \<and> tv_ResultsTotal v = length results \<and>
    rr_RowIndex (tv_Results v ! i) = i \<and> rr_Points (tv_Results v ! i) = r_Points (results ! i) \<and>
    (rr_Selected (tv_Results v ! i) \<longleftrightarrow>
      (\<exists>st \<in> set sts. st_Resort st = r_Resort (results ! i) \<and> st_RoomType st = r_RoomType (results ! i) \<and>
         st_View st = r_View (results ! i) \<and> st_CheckIn st = r_CheckIn (results ! i) \<and>
         st_CheckOut st = r_CheckOut (results ! i) \<and> st_Points st = r_Points (results ! i)))"
proof -
  have take: "(if length results > maxResultRows then take maxResultRows results else results) = take 200 results"
    by (simp add: maxResultRows_def)
  have rows: "tv_Results v = map (result_row_of sts basis showCosts) (enumerate 0 (take 200 results))"
    and tot: "tv_ResultsTotal v = length results"
    by (simp_all add: assms(1) buildTripView_def take Let_def split: prod.split)
  have i: "i < length results" "i < 200" using assms(2) by (simp_all add: rows)
  then have row: "tv_Results v ! i = result_row_of sts basis showCosts (i, results ! i)"
    by (simp add: rows nth_enumerate_eq)
  have same: "rr_Selected (result_row_of sts basis showCosts (i, r)) = (stayKey r \<in> stayKeyForStay ` set sts)"
    "rr_RowIndex (result_row_of sts basis showCosts (i, r)) = i"
    "rr_Points (result_row_of sts basis showCosts (i, r)) = r_Points r" for r
    by (simp_all add: result_row_of_def priceRow_def Let_def split: prod.split)
  have "stayKey (results ! i) = stayKeyForStay st \<longleftrightarrow>
      st_Resort st = r_Resort (results ! i) \<and> st_RoomType st = r_RoomType (results ! i) \<and>
      st_View st = r_View (results ! i) \<and> st_CheckIn st = r_CheckIn (results ! i) \<and>
      st_CheckOut st = r_CheckOut (results ! i) \<and> st_Points st = r_Points (results ! i)" if "st \<in> set sts" for st
    unfolding stayKey_def stayKeyForStay_def using stay_key_inj [OF assms(3)] assms(4) that by auto
  then show ?thesis
    using row tot i by (auto simp: same rows image_iff)
qed


definition sample_results :: "stay_result list" where
  "sample_results =
     [\<lparr>r_Resort = ''R'', r_RoomType = ''S'', r_View = '''', r_CheckIn = 20600, r_CheckOut = 20603, r_Nights = 3, r_Points = 60\<rparr>,
      \<lparr>r_Resort = ''R'', r_RoomType = ''S'', r_View = '''', r_CheckIn = 20600, r_CheckOut = 20603, r_Nights = 3, r_Points = 66\<rparr>]"

definition sample_trip_view :: trip_view where
  "sample_trip_view = buildTripView (hd (trips booking_db)) (ListStays 1 booking_db) (TripBudget booking_db 20600)
     sample_results 4 (CostBasis booking_db) False \<lparr>tp_Stays = [], tp_Fundable = True\<rparr>"


theorem result_rows_marked_witness:
  "map rr_Selected (tv_Results sample_trip_view) = [True, False]"
proof -
  let ?sts = "ListStays 1 booking_db"
  have years: "date_Year 20600 = 2026" "date_Year 20603 = 2026" by code_simp+
  have len: "length (tv_Results sample_trip_view) = 2"
    by (simp add: sample_trip_view_def buildTripView_def Let_def maxResultRows_def sample_results_def split: prod.split)
  have "length ?sts = 1" by code_simp
  then have one: "set ?sts = {hd ?sts}" by (cases ?sts) simp_all
  have st: "st_Resort (hd ?sts) = ''R'' \<and> st_RoomType (hd ?sts) = ''S'' \<and> st_View (hd ?sts) = '''' \<and>
      st_CheckIn (hd ?sts) = 20600 \<and> st_CheckOut (hd ?sts) = 20603 \<and> st_Points (hd ?sts) = 60"
    by code_simp
  have plain: "\<forall>st \<in> set ?sts.
      plain_names (st_Resort st) (st_RoomType st) (st_View st) (st_CheckIn st) (st_CheckOut st)"
    by (simp add: one st plain_names_def years)
  note row = result_rows_marked [OF sample_trip_view_def _ _ plain, unfolded one len]
  have "rr_Selected (tv_Results sample_trip_view ! 0)"
    using row [of 0] st by (simp add: sample_results_def plain_names_def years)
  moreover have "\<not> rr_Selected (tv_Results sample_trip_view ! 1)"
    using row [of 1] st by (simp add: sample_results_def plain_names_def years)
  ultimately show ?thesis using len by (intro nth_equalityI) (auto simp: less_2_cases_iff)
qed

end
