(* ===== verification/CostCache.thy ===== *)
theory CostCache
  imports Store
begin

text \<open>
  \<open>internal/web/costs.go\<close>: the planner's cached \<open>CostBasis\<close>.  Times are nanoseconds; the two calls of the
  clock in \<open>Basis\<close> are two arguments, and \<open>fetch\<close> is what the store answers if it is asked (\<open>None\<close> for
  an error).  A nil provider and a nil \<open>fetch\<close> are left to the code's tests.  The mutex makes the calls
  sequential.
\<close>

section \<open>The provider\<close>

definition costBasisTTL :: int where
  "costBasisTTL = 60 * 10 ^ 9"

record cost_provider =
  cp_basis :: cost_basis
  cp_ok :: bool
  cp_fetchedAt :: int

definition zero_basis :: cost_basis where
  "zero_basis = \<lparr>rates = (\<lambda>_. None), blended = 0, hasRate = False, dues = [], firstYear = 0, lastYear = 0,
     growthMicros = 0, hasDues = False, useYearMonth = 0\<rparr>"

definition newCostProvider :: cost_provider where
  "newCostProvider = \<lparr>cp_basis = zero_basis, cp_ok = False, cp_fetchedAt = 0\<rparr>"

definition Basis :: "cost_basis option \<Rightarrow> int \<Rightarrow> int \<Rightarrow> cost_provider \<Rightarrow> (cost_basis \<times> bool) \<times> cost_provider" where
  "Basis fetch now1 now2 p =
     (if cp_ok p \<and> now1 - cp_fetchedAt p < costBasisTTL then ((cp_basis p, True), p)
      else (case fetch of
          None \<Rightarrow> ((zero_basis, False), p\<lparr>cp_ok := False\<rparr>)
        | Some basis \<Rightarrow>
            let p' = p\<lparr>cp_basis := basis, cp_ok := True, cp_fetchedAt := now2\<rparr> in ((cp_basis p', True), p')))"

definition Invalidate :: "cost_provider \<Rightarrow> cost_provider" where
  "Invalidate p = p\<lparr>cp_ok := False\<rparr>"

section \<open>The cache interface\<close>

text \<open>
  What a client of a cache relies on: a value served is one the store gave, no older than the time to
  live, and nothing given before the last invalidation is served again.  \<open>holds c v t\<close> says that the
  cache holds \<open>v\<close> since \<open>t\<close>.
\<close>

locale ttl_cache =
  fixes holds :: "'c \<Rightarrow> 'v \<Rightarrow> int \<Rightarrow> bool"
    and get :: "'v option \<Rightarrow> int \<Rightarrow> int \<Rightarrow> 'c \<Rightarrow> 'v option \<times> 'c"
    and drop_all :: "'c \<Rightarrow> 'c"
    and ttl :: int
  assumes drop_all_holds: "\<not> holds (drop_all c) v t"
    and get_Some: "get f n1 n2 c = (Some v, c') \<Longrightarrow>
      (\<exists>t. holds c v t \<and> n1 - t < ttl \<and> c' = c) \<or> (f = Some v \<and> holds c' v n2)"
    and get_None: "get f n1 n2 c = (None, c') \<Longrightarrow> f = None \<and> \<not> holds c' v t"
    and holds_unique: "holds c v t \<Longrightarrow> holds c v' t' \<Longrightarrow> v' = v \<and> t' = t"
begin

lemma get_after_drop: "get f n1 n2 (drop_all c) = (Some v, c') \<Longrightarrow> f = Some v"
  using get_Some drop_all_holds by blast

text \<open>An invariant of the held value is kept by every call whose fetch satisfies it.\<close>

lemma get_keeps:
  assumes "\<And>v t. holds c v t \<Longrightarrow> P v" and "\<And>v. f = Some v \<Longrightarrow> P v"
    and "get f n1 n2 c = (r, c')" and "holds c' v t"
  shows "P v"
proof (cases r)
  case None
  then show ?thesis using get_None assms(3,4) by blast
next
  case (Some w)
  then have "get f n1 n2 c = (Some w, c')" using assms(3) by simp
  from get_Some [OF this] show ?thesis using assms(1,2,4) holds_unique by blast
qed

lemma get_serves:
  assumes "\<And>v t. holds c v t \<Longrightarrow> P v" and "\<And>v. f = Some v \<Longrightarrow> P v"
    and "get f n1 n2 c = (Some v, c')"
  shows "P v"
  using get_Some [OF assms(3)] assms(1,2) by blast

end

definition holds_basis :: "cost_provider \<Rightarrow> cost_basis \<Rightarrow> int \<Rightarrow> bool" where
  "holds_basis p b t \<longleftrightarrow> cp_ok p \<and> cp_basis p = b \<and> cp_fetchedAt p = t"

definition served :: "(cost_basis \<times> bool) \<times> cost_provider \<Rightarrow> cost_basis option \<times> cost_provider" where
  "served r = (case r of ((b, ok), p) \<Rightarrow> (if ok then Some b else None, p))"

interpretation basis_cache: ttl_cache holds_basis "\<lambda>f n1 n2 p. served (Basis f n1 n2 p)" Invalidate costBasisTTL
  by unfold_locales
    (auto simp: holds_basis_def served_def Basis_def Invalidate_def Let_def split: if_splits option.splits)

text \<open>A failed fetch never serves an older value, and the next call asks the store again.\<close>

lemma Basis_failed: "Basis f n1 n2 p = ((b, False), p') \<Longrightarrow> f = None \<and> b = zero_basis \<and> \<not> cp_ok p'"
  by (auto simp: Basis_def Let_def split: if_splits option.splits)

section \<open>The cache and the ledger\<close>

text \<open>
  The store as the cache sees it: other requests change the database, with or without invalidating the
  cache, time passes, and \<open>Basis\<close> is asked, its fetch reading the database of that moment.  \<open>past\<close> logs the
  databases with the time until which they were current.
\<close>

record cache_sys =
  cy_db :: db
  cy_now :: int
  cy_cache :: cost_provider
  cy_past :: "(int \<times> db) list"

inductive cache_step :: "cache_sys \<Rightarrow> cache_sys \<Rightarrow> bool" where
  tick: "cy_now s \<le> n \<Longrightarrow> cache_step s (s\<lparr>cy_now := n\<rparr>)"
| change_invalidate: "cache_step s (s\<lparr>cy_db := d, cy_cache := Invalidate (cy_cache s),
      cy_past := (cy_now s, cy_db s) # cy_past s\<rparr>)"
| change_silent: "cache_step s (s\<lparr>cy_db := d, cy_past := (cy_now s, cy_db s) # cy_past s\<rparr>)"
| ask: "cy_now s \<le> n2 \<Longrightarrow> Basis (if ok then Some (CostBasis (cy_db s)) else None) (cy_now s) n2 (cy_cache s) = (r, c) \<Longrightarrow>
    cache_step s (s\<lparr>cy_now := n2, cy_cache := c\<rparr>)"

inductive cache_reachable :: "cache_sys \<Rightarrow> bool" where
  start: "cache_reachable \<lparr>cy_db = d, cy_now = n, cy_cache = newCostProvider, cy_past = []\<rparr>"
| step: "cache_reachable s \<Longrightarrow> cache_step s s' \<Longrightarrow> cache_reachable s'"

text \<open>The held basis is that of the current database or of one that was replaced after the fetch.\<close>

definition traced :: "cache_sys \<Rightarrow> cost_basis \<Rightarrow> int \<Rightarrow> bool" where
  "traced s b t \<longleftrightarrow> t \<le> cy_now s \<and>
     (b = CostBasis (cy_db s) \<or> (\<exists>(u, d) \<in> set (cy_past s). t \<le> u \<and> b = CostBasis d))"

definition cache_inv :: "cache_sys \<Rightarrow> bool" where
  "cache_inv s \<longleftrightarrow> (\<forall>b t. holds_basis (cy_cache s) b t \<longrightarrow> traced s b t)"

lemma traced_tick: "n \<ge> cy_now s \<Longrightarrow> traced s b t \<Longrightarrow> traced (s\<lparr>cy_now := n\<rparr>) b t"
  by (auto simp: traced_def)

lemma traced_cache [simp]: "traced (s\<lparr>cy_cache := c\<rparr>) b t = traced s b t"
  by (simp add: traced_def)

lemma traced_change: "traced s b t \<Longrightarrow> traced (s\<lparr>cy_db := d, cy_past := (cy_now s, cy_db s) # cy_past s\<rparr>) b t"
  unfolding traced_def by auto

lemma traced_fetch: "traced (s\<lparr>cy_now := n\<rparr>) (CostBasis (cy_db s)) n"
  by (simp add: traced_def)

lemma cache_step_inv: "cache_step s s' \<Longrightarrow> cache_inv s \<Longrightarrow> cache_inv s'"
proof (induction rule: cache_step.induct)
  case (tick s n)
  then show ?case by (simp add: cache_inv_def traced_tick)
next
  case (change_invalidate s d)
  then show ?case using basis_cache.drop_all_holds by (simp add: cache_inv_def)
next
  case (change_silent s d)
  then show ?case using traced_change by (simp add: cache_inv_def)
next
  case (ask s n2 ok r c)
  have "traced (s\<lparr>cy_now := n2\<rparr>) b t" if h: "holds_basis c b t" for b t
  proof (cases "c = cy_cache s")
    case True
    then show ?thesis using ask.prems h ask.hyps(1) by (simp add: cache_inv_def traced_tick)
  next
    case False
    then have "b = CostBasis (cy_db s) \<and> t = n2"
      using ask.hyps(2) h by (auto simp: Basis_def holds_basis_def Let_def split: if_splits option.splits)
    then show ?thesis using traced_fetch by simp
  qed
  then show ?case by (simp add: cache_inv_def)
qed

lemma cache_reachable_inv: "cache_reachable s \<Longrightarrow> cache_inv s"
proof (induction rule: cache_reachable.induct)
  case (start d n)
  then show ?case by (simp add: cache_inv_def holds_basis_def newCostProvider_def)
next
  case (step s s')
  then show ?case using cache_step_inv by blast
qed

text \<open>However requests, edits and clock ticks interleave, the costs a planner page is given are those of the
  current ledger or of a ledger that was replaced less than a minute ago; when a fetch fails none
  are given, and the first request after an invalidation is given those of the current ledger.\<close>
theorem cache_staleness:
  assumes "cache_reachable s"
    and "Basis (if ok then Some (CostBasis (cy_db s)) else None) (cy_now s) n2 (cy_cache s) = ((b, known), c)"
  shows "(known \<longrightarrow> b = CostBasis (cy_db s) \<or>
      (\<exists>(u, d) \<in> set (cy_past s). b = CostBasis d \<and> cy_now s - u < 60 * 10 ^ 9)) \<and>
    (\<not> known \<longrightarrow> \<not> ok \<and> b = zero_basis) \<and>
    (\<not> cp_ok (cy_cache s) \<longrightarrow> known = ok \<and> (ok \<longrightarrow> b = CostBasis (cy_db s)))"
proof (intro conjI impI)
  let ?f = "if ok then Some (CostBasis (cy_db s)) else None"
  assume known
  then have "served (Basis ?f (cy_now s) n2 (cy_cache s)) = (Some b, c)"
    using assms(2) by (simp add: served_def)
  from basis_cache.get_Some [OF this]
  show "b = CostBasis (cy_db s) \<or> (\<exists>(u, d) \<in> set (cy_past s). b = CostBasis d \<and> cy_now s - u < 60 * 10 ^ 9)"
  proof
    assume "\<exists>t. holds_basis (cy_cache s) b t \<and> cy_now s - t < costBasisTTL \<and> c = cy_cache s"
    then obtain t where t: "holds_basis (cy_cache s) b t" "cy_now s - t < 60 * 10 ^ 9"
      by (auto simp: costBasisTTL_def)
    then show ?thesis
      using cache_reachable_inv [OF assms(1)] by (fastforce simp: cache_inv_def traced_def)
  qed (auto split: if_splits)
next
  assume "\<not> known"
  then show "\<not> ok" and "b = zero_basis"
    using Basis_failed [of _ "cy_now s" n2 "cy_cache s" b c] assms(2) by (auto split: if_splits)
next
  assume "\<not> cp_ok (cy_cache s)"
  then show "known = ok" and "ok \<Longrightarrow> b = CostBasis (cy_db s)"
    using assms(2) by (auto simp: Basis_def Let_def split: if_splits)
qed

theorem cache_staleness_witness:
  "fst (Basis (Some (CostBasis sample_db)) 5 6 newCostProvider) = (CostBasis sample_db, True)"
proof -
  let ?s = "\<lparr>cy_db = sample_db, cy_now = 5, cy_cache = newCostProvider, cy_past = []\<rparr>"
  obtain b known c where "Basis (Some (CostBasis sample_db)) 5 6 newCostProvider = ((b, known), c)"
    by (metis prod_cases3 surj_pair)
  with cache_staleness [OF cache_reachable.start [of sample_db 5], of True 6 b known c]
  show ?thesis by (simp add: newCostProvider_def)
qed

end
