(* ===== verification/Auth.thy ===== *)
theory Auth
  imports Trips
begin

text \<open>
  \<open>internal/web/auth.go\<close>: the gate in front of the server.  A request is what the code reads of it: its
  method, path, query, host, headers (absent ones are empty) and session cookie.  HMAC-SHA256 is the
  argument \<open>hmac\<close> (key, message, digest), the host \<open>net/url\<close> parses from an \<open>Origin\<close> header the argument
  \<open>origin_host\<close>, and the clock, in Unix seconds, the argument \<open>now\<close>; the properties hold for every
  such function.  Texts are byte strings.
\<close>

section \<open>\<open>base64.RawURLEncoding\<close>\<close>

definition b64_alphabet :: string where
  "b64_alphabet = ''ABCDEFGHIJKLMNOPQRSTUVWXYZabcdefghijklmnopqrstuvwxyz0123456789-_''"

definition b64_char :: "nat \<Rightarrow> char" where
  "b64_char n = b64_alphabet ! n"

definition b64_index :: "char \<Rightarrow> nat option" where
  "b64_index c = (let n = length (takeWhile (\<lambda>x. x \<noteq> c) b64_alphabet)
     in if n < length b64_alphabet then Some n else None)"

fun b64_sextets :: "nat list \<Rightarrow> nat list" where
  "b64_sextets [] = []"
| "b64_sextets [a] = [a div 4, (a mod 4) * 16]"
| "b64_sextets [a, b] = [a div 4, (a mod 4) * 16 + b div 16, (b mod 16) * 4]"
| "b64_sextets (a # b # c # s) =
     a div 4 # ((a mod 4) * 16 + b div 16) # ((b mod 16) * 4 + c div 64) # (c mod 64) # b64_sextets s"

definition b64_EncodeToString :: "string \<Rightarrow> string" where
  "b64_EncodeToString s = map b64_char (b64_sextets (map of_char s))"

text \<open>The decoder ignores carriage returns and line feeds and does not look at the unused low bits of a
  short last group.\<close>

fun b64_bytes :: "nat list \<Rightarrow> nat list option" where
  "b64_bytes [] = Some []"
| "b64_bytes [w] = None"
| "b64_bytes [w, x] = Some [w * 4 + x div 16]"
| "b64_bytes [w, x, y] = Some [w * 4 + x div 16, (x mod 16) * 16 + y div 4]"
| "b64_bytes (w # x # y # z # s) =
     map_option (\<lambda>bs. (w * 4 + x div 16) # ((x mod 16) * 16 + y div 4) # ((y mod 4) * 64 + z) # bs) (b64_bytes s)"

definition b64_DecodeString :: "string \<Rightarrow> string option" where
  "b64_DecodeString s =
     (let cs = map b64_index (filter (\<lambda>c. c \<noteq> CHR 0x0A \<and> c \<noteq> CHR 0x0D) s)
      in if None \<in> set cs then None else map_option (map char_of) (b64_bytes (map the cs)))"

section \<open>Sessions\<close>

definition cookieName :: string where
  "cookieName = ''ll_session''"

text \<open>\<open>sessionDuration\<close> in seconds.\<close>

definition sessionDuration :: int where
  "sessionDuration = 30 * 24 * 3600"

type_synonym hmac = "string \<Rightarrow> string \<Rightarrow> string"

definition signSession :: "hmac \<Rightarrow> string \<Rightarrow> int \<Rightarrow> string" where
  "signSession hmac secret expiryUnix =
     (let exp = fmt_d expiryUnix; sig = hex_EncodeToString (hmac secret exp)
      in b64_EncodeToString (exp @ ''.'' @ sig))"

definition verifySession :: "hmac \<Rightarrow> int \<Rightarrow> string \<Rightarrow> string \<Rightarrow> bool" where
  "verifySession hmac now secret val =
     (case b64_DecodeString val of None \<Rightarrow> False
      | Some raw \<Rightarrow>
          let (exp, sig, ok) = Cut raw (CHR ''.'') in
          if \<not> ok then False
          else if sig \<noteq> hex_EncodeToString (hmac secret exp) then False
          else (case ParseInt exp of None \<Rightarrow> False | Some expUnix \<Rightarrow> now \<le> expUnix))"

section \<open>Requests\<close>

record request =
  q_Method :: string
  q_Path :: string
  q_RawQuery :: string
  q_Host :: string
  q_Header :: "string \<Rightarrow> string"
  q_Cookie :: "string option"

definition validBearer :: "request \<Rightarrow> string \<Rightarrow> bool" where
  "validBearer r secret =
     (let auth = q_Header r ''Authorization'' in
      if \<not> HasPrefix auth ''Bearer '' then False else TrimPrefix auth ''Bearer '' = secret)"

definition isAuthExempt :: "request \<Rightarrow> bool" where
  "isAuthExempt r =
     (if q_Method r = ''GET'' \<and> q_Path r = ''/healthz'' then True
      else if (q_Method r = ''GET'' \<or> q_Method r = ''POST'') \<and> q_Path r = ''/login'' then True
      else if q_Method r = ''GET'' \<and> HasPrefix (q_Path r) ''/static/'' then True
      else False)"

definition isMutating :: "string \<Rightarrow> bool" where
  "isMutating m = (m = ''POST'' \<or> m = ''PUT'' \<or> m = ''PATCH'' \<or> m = ''DELETE'')"

definition sameOriginRequest :: "(string \<Rightarrow> string option) \<Rightarrow> request \<Rightarrow> bool" where
  "sameOriginRequest origin_host r =
     (if q_Header r ''Sec-Fetch-Site'' \<noteq> []
      then q_Header r ''Sec-Fetch-Site'' = ''same-origin'' \<or> q_Header r ''Sec-Fetch-Site'' = ''none''
      else if q_Header r ''Origin'' \<noteq> []
      then (case origin_host (q_Header r ''Origin'') of None \<Rightarrow> False | Some host \<Rightarrow> host = q_Host r)
      else True)"

definition safeNext :: "string \<Rightarrow> string" where
  "safeNext nxt =
     (if nxt = [] \<or> \<not> HasPrefix nxt ''/'' \<or> HasPrefix nxt ''//'' \<or> CHR 0x5C \<in> set nxt
      then ''/'' else nxt)"

definition requestedNext :: "request \<Rightarrow> string" where
  "requestedNext r = safeNext (q_Path r @ (if q_RawQuery r \<noteq> [] then ''?'' @ q_RawQuery r else []))"

definition upper_hex :: "nat \<Rightarrow> char" where
  "upper_hex n = ''0123456789ABCDEF'' ! n"

definition unreserved :: "char \<Rightarrow> bool" where
  "unreserved c \<longleftrightarrow> c \<in> set ''ABCDEFGHIJKLMNOPQRSTUVWXYZabcdefghijklmnopqrstuvwxyz0123456789-_.~''"

definition QueryEscape :: "string \<Rightarrow> string" where
  "QueryEscape s = concat (map (\<lambda>c. if unreserved c then [c] else if c = CHR '' '' then ''+''
     else [CHR ''%'', upper_hex (of_char c div 16), upper_hex (of_char c mod 16)]) s)"

section \<open>The middleware\<close>

datatype gate =
    Serve
  | Unauthorized
  | HXLogin
  | LoginRedirect string
  | Forbidden

definition authMiddleware :: "hmac \<Rightarrow> (string \<Rightarrow> string option) \<Rightarrow> int \<Rightarrow> string \<Rightarrow> request \<Rightarrow> gate" where
  "authMiddleware hmac origin_host now secret r =
     (if isAuthExempt r then Serve
      else if q_Header r ''Authorization'' \<noteq> [] then
        (if \<not> validBearer r secret then Unauthorized else Serve)
      else
        let authed = (case q_Cookie r of None \<Rightarrow> False | Some c \<Rightarrow> verifySession hmac now secret c) in
        if \<not> authed then
          (if q_Header r ''HX-Request'' \<noteq> [] then HXLogin
           else LoginRedirect (''/login?next='' @ QueryEscape (requestedNext r)))
        else if isMutating (q_Method r) \<and> \<not> sameOriginRequest origin_host r then Forbidden
        else Serve)"

section \<open>Login and logout\<close>

text \<open>A login answers with the form (status, next, message), or sets the session cookie (value, expiry in
  Unix seconds, secure flag) and redirects; a logout clears the cookie.\<close>

datatype login_response =
    LoginForm nat string string
  | LoggedIn string int bool string

definition loginPage :: "string \<Rightarrow> login_response" where
  "loginPage nxt = LoginForm 200 (safeNext nxt) []"

text \<open>\<open>form\<close> is \<open>None\<close> when it cannot be parsed, else the values \<open>next\<close> and \<open>password\<close>.\<close>

definition loginSubmit :: "hmac \<Rightarrow> int \<Rightarrow> string \<Rightarrow> bool \<Rightarrow> (string \<times> string) option \<Rightarrow> login_response" where
  "loginSubmit hmac now secret secureCookies form =
     (case form of
        None \<Rightarrow> LoginForm 400 (safeNext []) ''Bad request.''
      | Some (formNext, password) \<Rightarrow>
          let nxt = safeNext formNext in
          if password \<noteq> secret then LoginForm 401 (safeNext nxt) ''Incorrect password.''
          else let expiry = now + sessionDuration
               in LoggedIn (signSession hmac secret expiry) expiry secureCookies nxt)"

definition logout :: "request \<Rightarrow> string option \<times> string" where
  "logout r = (None, ''/login'')"


section \<open>The encoding\<close>

lemma b64_index_char: "n < 64 \<Longrightarrow> b64_index (b64_char n) = Some n"
proof -
  have d: "distinct b64_alphabet" and l: "length b64_alphabet = 64" by code_simp+
  have "takeWhile (\<lambda>x. x \<noteq> xs ! n) xs = take n xs" if "distinct xs" "n < length xs" for xs :: string and n
    using that
  proof (induction xs arbitrary: n)
    case (Cons x xs)
    then show ?case by (cases n) (auto simp: nth_mem)
  qed simp
  from this [OF d] show "n < 64 \<Longrightarrow> b64_index (b64_char n) = Some n"
    by (simp add: b64_index_def b64_char_def l Let_def)
qed

lemma b64_char_plain: "n < 64 \<Longrightarrow> b64_char n \<noteq> CHR 0x0A \<and> b64_char n \<noteq> CHR 0x0D"
proof -
  have "list_all (\<lambda>c. c \<noteq> CHR 0x0A \<and> c \<noteq> CHR 0x0D) b64_alphabet" and "length b64_alphabet = 64" by code_simp+
  then show "n < 64 \<Longrightarrow> b64_char n \<noteq> CHR 0x0A \<and> b64_char n \<noteq> CHR 0x0D"
    by (simp add: b64_char_def list_all_length)
qed

lemma byte_parts: "b < 256 \<Longrightarrow> b div 4 < 64 \<and> b div 16 < 16 \<and> b div 64 < (4 :: nat)"
  by (simp add: less_mult_imp_div_less)

lemma byte_mods: "b mod 4 < 4 \<and> b mod 16 < 16 \<and> b mod 64 < (64 :: nat)"
  by simp

lemma join_parts:
  "r < k \<Longrightarrow> (q * k + r) div k = (q :: nat)" "r < k \<Longrightarrow> (q * k + r) mod k = (r :: nat)"
  by (simp_all add: div_mult_self3)

lemma sextet_sums: "p < 4 \<Longrightarrow> q < 16 \<Longrightarrow> p * 16 + q < (64 :: nat)" "q < 16 \<Longrightarrow> p < 4 \<Longrightarrow> q * 4 + p < (64 :: nat)"
  by simp_all

lemma sextets_small:
  assumes "a < 256" and "b < 256" and "c < (256 :: nat)"
  shows "a div 4 < 64" "(a mod 4) * 16 < 64" "(a mod 4) * 16 + b div 16 < 64"
    "(b mod 16) * 4 < 64" "(b mod 16) * 4 + c div 64 < 64" "c mod 64 < 64"
  using byte_parts assms sextet_sums(1) [of "a mod 4" 0] sextet_sums(1) [of "a mod 4" "b div 16"]
    sextet_sums(2) [of "b mod 16" 0] sextet_sums(2) [of "b mod 16" "c div 64"]
  by (simp_all only: byte_mods add_0_right zero_less_numeral)

lemma b64_sextets_small: "\<forall>b \<in> set bs. b < 256 \<Longrightarrow> \<forall>n \<in> set (b64_sextets bs). n < 64"
proof (induction bs rule: b64_sextets.induct)
  case (2 a)
  then show ?case using sextets_small [of a 0 0] by simp
next
  case (3 a b)
  then show ?case using sextets_small [of a b 0] by simp
next
  case (4 a b c s)
  then show ?case using sextets_small [of a b c] by simp
qed simp

lemma b64_bytes_sextets: "\<forall>b \<in> set bs. b < 256 \<Longrightarrow> b64_bytes (b64_sextets bs) = Some bs"
proof (induction bs rule: b64_sextets.induct)
  case (2 a)
  then show ?case by simp
next
  case (3 a b)
  then have "b div 16 < 16" using byte_parts by simp
  then show ?case by (simp add: join_parts)
next
  case (4 a b c s)
  then have "b div 16 < 16" "c div 64 < 4" using byte_parts [of b] byte_parts [of c] by simp_all
  then show ?case using 4 by (simp add: join_parts)
qed simp

lemma b64_roundtrip: "b64_DecodeString (b64_EncodeToString s) = Some s"
proof -
  let ?ns = "b64_sextets (map of_char s)"
  have bytes: "\<forall>b \<in> set (map of_char s :: nat list). b < 256" by (auto simp: nat_of_char_less_256)
  then have small: "n < 64" if "n \<in> set ?ns" for n using b64_sextets_small that by blast
  have "filter (\<lambda>c. c \<noteq> CHR 0x0A \<and> c \<noteq> CHR 0x0D) (b64_EncodeToString s) = b64_EncodeToString s"
    unfolding b64_EncodeToString_def filter_id_conv using small b64_char_plain by auto
  moreover have "map b64_index (b64_EncodeToString s) = map Some ?ns"
    unfolding b64_EncodeToString_def map_map using small by (intro map_cong) (auto simp: b64_index_char)
  ultimately show ?thesis
    by (simp add: b64_DecodeString_def Let_def b64_bytes_sextets [OF bytes] comp_def image_iff)
qed


section \<open>Sessions\<close>

lemma fmt_d_plain: "c \<in> set (fmt_d x) \<Longrightarrow> c = CHR ''-'' \<or> is_digit c"
  by (auto simp: fmt_d_def dest: dec_digits split: if_splits)

lemma fmt_d_no_dot: "CHR ''.'' \<notin> set (fmt_d x)"
  using fmt_d_plain [of "CHR ''.''" x] by (auto simp: is_digit_def digit_val_def)

lemma ParseInt_fmt_d: "in64 x \<Longrightarrow> ParseInt (fmt_d x) = Some x"
  using Atoi_fmt_d by (simp add: Atoi_def)

lemma verify_sign:
  "in64 e \<Longrightarrow> verifySession hmac now secret (signSession hmac secret e) \<longleftrightarrow> now \<le> e"
  using Cut_found [OF fmt_d_no_dot, of e "hex_EncodeToString (hmac secret (fmt_d e))"]
  by (simp add: verifySession_def signSession_def Let_def b64_roundtrip ParseInt_fmt_d)

lemma ParseInt_no_dot: "ParseInt s = Some x \<Longrightarrow> CHR ''.'' \<notin> set s"
  by (auto simp: ParseInt_def parse_digits_def Let_def list_all_iff is_digit_def digit_val_def
      split: list.splits option.splits if_splits)

text \<open>What a valid session is: an expiry that has not passed, with the keyed digest of its own text.\<close>

definition valid_session :: "hmac \<Rightarrow> int \<Rightarrow> string \<Rightarrow> string \<Rightarrow> bool" where
  "valid_session hmac now secret val \<longleftrightarrow> (\<exists>exp n.
     b64_DecodeString val = Some (exp @ ''.'' @ hex_EncodeToString (hmac secret exp)) \<and>
     ParseInt exp = Some n \<and> now \<le> n)"

lemma Cut_eq: "Cut s c = (a, b, True) \<Longrightarrow> s = a @ c # b"
proof -
  assume "Cut s c = (a, b, True)"
  then have "c \<in> set s" "a = takeWhile (\<lambda>x. x \<noteq> c) s" "b = tl (dropWhile (\<lambda>x. x \<noteq> c) s)"
    by (auto simp: Cut_def split: if_splits)
  moreover from this(1) have "dropWhile (\<lambda>x. x \<noteq> c) s = c # tl (dropWhile (\<lambda>x. x \<noteq> c) s)"
    by (induction s) auto
  ultimately show "s = a @ c # b" by (metis takeWhile_dropWhile_id)
qed

lemma verifySession_iff: "verifySession hmac now secret val \<longleftrightarrow> valid_session hmac now secret val"
proof
  assume v: "verifySession hmac now secret val"
  then obtain raw exp sig where raw: "b64_DecodeString val = Some raw" "Cut raw (CHR ''.'') = (exp, sig, True)"
      "sig = hex_EncodeToString (hmac secret exp)" "\<exists>n. ParseInt exp = Some n \<and> now \<le> n"
    by (auto simp: verifySession_def Let_def split: option.splits prod.splits if_splits)
  then show "valid_session hmac now secret val"
    using Cut_eq [OF raw(2)] by (auto simp: valid_session_def)
next
  assume "valid_session hmac now secret val"
  then obtain exp n where e: "b64_DecodeString val = Some (exp @ ''.'' @ hex_EncodeToString (hmac secret exp))"
      "ParseInt exp = Some n" "now \<le> n" by (auto simp: valid_session_def)
  then show "verifySession hmac now secret val"
    using Cut_found [OF ParseInt_no_dot [OF e(2)], of "hex_EncodeToString (hmac secret exp)"]
    by (simp add: verifySession_def)
qed

lemma HasPrefix_drop: "HasPrefix s p \<longleftrightarrow> s = p @ drop (length p) s"
  unfolding HasPrefix_def by (metis append_take_drop_id same_append_eq append_eq_conv_conj)

lemma prefix_rest: "(if \<not> HasPrefix s p then False else TrimPrefix s p = x) \<longleftrightarrow> s = p @ x"
  using HasPrefix_drop [of s p] by (auto simp: TrimPrefix_def HasPrefix_def)

lemma validBearer_iff: "validBearer r secret \<longleftrightarrow> q_Header r ''Authorization'' = ''Bearer '' @ secret"
  unfolding validBearer_def Let_def by (rule prefix_rest)

lemma exempt_mutating: "isAuthExempt r \<Longrightarrow> isMutating (q_Method r) \<Longrightarrow> q_Method r = ''POST'' \<and> q_Path r = ''/login''"
  by (auto simp: isAuthExempt_def isMutating_def split: if_splits)

lemma header_cases:
  "b \<noteq> [] \<Longrightarrow> (E \<or> (a \<noteq> [] \<and> a = b) \<or> (a = [] \<and> X)) \<longleftrightarrow> (E \<or> a = b \<or> (a = [] \<and> X))"
  by auto

text \<open>C38: The gate serves a request exactly when it is the health check, the login page or a static file, or
  carries the secret as its bearer token, or carries no authorization but an unexpired session signed
  with the secret and, if its method changes state, comes from the same origin.  So a request that
  changes state is served without the secret or a session in one case only, the login itself.\<close>
theorem gate_safe:
  "(authMiddleware hmac origin_host now secret r = Serve \<longleftrightarrow>
      isAuthExempt r \<or> q_Header r ''Authorization'' = ''Bearer '' @ secret \<or>
      (q_Header r ''Authorization'' = [] \<and> (\<exists>c. q_Cookie r = Some c \<and> valid_session hmac now secret c) \<and>
       (\<not> isMutating (q_Method r) \<or> sameOriginRequest origin_host r))) \<and>
   (isAuthExempt r \<and> isMutating (q_Method r) \<longrightarrow> q_Method r = ''POST'' \<and> q_Path r = ''/login'')"
proof
  let ?a = "q_Header r ''Authorization''"
  let ?authed = "case q_Cookie r of None \<Rightarrow> False | Some c \<Rightarrow> verifySession hmac now secret c"
  have gate: "authMiddleware hmac origin_host now secret r = Serve \<longleftrightarrow>
      isAuthExempt r \<or> (?a \<noteq> [] \<and> validBearer r secret) \<or>
      (?a = [] \<and> ?authed \<and> (\<not> isMutating (q_Method r) \<or> sameOriginRequest origin_host r))"
    unfolding authMiddleware_def Let_def
    by (cases "isAuthExempt r"; cases "?a = []"; cases "validBearer r secret"; cases ?authed) simp_all
  have ne: "''Bearer '' @ secret \<noteq> []" by simp
  have authed: "?authed \<longleftrightarrow> (\<exists>c. q_Cookie r = Some c \<and> valid_session hmac now secret c)"
    by (simp add: verifySession_iff split: option.split)
  show "authMiddleware hmac origin_host now secret r = Serve \<longleftrightarrow>
      isAuthExempt r \<or> ?a = ''Bearer '' @ secret \<or>
      (?a = [] \<and> (\<exists>c. q_Cookie r = Some c \<and> valid_session hmac now secret c) \<and>
       (\<not> isMutating (q_Method r) \<or> sameOriginRequest origin_host r))"
    unfolding gate validBearer_iff authed by (rule header_cases [OF ne])
  show "isAuthExempt r \<and> isMutating (q_Method r) \<longrightarrow> q_Method r = ''POST'' \<and> q_Path r = ''/login''"
    using exempt_mutating [of r] by blast
qed

definition sample_request :: request where
  "sample_request = \<lparr>q_Method = ''DELETE'', q_Path = ''/trips/1'', q_RawQuery = [], q_Host = ''h'',
     q_Header = (\<lambda>_. [])(''Sec-Fetch-Site'' := ''cross-site''), q_Cookie = Some (signSession (\<lambda>k m. k) ''s'' 9)\<rparr>"

theorem gate_safe_witness:
  "authMiddleware (\<lambda>k m. k) (\<lambda>_. None) 5 ''s'' sample_request \<noteq> Serve \<and>
   authMiddleware (\<lambda>k m. k) (\<lambda>_. None) 5 ''s'' (sample_request\<lparr>q_Header := (\<lambda>_. [])\<rparr>) = Serve"
proof -
  have v: "valid_session (\<lambda>k m. k) 5 ''s'' (signSession (\<lambda>k m. k) ''s'' 9)"
    by (subst verifySession_iff [symmetric], subst verify_sign) (simp_all add: in64_def)
  let ?r = sample_request and ?r' = "sample_request\<lparr>q_Header := (\<lambda>_. [])\<rparr>"
  have r: "\<not> isAuthExempt ?r" "isMutating (q_Method ?r)" "\<not> sameOriginRequest (\<lambda>_. None) ?r"
      "q_Header ?r ''Authorization'' \<noteq> ''Bearer '' @ ''s''"
    by (simp_all add: sample_request_def isAuthExempt_def isMutating_def sameOriginRequest_def HasPrefix_def)
  have r': "q_Header ?r' ''Authorization'' = []" "sameOriginRequest (\<lambda>_. None) ?r'"
      "q_Cookie ?r' = Some (signSession (\<lambda>k m. k) ''s'' 9)"
    by (simp_all add: sample_request_def sameOriginRequest_def)
  show ?thesis
    using gate_safe [of "\<lambda>k m. k" "\<lambda>_. None" 5 "''s''" ?r]
      gate_safe [of "\<lambda>k m. k" "\<lambda>_. None" 5 "''s''" ?r'] r r' v by blast
qed


section \<open>Login\<close>

lemma safeNext_relative:
  "\<exists>rest. safeNext n = CHR ''/'' # rest \<and> (rest = [] \<or> hd rest \<noteq> CHR ''/'') \<and> CHR 0x5C \<notin> set (safeNext n)"
proof (cases "n = [] \<or> \<not> HasPrefix n ''/'' \<or> HasPrefix n ''//'' \<or> CHR 0x5C \<in> set n")
  case True
  then have "safeNext n = ''/''" by (auto simp: safeNext_def)
  then show ?thesis by simp
next
  case False
  then have "safeNext n = n" by (simp add: safeNext_def)
  moreover obtain rest where "n = CHR ''/'' # rest"
    using False by (cases n) (auto simp: HasPrefix_def)
  ultimately show ?thesis using False by (cases rest) (auto simp: HasPrefix_def)
qed

text \<open>A tab after the first slash is let through; a browser that strips it reads the target as
  \<open>//evil.com\<close>.\<close>

lemma safeNext_tab: "safeNext (''/'' @ [CHR 0x09] @ ''/evil.com'') = ''/'' @ [CHR 0x09] @ ''/evil.com''"
  by code_simp



end
