(* ===== verification/Handlers.thy ===== *)
theory Handlers
  imports TripView CostCache Auth
begin

text \<open>
  \<open>internal/web/handlers.go\<close>: the handlers of the trip pages and of the filter panels.  A handler takes a
  request and the state of the web process and answers a response and the state after it.  What the
  process does not decide itself is in \<open>env\<close>: the point charts it was started with, the clock at the two
  readings of the cost cache, whether that cache's query and the write of the configuration file succeed,
  the transactions of others that interfere with a booking, the current date, and the texts of error values.  A failing
  connection, a failing template and the rendered HTML are not modelled: a response holds the data its
  template is given.  A panic inside a handler aborts the connection (\<open>Aborted\<close>) and keeps what was committed
  before it.
\<close>

section \<open>Requests, responses and the state\<close>

record http_request = request +
  q_FormErr :: "error option"
  q_FormValue :: "string \<Rightarrow> string"
  q_PathValue :: "string \<Rightarrow> string"
  q_Query :: "string \<Rightarrow> string"

datatype response =
    NotFound
  | HttpError nat string
  | SeeOther string
  | HxRedirect string
  | TripsPage trip_list_view
  | TripNewForm
  | TripPage trip_view
  | TripFragment trip_view
  | FiltersPanel filters_view
  | FiltersTripToggle filters_view trip_view
  | FiltersToggle filters_view trip_list_view
  | PanelEmpty
  | Aborted

record web =
  w_db :: db
  w_global :: global_filters
  w_costs :: cost_provider

record env =
  v_charts :: "resort_chart list"
  v_now1 :: int
  v_now2 :: int
  v_fetch_ok :: bool
  v_save_ok :: bool
  v_tx :: "nat \<Rightarrow> db \<Rightarrow> db \<times> bool"
  v_today :: date
  v_errText :: "error \<Rightarrow> string"

section \<open>The trip list\<close>

definition costBasis :: "env \<Rightarrow> web \<Rightarrow> (cost_basis \<times> bool) \<times> web" where
  "costBasis v w =
     (let ((basis, ok), p) = Basis (if v_fetch_ok v then Some (CostBasis (w_db w)) else None)
            (v_now1 v) (v_now2 v) (w_costs w)
      in ((basis, ok \<and> Known basis), w\<lparr>w_costs := p\<rparr>))"

definition buildTripListView :: "env \<Rightarrow> trip list \<Rightarrow> web \<Rightarrow> trip_list_view \<times> web" where
  "buildTripListView v ts w =
     (let ((basis, showCosts), w1) = costBasis v w;
          month = UseYearMonth basis
      in (\<lparr>tl_Trips = map (\<lambda>t. buildTripRowView t (ListStays (t_ID t) (w_db w)) month basis showCosts) ts,
           tl_Err = []\<rparr>, w1))"

definition renderTripList :: "env \<Rightarrow> string \<Rightarrow> web \<Rightarrow> response \<times> web" where
  "renderTripList v errMsg w =
     (let (view, w1) = buildTripListView v (ListTrips (w_db w)) w
      in (TripsPage (view\<lparr>tl_Err := errMsg\<rparr>), w1))"

definition tripList :: "env \<Rightarrow> http_request \<Rightarrow> web \<Rightarrow> response \<times> web" where
  "tripList v r w = (if q_Path r \<noteq> ''/'' then (NotFound, w) else renderTripList v [] w)"

definition newTripForm :: "http_request \<Rightarrow> web \<Rightarrow> response \<times> web" where
  "newTripForm r w = (TripNewForm, w)"

definition parseTripForm :: "http_request \<Rightarrow> trip result" where
  "parseTripForm r =
     (case q_FormErr r of Some e \<Rightarrow> Inl e | None \<Rightarrow>
        let name = TrimSpace (q_FormValue r ''name'') in
        if name = [] then Inl (ErrInput ''name is required'')
        else (case ParseDate (q_FormValue r ''from'') of None \<Rightarrow> Inl (ErrInput ''invalid date'') | Some from_date \<Rightarrow>
        (case ParseDate (q_FormValue r ''to'') of None \<Rightarrow> Inl (ErrInput ''invalid date'') | Some to_date \<Rightarrow>
        if \<not> from_date < to_date then Inl (ErrInput ''start date must be before end date'')
        else (case Atoi (q_FormValue r ''min_nights'') of None \<Rightarrow> Inl (ErrInput ''invalid min nights'') | Some minNights \<Rightarrow>
        if minNights < 1 then Inl (ErrInput ''min nights must be at least 1'')
        else if minNights > MaxNights then Inl (ErrInput ''min nights exceeds the limit'')
        else Inr \<lparr>t_ID = 0, t_Name = name, t_StartDate = from_date, t_EndDate = to_date, t_MinNights = minNights,
               t_BudgetOverride = None, t_FilterMode = '''', t_ExcludeResorts = [], t_ExcludeRoomTypes = []\<rparr>))))"

definition createTrip :: "env \<Rightarrow> http_request \<Rightarrow> web \<Rightarrow> response \<times> web" where
  "createTrip v r w =
     (case parseTripForm r of
        Inl e \<Rightarrow> renderTripList v (v_errText v e) w
      | Inr t \<Rightarrow>
          (case AddTrip t (w_db w) of
             Inl e \<Rightarrow> renderTripList v (v_errText v e) w
           | Inr (i, d) \<Rightarrow> (SeeOther (''/trips/'' @ fmt_d i), w\<lparr>w_db := d\<rparr>)))"

section \<open>One trip\<close>

definition tripID :: "http_request \<Rightarrow> response + int" where
  "tripID r = (case ParseInt (q_PathValue r ''id'') of
      None \<Rightarrow> Inl (HttpError 400 ''bad trip id'') | Some i \<Rightarrow> Inr i)"

definition tripFilterSet :: "trip \<Rightarrow> filter_set" where
  "tripFilterSet t = \<lparr>f_ExcludeResorts = t_ExcludeResorts t, f_ExcludeRoomTypes = t_ExcludeRoomTypes t\<rparr>"

definition searchTrip :: "env \<Rightarrow> trip \<Rightarrow> int \<Rightarrow> web \<Rightarrow> stay_result list option" where
  "searchTrip v t budget w =
     (let filters = EffectiveFilters (global_Get (w_global w)) (t_FilterMode t)
            \<lparr>f_ExcludeResorts = t_ExcludeResorts t, f_ExcludeRoomTypes = t_ExcludeRoomTypes t\<rparr>
      in Search (v_charts v) \<lparr>WindowStart = t_StartDate t, WindowEnd = t_EndDate t, Budget = budget,
           MinNights = t_MinNights t, ExcludeResorts = f_ExcludeResorts filters,
           ExcludeRoomTypes = f_ExcludeRoomTypes filters\<rparr>)"

text \<open>The outer option is the panic of a search, the inner value the error of a funding preview.\<close>

definition buildTripPageView :: "env \<Rightarrow> trip \<Rightarrow> string \<Rightarrow> web \<Rightarrow> trip_view result option \<times> web" where
  "buildTripPageView v t errMsg w =
     (let sts = ListStays (t_ID t) (w_db w);
          budget = TripBudget (w_db w) (t_StartDate t);
          ((basis, showCosts), w1) = costBasis v w;
          month = UseYearMonth basis
      in (case searchTrip v t (searchBudgetFor t budget sts) w1 of
            None \<Rightarrow> (None, w1)
          | Some results \<Rightarrow>
              let (_, anyUnbooked) = stayBookingStatus sts;
                  funding = (if anyUnbooked then PreviewTripFunding sts (w_db w1)
                             else Inr \<lparr>tp_Stays = [], tp_Fundable = False\<rparr>)
              in (Some (and_then funding (\<lambda>f.
                    Inr ((buildTripView t sts budget results month basis showCosts f)\<lparr>tv_Err := errMsg\<rparr>))), w1)))"

text \<open>The common tail of the handlers that show a trip.\<close>

fun page_response :: "env \<Rightarrow> (trip_view \<Rightarrow> response) \<Rightarrow> trip_view result option \<times> web \<Rightarrow> response \<times> web" where
  "page_response v f (None, w) = (Aborted, w)"
| "page_response v f (Some (Inl e), w) = (HttpError 500 (v_errText v e), w)"
| "page_response v f (Some (Inr view), w) = (f view, w)"

definition getTripOr404 :: "env \<Rightarrow> int \<Rightarrow> web \<Rightarrow> response + trip" where
  "getTripOr404 v i w =
     (case GetTrip i (w_db w) of
        Inr t \<Rightarrow> Inr t
      | Inl e \<Rightarrow> Inl (if e = ErrTripNotFound then NotFound else HttpError 500 (v_errText v e)))"

definition renderTripFragment :: "env \<Rightarrow> int \<Rightarrow> web \<Rightarrow> response \<times> web" where
  "renderTripFragment v i w =
     (case getTripOr404 v i w of Inl resp \<Rightarrow> (resp, w)
      | Inr t \<Rightarrow> page_response v TripFragment (buildTripPageView v t [] w))"

definition tripPage :: "env \<Rightarrow> http_request \<Rightarrow> web \<Rightarrow> response \<times> web" where
  "tripPage v r w =
     (case tripID r of Inl resp \<Rightarrow> (resp, w) | Inr i \<Rightarrow>
     (case getTripOr404 v i w of Inl resp \<Rightarrow> (resp, w)
      | Inr t \<Rightarrow> page_response v TripPage (buildTripPageView v t [] w)))"

definition updateTrip :: "env \<Rightarrow> http_request \<Rightarrow> web \<Rightarrow> response \<times> web" where
  "updateTrip v r w =
     (case tripID r of Inl resp \<Rightarrow> (resp, w) | Inr i \<Rightarrow>
     (case getTripOr404 v i w of Inl resp \<Rightarrow> (resp, w) | Inr existing \<Rightarrow>
     (case parseTripForm r of
        Inl e \<Rightarrow> page_response v TripFragment (buildTripPageView v existing (v_errText v e) w)
      | Inr form \<Rightarrow>
          let edited = form\<lparr>t_ID := t_ID existing, t_BudgetOverride := t_BudgetOverride existing,
                t_FilterMode := t_FilterMode existing, t_ExcludeResorts := t_ExcludeResorts existing,
                t_ExcludeRoomTypes := t_ExcludeRoomTypes existing\<rparr>
          in (case UpdateTrip edited (w_db w) of
                Inl e \<Rightarrow> (HttpError 500 (v_errText v e), w)
              | Inr d \<Rightarrow> renderTripFragment v i (w\<lparr>w_db := d\<rparr>)))))"

section \<open>The budget override\<close>

definition parseBudgetOverride :: "http_request \<Rightarrow> int result" where
  "parseBudgetOverride r =
     (case q_FormErr r of Some e \<Rightarrow> Inl e | None \<Rightarrow>
     (case Atoi (TrimSpace (q_FormValue r ''budget'')) of
        None \<Rightarrow> Inl (ErrInput ''invalid budget'')
      | Some n \<Rightarrow> if n < 0 then Inl (ErrInput ''budget must not be negative'') else Inr n))"

definition save_and_show :: "env \<Rightarrow> int \<Rightarrow> trip \<Rightarrow> web \<Rightarrow> response \<times> web" where
  "save_and_show v i t w =
     (case UpdateTrip t (w_db w) of
        Inl e \<Rightarrow> (HttpError 500 (v_errText v e), w)
      | Inr d \<Rightarrow> renderTripFragment v i (w\<lparr>w_db := d\<rparr>))"

definition setBudgetOverride :: "env \<Rightarrow> http_request \<Rightarrow> web \<Rightarrow> response \<times> web" where
  "setBudgetOverride v r w =
     (case tripID r of Inl resp \<Rightarrow> (resp, w) | Inr i \<Rightarrow>
     (case getTripOr404 v i w of Inl resp \<Rightarrow> (resp, w) | Inr t \<Rightarrow>
     (case parseBudgetOverride r of
        Inl e \<Rightarrow> page_response v TripFragment (buildTripPageView v t (v_errText v e) w)
      | Inr n \<Rightarrow> save_and_show v i (t\<lparr>t_BudgetOverride := Some n\<rparr>) w)))"

definition clearBudgetOverride :: "env \<Rightarrow> http_request \<Rightarrow> web \<Rightarrow> response \<times> web" where
  "clearBudgetOverride v r w =
     (case tripID r of Inl resp \<Rightarrow> (resp, w) | Inr i \<Rightarrow>
     (case getTripOr404 v i w of Inl resp \<Rightarrow> (resp, w) | Inr t \<Rightarrow>
        save_and_show v i (t\<lparr>t_BudgetOverride := None\<rparr>) w))"

section \<open>Stays and bookings\<close>

definition stay_of_result :: "int \<Rightarrow> stay_result \<Rightarrow> stay_row" where
  "stay_of_result i res =
     \<lparr>st_ID = 0, st_TripID = i, st_Resort = r_Resort res, st_RoomType = r_RoomType res, st_View = r_View res,
      st_CheckIn = r_CheckIn res, st_CheckOut = r_CheckOut res, st_Nights = r_Nights res, st_Points = r_Points res,
      st_QuoteHash = []\<rparr>"

definition addStay :: "env \<Rightarrow> http_request \<Rightarrow> web \<Rightarrow> response \<times> web" where
  "addStay v r w =
     (case tripID r of Inl resp \<Rightarrow> (resp, w) | Inr i \<Rightarrow>
     (case getTripOr404 v i w of Inl resp \<Rightarrow> (resp, w) | Inr t \<Rightarrow>
       let sts = ListStays i (w_db w);
           budget = TripBudget (w_db w) (t_StartDate t)
       in (case searchTrip v t (searchBudgetFor t budget sts) w of
             None \<Rightarrow> (Aborted, w)
           | Some results \<Rightarrow>
               (case Atoi (q_PathValue r ''row'') of
                  None \<Rightarrow> (HttpError 400 ''invalid result row'', w)
                | Some row \<Rightarrow>
                    if row < 0 \<or> int (length results) \<le> row then (HttpError 400 ''invalid result row'', w)
                    else (case AddStay (stay_of_result i (results ! nat row)) (w_db w) of
                            Inl e \<Rightarrow> (HttpError 500 (v_errText v e), w)
                          | Inr (_, d) \<Rightarrow> renderTripFragment v i (w\<lparr>w_db := d\<rparr>))))))"

definition removeStay :: "env \<Rightarrow> http_request \<Rightarrow> web \<Rightarrow> response \<times> web" where
  "removeStay v r w =
     (case tripID r of Inl resp \<Rightarrow> (resp, w) | Inr i \<Rightarrow>
     (case ParseInt (q_PathValue r ''sid'') of
        None \<Rightarrow> (HttpError 400 ''bad stay id'', w)
      | Some sid \<Rightarrow>
          renderTripFragment v i (w\<lparr>w_db := DeleteStay sid (w_db w), w_costs := Invalidate (w_costs w)\<rparr>)))"

definition bookTrip :: "env \<Rightarrow> http_request \<Rightarrow> web \<Rightarrow> response \<times> web" where
  "bookTrip v r w =
     (case tripID r of Inl resp \<Rightarrow> (resp, w) | Inr i \<Rightarrow>
     (case getTripOr404 v i w of Inl resp \<Rightarrow> (resp, w) | Inr _ \<Rightarrow>
     (case BookTrip (v_tx v) i (w_db w) of
        (Some e, d) \<Rightarrow> (HttpError 500 (v_errText v e), w\<lparr>w_db := d\<rparr>)
      | (None, d) \<Rightarrow> renderTripFragment v i (w\<lparr>w_db := d, w_costs := Invalidate (w_costs w)\<rparr>))))"

definition unbookTrip :: "env \<Rightarrow> http_request \<Rightarrow> web \<Rightarrow> response \<times> web" where
  "unbookTrip v r w =
     (case tripID r of Inl resp \<Rightarrow> (resp, w) | Inr i \<Rightarrow>
     (case getTripOr404 v i w of Inl resp \<Rightarrow> (resp, w) | Inr _ \<Rightarrow>
        renderTripFragment v i (w\<lparr>w_db := UnbookTrip i (w_db w), w_costs := Invalidate (w_costs w)\<rparr>)))"

definition redirectHome :: "http_request \<Rightarrow> web \<Rightarrow> response \<times> web" where
  "redirectHome r w = (if q_Header r ''HX-Request'' \<noteq> [] then (HxRedirect ''/'', w) else (SeeOther ''/'', w))"

definition deleteTrip :: "http_request \<Rightarrow> web \<Rightarrow> response \<times> web" where
  "deleteTrip r w =
     (case tripID r of Inl resp \<Rightarrow> (resp, w)
      | Inr i \<Rightarrow> redirectHome r (w\<lparr>w_db := DeleteTrip i (w_db w)\<rparr>))"

section \<open>Filter panels\<close>

definition global_scope :: filter_scope where
  "global_scope = \<lparr>fs_IsTrip = False, fs_TripID = 0, fs_TripName = [], fs_Mode = []\<rparr>"

definition openFilters :: "env \<Rightarrow> http_request \<Rightarrow> web \<Rightarrow> response \<times> web" where
  "openFilters v r w =
     (let opts = FilterOptionsFor (v_charts v) (AsFilterSet (global_Get (w_global w)))
      in (FiltersPanel (toFiltersView opts global_scope), w))"

definition tripFilterScope :: "trip \<Rightarrow> filter_scope" where
  "tripFilterScope t = \<lparr>fs_IsTrip = True, fs_TripID = t_ID t, fs_TripName = t_Name t, fs_Mode = t_FilterMode t\<rparr>"

definition openTripFilters :: "env \<Rightarrow> http_request \<Rightarrow> web \<Rightarrow> response \<times> web" where
  "openTripFilters v r w =
     (case tripID r of Inl resp \<Rightarrow> (resp, w) | Inr i \<Rightarrow>
     (case getTripOr404 v i w of Inl resp \<Rightarrow> (resp, w) | Inr t \<Rightarrow>
       let filters = EffectiveFilters (global_Get (w_global w)) (t_FilterMode t) (tripFilterSet t);
           opts = FilterOptionsFor (v_charts v) filters
       in (FiltersPanel (toFiltersView opts (tripFilterScope t)), w)))"

definition renderTripFilterToggle :: "env \<Rightarrow> trip \<Rightarrow> web \<Rightarrow> response \<times> web" where
  "renderTripFilterToggle v t w =
     (let filters = EffectiveFilters (global_Get (w_global w)) (t_FilterMode t) (tripFilterSet t);
          opts = FilterOptionsFor (v_charts v) filters
      in page_response v (FiltersTripToggle (toFiltersView opts (tripFilterScope t)))
           (buildTripPageView v t [] w))"

definition save_and_toggle :: "env \<Rightarrow> trip \<Rightarrow> web \<Rightarrow> response \<times> web" where
  "save_and_toggle v t w =
     (case UpdateTrip t (w_db w) of
        Inl e \<Rightarrow> (HttpError 500 (v_errText v e), w)
      | Inr d \<Rightarrow> renderTripFilterToggle v t (w\<lparr>w_db := d\<rparr>))"

definition setTripFilterMode :: "env \<Rightarrow> http_request \<Rightarrow> web \<Rightarrow> response \<times> web" where
  "setTripFilterMode v r w =
     (case tripID r of Inl resp \<Rightarrow> (resp, w) | Inr i \<Rightarrow>
     (case getTripOr404 v i w of Inl resp \<Rightarrow> (resp, w) | Inr t \<Rightarrow>
     (case q_FormErr r of Some e \<Rightarrow> (HttpError 400 (v_errText v e), w) | None \<Rightarrow>
       if q_FormValue r ''mode'' = ''override'' then
         (let cloned = CloneFilterSet (AsFilterSet (global_Get (w_global w)))
          in save_and_toggle v (t\<lparr>t_FilterMode := TripFilterOverride,
               t_ExcludeResorts := f_ExcludeResorts cloned,
               t_ExcludeRoomTypes := f_ExcludeRoomTypes cloned\<rparr>) w)
       else if q_FormValue r ''mode'' = ''inherit'' then
         save_and_toggle v (t\<lparr>t_FilterMode := TripFilterInherit, t_ExcludeResorts := [], t_ExcludeRoomTypes := []\<rparr>) w
       else (HttpError 400 ''invalid mode'', w))))"

definition toggleTripFilter :: "env \<Rightarrow> int \<Rightarrow> (trip \<Rightarrow> trip) \<Rightarrow> web \<Rightarrow> response \<times> web" where
  "toggleTripFilter v i mutate w =
     (case getTripOr404 v i w of Inl resp \<Rightarrow> (resp, w) | Inr t \<Rightarrow>
       if t_FilterMode t \<noteq> FilterModeOverride
       then (HttpError 409 ''trip is inheriting global filters; switch to override to edit its filters'', w)
       else save_and_toggle v (mutate t) w)"

definition toggleTripResortFilter :: "env \<Rightarrow> http_request \<Rightarrow> web \<Rightarrow> response \<times> web" where
  "toggleTripResortFilter v r w =
     (case tripID r of Inl resp \<Rightarrow> (resp, w) | Inr i \<Rightarrow>
        toggleTripFilter v i (\<lambda>t. t\<lparr>t_ExcludeResorts := toggleString (t_ExcludeResorts t) (q_PathValue r ''code'')\<rparr>) w)"

definition toggleTripRoomTypeFilter :: "env \<Rightarrow> http_request \<Rightarrow> web \<Rightarrow> response \<times> web" where
  "toggleTripRoomTypeFilter v r w =
     (case tripID r of Inl resp \<Rightarrow> (resp, w) | Inr i \<Rightarrow>
        toggleTripFilter v i (\<lambda>t. t\<lparr>t_ExcludeRoomTypes := toggleString (t_ExcludeRoomTypes t) (q_PathValue r ''name'')\<rparr>) w)"

definition resetTripFilters :: "env \<Rightarrow> http_request \<Rightarrow> web \<Rightarrow> response \<times> web" where
  "resetTripFilters v r w =
     (case tripID r of Inl resp \<Rightarrow> (resp, w) | Inr i \<Rightarrow>
     (case getTripOr404 v i w of Inl resp \<Rightarrow> (resp, w) | Inr t \<Rightarrow>
        save_and_toggle v (t\<lparr>t_FilterMode := TripFilterInherit, t_ExcludeResorts := [], t_ExcludeRoomTypes := []\<rparr>) w))"

definition renderFilterToggle :: "env \<Rightarrow> web \<Rightarrow> response \<times> web" where
  "renderFilterToggle v w =
     (let opts = FilterOptionsFor (v_charts v) (AsFilterSet (global_Get (w_global w)));
          (listView, w1) = buildTripListView v (ListTrips (w_db w)) w
      in (FiltersToggle (toFiltersView opts global_scope) listView, w1))"

definition toggleResortFilter :: "env \<Rightarrow> http_request \<Rightarrow> web \<Rightarrow> response \<times> web" where
  "toggleResortFilter v r w =
     (case ToggleResort (v_save_ok v) (q_PathValue r ''code'') (w_global w) of
        (Some e, g) \<Rightarrow> (HttpError 500 (v_errText v e), w\<lparr>w_global := g\<rparr>)
      | (None, g) \<Rightarrow> renderFilterToggle v (w\<lparr>w_global := g\<rparr>))"

definition toggleRoomTypeFilter :: "env \<Rightarrow> http_request \<Rightarrow> web \<Rightarrow> response \<times> web" where
  "toggleRoomTypeFilter v r w =
     (case ToggleRoomType (v_save_ok v) (q_PathValue r ''name'') (w_global w) of
        (Some e, g) \<Rightarrow> (HttpError 500 (v_errText v e), w\<lparr>w_global := g\<rparr>)
      | (None, g) \<Rightarrow> renderFilterToggle v (w\<lparr>w_global := g\<rparr>))"

definition closePanel :: "http_request \<Rightarrow> web \<Rightarrow> response \<times> web" where
  "closePanel r w = (PanelEmpty, w)"

end
