(* ===== verification/LedgerHandlers.thy ===== *)
theory LedgerHandlers
  imports Handlers
begin

text \<open>
  \<open>internal/web/ledger_handlers.go\<close>: the handlers of the \<open>/ledger\<close> pages, over the same state and
  environment as the trip handlers.  The mutex makes the handlers sequential, so one handler is one
  step.  The lemmas show that what a page shows in its edit form is read back as the contract it shows,
  and which handlers drop the cached cost basis.
\<close>

section \<open>Views and responses\<close>

datatype ledgerViewKind = ledgerViewRecent | ledgerViewHistory | ledgerViewContracts

definition parseLedgerViewKind :: "string \<Rightarrow> ledgerViewKind" where
  "parseLedgerViewKind s =
     (if s = ''history'' then ledgerViewHistory else if s = ''contracts'' then ledgerViewContracts
      else ledgerViewRecent)"

definition viewFromRequest :: "http_request \<Rightarrow> ledgerViewKind" where
  "viewFromRequest r = parseLedgerViewKind (q_Query r ''view'')"

fun bodyTemplateName :: "ledgerViewKind \<Rightarrow> string" where
  "bodyTemplateName ledgerViewHistory = ''history_body''"
| "bodyTemplateName ledgerViewContracts = ''contracts_body''"
| "bodyTemplateName ledgerViewRecent = ''recent_body''"

record ledger_page_data =
  pd_view :: ledger_view
  pd_View :: ledgerViewKind

datatype ledger_response =
    LedgerTemplate string ledger_page_data
  | LedgerHttpError nat string

definition renderBody :: "env \<Rightarrow> ledgerViewKind \<Rightarrow> int \<Rightarrow> int \<Rightarrow> string \<Rightarrow> web \<Rightarrow> ledger_response \<times> web" where
  "renderBody v view editID editContractID errMsg w =
     (let lv = buildLedgerView (w_db w) (v_today v) editID editContractID errMsg
      in (LedgerTemplate (bodyTemplateName view) \<lparr>pd_view = lv, pd_View = view\<rparr>, w))"

definition renderPage :: "env \<Rightarrow> ledgerViewKind \<Rightarrow> int \<Rightarrow> web \<Rightarrow> ledger_response \<times> web" where
  "renderPage v view editContractID w =
     (let lv = buildLedgerView (w_db w) (v_today v) 0 editContractID []
      in (LedgerTemplate ''ledger_page'' \<lparr>pd_view = lv, pd_View = view\<rparr>, w))"

definition page :: "env \<Rightarrow> http_request \<Rightarrow> web \<Rightarrow> ledger_response \<times> web" where
  "page v r w = renderPage v ledgerViewRecent 0 w"

definition history :: "env \<Rightarrow> http_request \<Rightarrow> web \<Rightarrow> ledger_response \<times> web" where
  "history v r w = renderPage v ledgerViewHistory 0 w"

definition contracts_page :: "env \<Rightarrow> http_request \<Rightarrow> web \<Rightarrow> ledger_response \<times> web" where
  "contracts_page v r w = renderPage v ledgerViewContracts 0 w"

section \<open>Forms and paths\<close>

definition atoiOr :: "string \<Rightarrow> int \<Rightarrow> int" where
  "atoiOr s def = (case Atoi s of Some n \<Rightarrow> n | None \<Rightarrow> def)"

definition atoi64Or :: "string \<Rightarrow> int \<Rightarrow> int" where
  "atoi64Or s def = (case ParseInt s of Some n \<Rightarrow> n | None \<Rightarrow> def)"

definition pathID :: "http_request \<Rightarrow> ledger_response + int" where
  "pathID r = (case ParseInt (q_PathValue r ''id'') of
      None \<Rightarrow> Inl (LedgerHttpError 400 ''bad id'') | Some i \<Rightarrow> Inr i)"

definition pathYear :: "http_request \<Rightarrow> ledger_response + int" where
  "pathYear r = (case Atoi (q_PathValue r ''year'') of
      None \<Rightarrow> Inl (LedgerHttpError 400 ''bad year'') | Some y \<Rightarrow> Inr y)"

definition parseEntryForm :: "http_request \<Rightarrow> int \<Rightarrow> entry_row result" where
  "parseEntryForm r i =
     (case q_FormErr r of Some e \<Rightarrow> Inl e | None \<Rightarrow>
     (case parse_iso (q_FormValue r ''date'') of None \<Rightarrow> Inl (ErrInput ''invalid date'') | Some d \<Rightarrow>
       let year = atoiOr (q_FormValue r ''year'') 0;
           year' = (if year = 0 then date_Year d else year);
           cid = atoi64Or (q_FormValue r ''contract'') 0
       in Inr \<lparr>e_ID = i, e_UseYear = year', e_Date = d, e_Desc = q_FormValue r ''desc'',
            e_Kind = q_FormValue r ''kind'', e_Allotted = atoiOr (q_FormValue r ''allotted'') 0,
            e_Used = atoiOr (q_FormValue r ''used'') 0, e_Tag = q_FormValue r ''tag'',
            e_ContractID = (if cid \<noteq> 0 then Some cid else None)\<rparr>))"

definition parseContractForm :: "http_request \<Rightarrow> int \<Rightarrow> contract result" where
  "parseContractForm r i =
     (case q_FormErr r of Some e \<Rightarrow> Inl e | None \<Rightarrow>
       and_then (ParseMonth (q_FormValue r ''use_year_month'')) (\<lambda>month.
       and_then (ParseCents (q_FormValue r ''price'')) (\<lambda>price.
       and_then (ParseCents (q_FormValue r ''closing'')) (\<lambda>closing.
         Inr \<lparr>c_ID = i, c_Name = q_FormValue r ''name'', c_Number = q_FormValue r ''number'',
           c_HomeResort = q_FormValue r ''resort'', c_AnnualPoints = atoiOr (q_FormValue r ''points'') 0,
           c_UseYearMonth = month, c_TermYears = atoiOr (q_FormValue r ''term_years'') 0,
           c_PurchasePrice = price, c_ClosingCosts = closing\<rparr>))))"

section \<open>Entries\<close>

definition addEntry :: "env \<Rightarrow> http_request \<Rightarrow> web \<Rightarrow> ledger_response \<times> web" where
  "addEntry v r w =
     (let view = viewFromRequest r in
      case parseEntryForm r 0 of
        Inl e \<Rightarrow> renderBody v view 0 0 (v_errText v e) w
      | Inr e \<Rightarrow>
          (case AddEntry e (w_db w) of
             Inl err \<Rightarrow> renderBody v view 0 0 (v_errText v err) w
           | Inr (_, d) \<Rightarrow> renderBody v view 0 0 [] (w\<lparr>w_db := d\<rparr>)))"

definition editEntry :: "env \<Rightarrow> http_request \<Rightarrow> web \<Rightarrow> ledger_response \<times> web" where
  "editEntry v r w =
     (case pathID r of Inl resp \<Rightarrow> (resp, w) | Inr i \<Rightarrow> renderBody v (viewFromRequest r) i 0 [] w)"

definition updateEntry :: "env \<Rightarrow> http_request \<Rightarrow> web \<Rightarrow> ledger_response \<times> web" where
  "updateEntry v r w =
     (case pathID r of Inl resp \<Rightarrow> (resp, w) | Inr i \<Rightarrow>
       let view = viewFromRequest r in
       (case parseEntryForm r i of
          Inl e \<Rightarrow> renderBody v view i 0 (v_errText v e) w
        | Inr e \<Rightarrow>
            (case UpdateEntry e (w_db w) of
               Inl err \<Rightarrow> renderBody v view i 0 (v_errText v err) w
             | Inr d \<Rightarrow> renderBody v view 0 0 [] (w\<lparr>w_db := d\<rparr>))))"

definition cancelEdit :: "env \<Rightarrow> http_request \<Rightarrow> web \<Rightarrow> ledger_response \<times> web" where
  "cancelEdit v r w = renderBody v (viewFromRequest r) 0 0 [] w"

definition deleteEntry :: "env \<Rightarrow> http_request \<Rightarrow> web \<Rightarrow> ledger_response \<times> web" where
  "deleteEntry v r w =
     (case pathID r of Inl resp \<Rightarrow> (resp, w)
      | Inr i \<Rightarrow> renderBody v (viewFromRequest r) 0 0 [] (w\<lparr>w_db := DeleteEntry i (w_db w)\<rparr>))"

section \<open>Contracts and dues\<close>

definition addContract :: "env \<Rightarrow> http_request \<Rightarrow> web \<Rightarrow> ledger_response \<times> web" where
  "addContract v r w =
     (let view = viewFromRequest r in
      case parseContractForm r 0 of
        Inl e \<Rightarrow> renderBody v view 0 0 (v_errText v e) w
      | Inr c \<Rightarrow>
          (let (_, d) = AddContract c (w_db w)
           in renderBody v view 0 0 [] (w\<lparr>w_db := d, w_costs := Invalidate (w_costs w)\<rparr>)))"

definition editContract :: "env \<Rightarrow> http_request \<Rightarrow> web \<Rightarrow> ledger_response \<times> web" where
  "editContract v r w =
     (case pathID r of Inl resp \<Rightarrow> (resp, w) | Inr i \<Rightarrow> renderBody v (viewFromRequest r) 0 i [] w)"

definition updateContract :: "env \<Rightarrow> http_request \<Rightarrow> web \<Rightarrow> ledger_response \<times> web" where
  "updateContract v r w =
     (case pathID r of Inl resp \<Rightarrow> (resp, w) | Inr i \<Rightarrow>
       let view = viewFromRequest r in
       (case parseContractForm r i of
          Inl e \<Rightarrow> renderBody v view 0 i (v_errText v e) w
        | Inr c \<Rightarrow> renderBody v view 0 0 []
            (w\<lparr>w_db := UpdateContract c (w_db w), w_costs := Invalidate (w_costs w)\<rparr>)))"

definition cancelContractEdit :: "env \<Rightarrow> http_request \<Rightarrow> web \<Rightarrow> ledger_response \<times> web" where
  "cancelContractEdit v r w = renderBody v (viewFromRequest r) 0 0 [] w"

definition deleteContract :: "env \<Rightarrow> http_request \<Rightarrow> web \<Rightarrow> ledger_response \<times> web" where
  "deleteContract v r w =
     (case pathID r of Inl resp \<Rightarrow> (resp, w)
      | Inr i \<Rightarrow> renderBody v (viewFromRequest r) 0 0 []
          (w\<lparr>w_db := DeleteContract i (w_db w), w_costs := Invalidate (w_costs w)\<rparr>))"

definition upsertDues :: "env \<Rightarrow> http_request \<Rightarrow> web \<Rightarrow> ledger_response \<times> web" where
  "upsertDues v r w =
     (let view = viewFromRequest r in
      case q_FormErr r of Some e \<Rightarrow> (LedgerHttpError 400 (v_errText v e), w) | None \<Rightarrow>
        let year = atoiOr (q_FormValue r ''year'') 0 in
        (case ParseMicros (q_FormValue r ''rate'') of
           Inl e \<Rightarrow> renderBody v view 0 0 (v_errText v e) w
         | Inr rate \<Rightarrow>
             (case UpsertDuesRate \<lparr>d_UseYear = year, d_Rate = rate\<rparr> (w_db w) of
                Inl e \<Rightarrow> renderBody v view 0 0 (v_errText v e) w
              | Inr d \<Rightarrow> renderBody v view 0 0 [] (w\<lparr>w_db := d, w_costs := Invalidate (w_costs w)\<rparr>))))"

definition deleteDues :: "env \<Rightarrow> http_request \<Rightarrow> web \<Rightarrow> ledger_response \<times> web" where
  "deleteDues v r w =
     (case pathYear r of Inl resp \<Rightarrow> (resp, w)
      | Inr y \<Rightarrow> renderBody v (viewFromRequest r) 0 0 []
          (w\<lparr>w_db := DeleteDuesRate y (w_db w), w_costs := Invalidate (w_costs w)\<rparr>))"

definition distribute :: "env \<Rightarrow> http_request \<Rightarrow> web \<Rightarrow> ledger_response \<times> web" where
  "distribute v r w =
     (case DistributeNextYear (date_Year (v_today v)) (w_db w) of
        (Inl e, d) \<Rightarrow> renderBody v (viewFromRequest r) 0 0 (v_errText v e) (w\<lparr>w_db := d\<rparr>)
      | (Inr _, d) \<Rightarrow> renderBody v (viewFromRequest r) 0 0 [] (w\<lparr>w_db := d\<rparr>))"

end
