(* ===== verification/TripImport.thy ===== *)
theory TripImport
  imports Booking
begin

text \<open>
  \<open>internal/ledger/trip_import.go\<close>: recording a trip whose usage entries are already in the ledger.  All
  its entries are validated before anything is written, and the writes are one transaction: an
  error returns no database.
\<close>

section \<open>Operations\<close>

record imported_stay =
  is_Stay :: stay_row
  is_EntryIDs :: "int list"

fun check_stays :: "imported_stay list \<Rightarrow> unit result" where
  "check_stays [] = Inr ()"
| "check_stays (im # ims) =
     (let st = is_Stay im; want = days_between (st_CheckIn st) (st_CheckOut st) in
      if want < 1 \<or> st_Nights st \<noteq> want then Inl ErrImportInvalid
      else if st_Points st < 0 then Inl ErrImportInvalid
      else check_stays ims)"

definition entry_with_id :: "db \<Rightarrow> int \<Rightarrow> entry_row option" where
  "entry_with_id d eid = find (\<lambda>e. e_ID e = eid) (entries d)"

fun check_entry_ids :: "db \<Rightarrow> (int \<Rightarrow> bool) \<Rightarrow> int \<Rightarrow> int list \<Rightarrow> ((int \<Rightarrow> bool) \<times> int) result" where
  "check_entry_ids d seen acc [] = Inr (seen, acc)"
| "check_entry_ids d seen acc (eid # eids) =
     (if seen eid then Inl ErrImportDuplicateEntry
      else (case entry_with_id d eid of
          None \<Rightarrow> Inl ErrImportEntryNotFound
        | Some e \<Rightarrow>
            if e_Kind e \<noteq> KindUsage \<or> e_Used e \<le> 0 then Inl ErrImportEntryNotUsage
            else if has_row k_EntryID eid (links d) then Inl ErrImportEntryLinked
            else check_entry_ids d (seen(eid := True)) (acc + e_Used e) eids))"

fun check_entries :: "db \<Rightarrow> (int \<Rightarrow> bool) \<Rightarrow> imported_stay list \<Rightarrow> unit result" where
  "check_entries d seen [] = Inr ()"
| "check_entries d seen (im # ims) =
     (if length (is_EntryIDs im) = 0 then Inl ErrImportNoEntries
      else and_then (check_entry_ids d seen 0 (is_EntryIDs im)) (\<lambda>(seen', acc).
        if acc \<noteq> st_Points (is_Stay im) then Inl ErrImportPointsMismatch
        else check_entries d seen' ims))"

fun link_entries :: "int \<Rightarrow> int list \<Rightarrow> db \<Rightarrow> db result" where
  "link_entries stayID [] d = Inr d"
| "link_entries stayID (eid # eids) d = and_then (InsertTripStayEntry stayID eid d) (link_entries stayID eids)"

fun import_stays :: "int \<Rightarrow> imported_stay list \<Rightarrow> db \<Rightarrow> db result" where
  "import_stays tripID [] d = Inr d"
| "import_stays tripID (im # ims) d =
     and_then (AddStay ((is_Stay im)\<lparr>st_TripID := tripID\<rparr>) d) (\<lambda>(stayID, d1).
     and_then (link_entries stayID (is_EntryIDs im) d1) (import_stays tripID ims))"

definition ImportBookedTrip :: "trip \<Rightarrow> imported_stay list \<Rightarrow> db \<Rightarrow> (int \<times> db) result" where
  "ImportBookedTrip t ims d =
     (if length ims = 0 then Inl ErrImportInvalid
      else
        let t' = (if t_MinNights t < 1 then t\<lparr>t_MinNights := 1\<rparr> else t) in
        if t_EndDate t' < t_StartDate t' then Inl ErrImportInvalid
        else and_then (check_stays ims) (\<lambda>_.
             and_then (check_entries d (\<lambda>_. False) ims) (\<lambda>_.
             and_then (AddTrip t' d) (\<lambda>(tripID, d1).
             and_then (import_stays tripID ims d1) (\<lambda>d2. Inr (tripID, d2))))))"

section \<open>Linking\<close>

lemma link_entries_links:
  "link_entries s eids d = Inr d' \<Longrightarrow> \<exists>ks. d' = d\<lparr>links := links d @ ks, link_seq := link_seq d + int (length eids)\<rparr> \<and>
     map k_EntryID ks = eids \<and> (\<forall>k \<in> set ks. k_StayID k = s)"
proof (induction s eids d arbitrary: d' rule: link_entries.induct)
  case (2 s eid eids d)
  then obtain d1 where d1: "InsertTripStayEntry s eid d = Inr d1" "link_entries s eids d1 = Inr d'"
    by (auto simp: and_then_Inr)
  let ?k = "\<lparr>k_ID = link_seq d + 1, k_StayID = s, k_EntryID = eid\<rparr>"
  have d1': "d1 = d\<lparr>links := links d @ [?k], link_seq := link_seq d + 1\<rparr>"
    using d1(1) by (auto simp: InsertTripStayEntry_def insert_row_def split: if_splits)
  obtain ks where ks: "d' = d1\<lparr>links := links d1 @ ks, link_seq := link_seq d1 + int (length eids)\<rparr>"
    "map k_EntryID ks = eids" "\<forall>k \<in> set ks. k_StayID k = s"
    using 2(1) [OF d1(2)] by blast
  show ?case by (rule exI [of _ "?k # ks"]) (use ks d1' in simp)
qed simp

lemma link_entries_ok: "db_ok d \<Longrightarrow> link_entries s eids d = Inr d' \<Longrightarrow> db_ok d'"
  by (induction s eids d arbitrary: d' rule: link_entries.induct)
    (auto simp: and_then_Inr dest: InsertTripStayEntry_ok)

lemma import_stays_ok: "db_ok d \<Longrightarrow> import_stays t ims d = Inr d' \<Longrightarrow> db_ok d'"
proof (induction ims arbitrary: d)
  case (Cons im ims)
  then obtain stayID d1 d2 where "AddStay ((is_Stay im)\<lparr>st_TripID := t\<rparr>) d = Inr (stayID, d1)"
    "link_entries stayID (is_EntryIDs im) d1 = Inr d2" "import_stays t ims d2 = Inr d'"
    by (auto simp: and_then_Inr)
  then show ?case using Cons by (metis AddStay_ok link_entries_ok)
qed simp

lemma ImportBookedTrip_ok: "db_ok d \<Longrightarrow> ImportBookedTrip t ims d = Inr (i, d') \<Longrightarrow> db_ok d'"
  by (auto simp: ImportBookedTrip_def Let_def and_then_Inr split: if_splits
      dest: AddTrip_ok import_stays_ok)

section \<open>An imported trip is booked\<close>

text \<open>Every stay of the trip has links, and their entries used exactly the stay's points.\<close>

definition settled :: "db \<Rightarrow> int \<Rightarrow> bool" where
  "settled d tripID \<longleftrightarrow> (\<forall>st \<in> set (stays d). st_TripID st = tripID \<longrightarrow>
     stay_links d (st_ID st) \<noteq> [] \<and> booked_points d (st_ID st) = st_Points st)"

definition used_of :: "db \<Rightarrow> int \<Rightarrow> int" where
  "used_of d eid = (case entry_with_id d eid of None \<Rightarrow> 0 | Some e \<Rightarrow> e_Used e)"

definition pays :: "db \<Rightarrow> imported_stay \<Rightarrow> bool" where
  "pays d im \<longleftrightarrow> is_EntryIDs im \<noteq> [] \<and> (\<Sum>eid\<leftarrow>is_EntryIDs im. used_of d eid) = st_Points (is_Stay im)"

lemma link_used_of: "link_used d k = used_of d (k_EntryID k)"
  by (simp add: link_used_def used_of_def entry_with_id_def)

lemma check_entry_ids_sum:
  "check_entry_ids d seen acc eids = Inr (seen', acc') \<Longrightarrow> acc' = acc + (\<Sum>eid\<leftarrow>eids. used_of d eid)"
  by (induction d seen acc eids rule: check_entry_ids.induct)
    (auto simp: used_of_def split: if_splits option.splits)

lemma check_entries_pays:
  "check_entries d seen ims = Inr () \<Longrightarrow> im \<in> set ims \<Longrightarrow> pays d im"
proof (induction ims arbitrary: seen)
  case (Cons x ims)
  then obtain seen' acc where "check_entry_ids d seen 0 (is_EntryIDs x) = Inr (seen', acc)"
    "acc = st_Points (is_Stay x)" "check_entries d seen' ims = Inr ()" "is_EntryIDs x \<noteq> []"
    by (auto simp: and_then_Inr split: if_splits)
  then show ?case using Cons check_entry_ids_sum by (fastforce simp: pays_def)
qed simp

lemma AddStay_row:
  assumes "AddStay st d = Inr (i, d')"
  shows "i = stay_seq d + 1 \<and> d' = d\<lparr>stays := stays d @ [(narrow_stay st)\<lparr>st_ID := stay_seq d + 1\<rparr>], stay_seq := stay_seq d + 1\<rparr>"
  using assms by (auto simp: AddStay_def InsertTripStay_def insert_row_def split: if_splits)

lemma import_one_settled:
  assumes "db_ok d" and "settled d t" and "pays d im" and "in32 (st_Points (is_Stay im))"
    and "AddStay ((is_Stay im)\<lparr>st_TripID := t\<rparr>) d = Inr (i, d1)" and "link_entries i (is_EntryIDs im) d1 = Inr d2"
  shows "settled d2 t \<and> entries d2 = entries d \<and> contracts d2 = contracts d \<and> trips d2 = trips d \<and>
    (\<exists>st. stays d2 = stays d @ [st] \<and> st_TripID st = t)"
proof -
  let ?st = "(narrow_stay ((is_Stay im)\<lparr>st_TripID := t\<rparr>))\<lparr>st_ID := stay_seq d + 1\<rparr>"
  note add = AddStay_row [OF assms(5)]
  obtain ks where ks: "d2 = d1\<lparr>links := links d1 @ ks, link_seq := link_seq d1 + int (length (is_EntryIDs im))\<rparr>"
    "map k_EntryID ks = is_EntryIDs im" "\<forall>k \<in> set ks. k_StayID k = i"
    using link_entries_links [OF assms(6)] by blast
  have same: "entries d2 = entries d" "links d2 = links d @ ks" "stays d2 = stays d @ [?st]"
    using add ks(1) by simp_all
  have lu: "link_used d2 k = link_used d k" for k by (simp add: link_used_def same)
  have fresh: "st_ID st \<noteq> i" if "st \<in> set (stays d)" for st
    using assms(1) that add by (auto simp: db_ok_defs table_ok_def)
  have none: "filter (\<lambda>k. k_StayID k = i) (links d) = []"
    using assms(1) fresh by (fastforce simp: db_ok_defs has_row_iff filter_empty_conv)
  have new: "stay_links d2 i = ks"
    using ks(3) none by (simp add: stay_links_def same filter_id_conv)
  have old: "stay_links d2 j = stay_links d j" if "j \<noteq> i" for j
    using ks(3) that by (auto simp: stay_links_def same filter_empty_conv)
  have "booked_points d2 i = (\<Sum>eid\<leftarrow>is_EntryIDs im. used_of d eid)"
    unfolding booked_points_def new lu ks(2) [symmetric] by (simp add: link_used_of comp_def)
  then have pts: "booked_points d2 i = st_Points ?st" "ks \<noteq> []"
    using assms(3,4) ks(2) by (auto simp: pays_def narrow_stay_def int32_id)
  have "settled d2 t"
    using assms(2) pts new old fresh add
    by (auto simp: settled_def same booked_points_def lu)
  then show ?thesis using same add ks(1) by (auto simp: narrow_stay_def)
qed

lemma import_stays_settled:
  assumes "db_ok d" and "settled d t" and "\<forall>im \<in> set ims. pays d im \<and> in32 (st_Points (is_Stay im))"
    and "import_stays t ims d = Inr d'"
  shows "settled d' t \<and> entries d' = entries d \<and> contracts d' = contracts d \<and> trips d' = trips d \<and>
    (\<exists>ss. stays d' = stays d @ ss \<and> length ss = length ims \<and> (\<forall>st \<in> set ss. st_TripID st = t))"
  using assms
proof (induction ims arbitrary: d)
  case (Cons im ims)
  obtain i d1 d2 where r: "AddStay ((is_Stay im)\<lparr>st_TripID := t\<rparr>) d = Inr (i, d1)"
    "link_entries i (is_EntryIDs im) d1 = Inr d2" "import_stays t ims d2 = Inr d'"
    using Cons.prems(4) by (auto simp: and_then_Inr)
  have one: "settled d2 t \<and> entries d2 = entries d \<and> contracts d2 = contracts d \<and> trips d2 = trips d \<and>
    (\<exists>st. stays d2 = stays d @ [st] \<and> st_TripID st = t)"
    using Cons.prems r by (intro import_one_settled) auto
  then have pays: "pays d2 im' = pays d im'" for im'
    by (simp add: pays_def used_of_def entry_with_id_def)
  have ok: "db_ok d2" using Cons.prems(1) r by (metis AddStay_ok link_entries_ok)
  obtain st where st: "stays d2 = stays d @ [st]" "st_TripID st = t" using one by blast
  have "settled d' t \<and> entries d' = entries d2 \<and> contracts d' = contracts d2 \<and> trips d' = trips d2 \<and>
    (\<exists>ss. stays d' = stays d2 @ ss \<and> length ss = length ims \<and> (\<forall>st \<in> set ss. st_TripID st = t))"
    using Cons.prems(3) one by (intro Cons.IH [OF ok _ _ r(3)]) (auto simp: pays)
  then obtain ss where "settled d' t" "stays d' = stays d2 @ ss" "length ss = length ims"
    "\<forall>st \<in> set ss. st_TripID st = t" "entries d' = entries d2" "contracts d' = contracts d2" "trips d' = trips d2"
    by blast
  then show ?case using one st by (intro conjI exI [of _ "st # ss"]) auto
qed simp

lemma settled_listed:
  assumes "db_ok d" and "settled d t" and "st \<in> set (ListStays t d)"
  shows "Booked st \<and> \<not> PartiallyBooked st \<and> st_EntryPoints st = st_Points st"
proof -
  note r = ListStays_row(1,2) [OF assms(3)]
  have "stay_links d (st_ID st) \<noteq> [] \<and> booked_points d (st_ID st) = st_Points st"
    using assms(2) r unfolding settled_def by (fastforce simp: stay_row.defs)
  then show ?thesis
    using listed_booked [OF assms(3,1)] by (simp add: booked_points_def PartiallyBooked_def)
qed

lemma AddTrip_row:
  assumes "AddTrip t d = Inr (i, d')"
  shows "i = trip_seq d + 1 \<and> d' = d\<lparr>trips := trips d @ [(narrow_trip t)\<lparr>t_ID := trip_seq d + 1\<rparr>], trip_seq := trip_seq d + 1\<rparr>"
  using assms by (auto simp: AddTrip_def InsertTrip_def insert_row_def split: if_splits)

text \<open>C29: A successful import adds one trip with one stay per imported stay and changes no entry and no
  contract; every stay of the trip then reads as booked in full, its linked entries adding up to its
  points exactly.  (The points are assumed to fit their 32-bit column.)\<close>

theorem import_records_booked:
  assumes "db_ok d" and "ImportBookedTrip t ims d = Inr (tripID, d')"
    and "\<forall>im \<in> set ims. in32 (st_Points (is_Stay im))"
  shows "entries d' = entries d \<and> contracts d' = contracts d \<and> map t_ID (trips d') = map t_ID (trips d) @ [tripID] \<and>
    length (ListStays tripID d') = length ims \<and>
    (\<forall>st \<in> set (ListStays tripID d'). Booked st \<and> \<not> PartiallyBooked st \<and> st_EntryPoints st = st_Points st)"
proof -
  obtain t' d1 where r: "check_entries d (\<lambda>_. False) ims = Inr ()" "AddTrip t' d = Inr (tripID, d1)"
    "import_stays tripID ims d1 = Inr d'"
    using assms(2) by (auto simp: ImportBookedTrip_def Let_def and_then_Inr split: if_splits)
  note row = AddTrip_row [OF r(2)]
  have ok: "db_ok d1" by (rule AddTrip_ok [OF assms(1) r(2)])
  have none: "st_TripID st \<noteq> tripID" if "st \<in> set (stays d)" for st
    using assms(1) that row trip_table.new_id_fresh [of "trip_seq d" "trips d"]
    by (auto simp: db_ok_defs has_row_iff) (metis imageI)
  have pays: "\<forall>im \<in> set ims. pays d1 im \<and> in32 (st_Points (is_Stay im))"
    using check_entries_pays [OF r(1)] assms(3) row by (simp add: pays_def used_of_def entry_with_id_def)
  have "settled d1 tripID" using none row by (simp add: settled_def)
  then obtain ss where s: "settled d' tripID" "entries d' = entries d1" "contracts d' = contracts d1"
    "trips d' = trips d1" "stays d' = stays d1 @ ss" "length ss = length ims" "\<forall>st \<in> set ss. st_TripID st = tripID"
    using import_stays_settled [OF ok _ pays r(3)] by blast
  have "length (ListStays tripID d') = length (filter (\<lambda>st. st_TripID st = tripID) (stays d'))"
    by (simp add: ListStays_def Let_def ListTripStays_def)
  also have "filter (\<lambda>st. st_TripID st = tripID) (stays d') = ss"
    using s(5,7) none row by (simp add: filter_empty_conv filter_id_conv)
  finally have "length (ListStays tripID d') = length ims" using s(6) by simp
  then show ?thesis
    using s(2-4) row settled_listed [OF import_stays_ok [OF ok r(3)] s(1)] by simp
qed

theorem import_records_booked_witness:
  "\<exists>d'. ImportBookedTrip
     \<lparr>t_ID = 0, t_Name = ''T'', t_StartDate = 20600, t_EndDate = 20603, t_MinNights = 1, t_BudgetOverride = None,
      t_FilterMode = '''', t_ExcludeResorts = [], t_ExcludeRoomTypes = []\<rparr>
     [\<lparr>is_Stay = \<lparr>st_ID = 0, st_TripID = 0, st_Resort = ''R'', st_RoomType = ''S'', st_View = '''',
        st_CheckIn = 20600, st_CheckOut = 20603, st_Nights = 3, st_Points = 30, st_QuoteHash = ''''\<rparr>,
       is_EntryIDs = [2]\<rparr>]
     sample_db = Inr (1, d') \<and> length (ListStays 1 d') = 1 \<and> entries d' = entries sample_db"
  (is "\<exists>d'. ImportBookedTrip ?t ?ims _ = _ \<and> _")
proof -
  have "is_ok (ImportBookedTrip ?t ?ims sample_db) \<and>
      (case ImportBookedTrip ?t ?ims sample_db of Inr (i, _) \<Rightarrow> i = 1 | _ \<Rightarrow> True)" by code_simp
  then obtain d' where d': "ImportBookedTrip ?t ?ims sample_db = Inr (1, d')" by (auto simp: is_ok_iff)
  have "\<forall>im \<in> set ?ims. in32 (st_Points (is_Stay im))" by (simp add: in32_def)
  then show ?thesis using import_records_booked [OF sample_db_ok d'] d' by auto
qed

text \<open>A trip whose end date is its start date passes the validation and is then refused by the
  table's CHECK constraint.\<close>

definition import_example_db :: db where
  "import_example_db = fresh_db\<lparr>
     entries := [\<lparr>e_ID = 1, e_UseYear = 2026, e_Date = 20600, e_Desc = ''T'', e_Kind = KindUsage,
       e_Allotted = 0, e_Used = 60, e_Tag = '''', e_ContractID = None\<rparr>],
     entry_seq := 1\<rparr>"

definition import_example :: "date \<Rightarrow> (int \<times> db) result" where
  "import_example end_date = ImportBookedTrip
     \<lparr>t_ID = 0, t_Name = ''T'', t_StartDate = 20600, t_EndDate = end_date, t_MinNights = 1, t_BudgetOverride = None,
      t_FilterMode = '''', t_ExcludeResorts = [], t_ExcludeRoomTypes = []\<rparr>
     [\<lparr>is_Stay = \<lparr>st_ID = 0, st_TripID = 0, st_Resort = ''R'', st_RoomType = ''S'', st_View = '''',
        st_CheckIn = 20600, st_CheckOut = 20603, st_Nights = 3, st_Points = 60, st_QuoteHash = ''''\<rparr>,
       is_EntryIDs = [1]\<rparr>]
     import_example_db"

lemma import_example_ok: "db_ok import_example_db"
  by (simp add: import_example_db_def fresh_db_def db_ok_defs table_ok_def contract_fk_def has_row_def
      entry_width_def in32_def seeded_dues_def)

theorem import_equal_dates:
  "import_example 20600 = Inl ErrConstraint \<and> import_example 20599 = Inl ErrImportInvalid \<and>
   is_ok (import_example 20603)"
  by code_simp

end
