(* ===== verification/ApiHandlers.thy ===== *)
theory ApiHandlers
  imports TripImport Distribute
begin

text \<open>
  \<open>internal/web/api_handlers.go\<close>: the JSON interface of the ledger.  A request body is the value its JSON
  decodes to, or \<open>None\<close> when decoding fails; a response holds the value that is encoded (the texts are in \<open>WireJson\<close>).  The handlers keep
  no state of their own: they take and return the database.  The names of the ledger page's handlers
  are used again here, with the prefix \<open>api_\<close>.
\<close>

section \<open>Wire shapes\<close>

record entry_dto =
  ed_ID :: int
  ed_UseYear :: int
  ed_Date :: string
  ed_Desc :: string
  ed_Kind :: string
  ed_Allotted :: int
  ed_Used :: int
  ed_Tag :: string
  ed_ContractID :: "int option"

record entry_list_dto = entry_dto +
  ed_RunningBalance :: int

record entry_request_dto =
  er_UseYear :: int
  er_Date :: string
  er_Desc :: string
  er_Kind :: string
  er_Allotted :: int
  er_Used :: int
  er_Tag :: string
  er_ContractID :: "int option"

record contract_dto =
  cd_ID :: int
  cd_Name :: string
  cd_Number :: string
  cd_HomeResort :: string
  cd_AnnualPoints :: int
  cd_UseYearMonth :: string

record summary_dto =
  sd_UseYear :: int
  sd_Allotted :: int
  sd_Used :: int
  sd_Net :: int
  sd_OverBorrowed :: bool

record import_stay_dto =
  isd_Resort :: string
  isd_RoomType :: string
  isd_View :: string
  isd_CheckIn :: string
  isd_CheckOut :: string
  isd_Points :: int
  isd_EntryIDs :: "int list"

record import_trip_dto =
  itd_Name :: string
  itd_StartDate :: string
  itd_EndDate :: string
  itd_MinNights :: int
  itd_Stays :: "import_stay_dto list"

definition entryDTOFrom :: "'a entry_row_scheme \<Rightarrow> entry_dto" where
  "entryDTOFrom e = \<lparr>ed_ID = e_ID e, ed_UseYear = e_UseYear e, ed_Date = format_date (e_Date e), ed_Desc = e_Desc e,
     ed_Kind = e_Kind e, ed_Allotted = e_Allotted e, ed_Used = e_Used e, ed_Tag = e_Tag e,
     ed_ContractID = e_ContractID e\<rparr>"

definition entryListDTOFrom :: "entry \<Rightarrow> entry_list_dto" where
  "entryListDTOFrom e = entry_dto.extend (entryDTOFrom e) \<lparr>ed_RunningBalance = RunningBalance e\<rparr>"

definition validEntryKind :: "string \<Rightarrow> bool" where
  "validEntryKind k \<longleftrightarrow>
     k = KindAllocation \<or> k = KindUsage \<or> k = KindBonus \<or> k = KindSingleUse \<or> k = KindAdjustment"

definition toEntry :: "entry_request_dto \<Rightarrow> int \<Rightarrow> entry_row result" where
  "toEntry dto i =
     (if er_Date dto = [] then Inl (ErrInput ''date is required'')
      else (case parse_iso (er_Date dto) of None \<Rightarrow> Inl (ErrInput ''invalid date'') | Some d \<Rightarrow>
        if er_Desc dto = [] then Inl (ErrInput ''description is required'')
        else let kind = (if er_Kind dto = [] then KindUsage else er_Kind dto) in
          if \<not> validEntryKind kind then Inl (ErrInput ''invalid kind'')
          else let year = (if er_UseYear dto = 0 then date_Year d else er_UseYear dto) in
            Inr \<lparr>e_ID = i, e_UseYear = year, e_Date = d, e_Desc = er_Desc dto, e_Kind = kind,
                 e_Allotted = er_Allotted dto, e_Used = er_Used dto, e_Tag = er_Tag dto,
                 e_ContractID = er_ContractID dto\<rparr>))"

text \<open>\<open>Month.String\<close> of the standard library.\<close>

definition month_String :: "month \<Rightarrow> string" where
  "month_String m = (if 1 \<le> m \<and> m \<le> 12 then month_names ! nat (m - 1)
     else ''%!Month('' @ dec (nat (m mod 2 ^ 64)) @ '')'')"

definition contractDTOFrom :: "contract \<Rightarrow> contract_dto" where
  "contractDTOFrom c = \<lparr>cd_ID = c_ID c, cd_Name = c_Name c, cd_Number = c_Number c, cd_HomeResort = c_HomeResort c,
     cd_AnnualPoints = c_AnnualPoints c, cd_UseYearMonth = month_String (c_UseYearMonth c)\<rparr>"

definition toContract :: "contract_dto \<Rightarrow> contract result" where
  "toContract dto =
     (if cd_Name dto = [] then Inl (ErrInput ''name is required'')
      else if cd_AnnualPoints dto = 0 then Inl (ErrInput ''annual_points is required'')
      else if cd_UseYearMonth dto = [] then Inl (ErrInput ''use_year_month is required'')
      else and_then (ParseMonth (cd_UseYearMonth dto)) (\<lambda>month.
        Inr \<lparr>c_ID = 0, c_Name = cd_Name dto, c_Number = cd_Number dto, c_HomeResort = cd_HomeResort dto,
             c_AnnualPoints = cd_AnnualPoints dto, c_UseYearMonth = month, c_TermYears = 0,
             c_PurchasePrice = 0, c_ClosingCosts = 0\<rparr>))"

definition summaryDTOFrom :: "use_year_summary \<Rightarrow> summary_dto" where
  "summaryDTOFrom s = \<lparr>sd_UseYear = s_UseYear s, sd_Allotted = s_Allotted s, sd_Used = s_Used s, sd_Net = s_Net s,
     sd_OverBorrowed = s_OverBorrowed s\<rparr>"

section \<open>Responses\<close>

datatype api_response =
    ApiError nat string
  | ApiEntry nat entry_dto
  | ApiEntries nat "entry_dto list"
  | ApiEntryList nat "entry_list_dto list"
  | ApiContract nat contract_dto
  | ApiContracts nat "contract_dto list"
  | ApiSummaries nat "summary_dto list"
  | ApiID nat int
  | ApiNoContent

definition writeAPIError :: "nat \<Rightarrow> string \<Rightarrow> api_response" where
  "writeAPIError status msg = ApiError status msg"

section \<open>Entries\<close>

definition api_listEntries :: "db \<Rightarrow> api_response \<times> db" where
  "api_listEntries d = (ApiEntryList 200 (map entryListDTOFrom (ListEntries d)), d)"

definition api_addEntry :: "(error \<Rightarrow> string) \<Rightarrow> entry_request_dto option \<Rightarrow> db \<Rightarrow> api_response \<times> db" where
  "api_addEntry errText body d =
     (case body of None \<Rightarrow> (writeAPIError 400 ''invalid JSON'', d) | Some dto \<Rightarrow>
     (case toEntry dto 0 of Inl e \<Rightarrow> (writeAPIError 400 (errText e), d) | Inr e \<Rightarrow>
     (case AddEntry e d of Inl err \<Rightarrow> (writeAPIError 500 (errText err), d)
      | Inr (newID, d') \<Rightarrow> (ApiEntry 201 (entryDTOFrom (e\<lparr>e_ID := newID\<rparr>)), d'))))"

definition apiPathID :: "string \<Rightarrow> api_response + int" where
  "apiPathID pathValue = (case ParseInt pathValue of
      None \<Rightarrow> Inl (writeAPIError 400 ''invalid id'') | Some i \<Rightarrow> Inr i)"

definition api_updateEntry :: "(error \<Rightarrow> string) \<Rightarrow> string \<Rightarrow> entry_request_dto option \<Rightarrow> db \<Rightarrow> api_response \<times> db" where
  "api_updateEntry errText pathValue body d =
     (case apiPathID pathValue of Inl resp \<Rightarrow> (resp, d) | Inr i \<Rightarrow>
     (case body of None \<Rightarrow> (writeAPIError 400 ''invalid JSON'', d) | Some dto \<Rightarrow>
     (case toEntry dto i of Inl e \<Rightarrow> (writeAPIError 400 (errText e), d) | Inr e \<Rightarrow>
     (case UpdateEntry e d of Inl err \<Rightarrow> (writeAPIError 500 (errText err), d)
      | Inr d' \<Rightarrow> (ApiEntry 200 (entryDTOFrom e), d')))))"

definition api_deleteEntry :: "string \<Rightarrow> db \<Rightarrow> api_response \<times> db" where
  "api_deleteEntry pathValue d =
     (case apiPathID pathValue of Inl resp \<Rightarrow> (resp, d) | Inr i \<Rightarrow> (ApiNoContent, DeleteEntry i d))"

section \<open>Contracts, summaries, distribution\<close>

definition api_listContracts :: "db \<Rightarrow> api_response \<times> db" where
  "api_listContracts d = (ApiContracts 200 (map contractDTOFrom (ListContracts d)), d)"

definition api_addContract :: "(error \<Rightarrow> string) \<Rightarrow> contract_dto option \<Rightarrow> db \<Rightarrow> api_response \<times> db" where
  "api_addContract errText body d =
     (case body of None \<Rightarrow> (writeAPIError 400 ''invalid JSON'', d) | Some dto \<Rightarrow>
     (case toContract dto of Inl e \<Rightarrow> (writeAPIError 400 (errText e), d) | Inr c \<Rightarrow>
       let (newID, d') = AddContract c d in (ApiContract 201 (contractDTOFrom (c\<lparr>c_ID := newID\<rparr>)), d')))"

definition api_deleteContract :: "string \<Rightarrow> db \<Rightarrow> api_response \<times> db" where
  "api_deleteContract pathValue d =
     (case apiPathID pathValue of Inl resp \<Rightarrow> (resp, d) | Inr i \<Rightarrow> (ApiNoContent, DeleteContract i d))"

definition api_summaries :: "db \<Rightarrow> api_response \<times> db" where
  "api_summaries d = (ApiSummaries 200 (map summaryDTOFrom (UseYearSummaries d)), d)"

definition api_distribute :: "(error \<Rightarrow> string) \<Rightarrow> int \<Rightarrow> db \<Rightarrow> api_response \<times> db" where
  "api_distribute errText currentYear d =
     (case DistributeNextYear currentYear d of
        (Inl e, d') \<Rightarrow> (writeAPIError 500 (errText e), d')
      | (Inr created, d') \<Rightarrow> (ApiEntries 200 (map entryDTOFrom created), d'))"

section \<open>Importing a trip\<close>

text \<open>
  The loop over the stays of the body: their dates are parsed, and the earliest check-in and the latest
  check-out are kept.  \<open>time.Time{}\<close>, the start of both, is \<open>days_from_civil 1 1 1\<close>.
\<close>

definition no_time :: date where
  "no_time = days_from_civil 1 1 1"

definition import_stay_of :: "import_stay_dto \<Rightarrow> date \<Rightarrow> date \<Rightarrow> imported_stay" where
  "import_stay_of s check_in check_out =
     \<lparr>is_Stay = \<lparr>st_ID = 0, st_TripID = 0, st_Resort = isd_Resort s, st_RoomType = isd_RoomType s, st_View = isd_View s,
        st_CheckIn = check_in, st_CheckOut = check_out, st_Nights = days_between check_in check_out,
        st_Points = isd_Points s, st_QuoteHash = []\<rparr>,
      is_EntryIDs = isd_EntryIDs s\<rparr>"

fun import_stays_loop :: "import_stay_dto list \<Rightarrow> date \<Rightarrow> date \<Rightarrow> (imported_stay list \<times> date \<times> date) result" where
  "import_stays_loop [] minIn maxOut = Inr ([], minIn, maxOut)"
| "import_stays_loop (s # ss) minIn maxOut =
     (case parse_iso (isd_CheckIn s) of None \<Rightarrow> Inl (ErrInput ''invalid check_in'') | Some check_in \<Rightarrow>
     (case parse_iso (isd_CheckOut s) of None \<Rightarrow> Inl (ErrInput ''invalid check_out'') | Some check_out \<Rightarrow>
       let minIn' = (if minIn = no_time \<or> check_in < minIn then check_in else minIn);
           maxOut' = (if check_out > maxOut then check_out else maxOut)
       in and_then (import_stays_loop ss minIn' maxOut') (\<lambda>(ims, a, b).
            Inr (import_stay_of s check_in check_out # ims, a, b))))"

definition date_or :: "string \<Rightarrow> date \<Rightarrow> string \<Rightarrow> date result" where
  "date_or text dflt msg =
     (if text \<noteq> [] then (case parse_iso text of None \<Rightarrow> Inl (ErrInput msg) | Some d \<Rightarrow> Inr d) else Inr dflt)"

definition import_errors :: "error list" where
  "import_errors = [ErrImportInvalid, ErrImportNoEntries, ErrImportEntryNotFound, ErrImportEntryNotUsage,
     ErrImportEntryLinked, ErrImportDuplicateEntry, ErrImportPointsMismatch]"

definition import_request :: "import_trip_dto \<Rightarrow> (trip \<times> imported_stay list) result" where
  "import_request dto =
     (if itd_Name dto = [] then Inl (ErrInput ''name is required'')
      else if length (itd_Stays dto) = 0 then Inl (ErrInput ''at least one stay is required'')
      else and_then (import_stays_loop (itd_Stays dto) no_time no_time) (\<lambda>(ims, minIn, maxOut).
        and_then (date_or (itd_StartDate dto) minIn ''invalid start_date'') (\<lambda>start_date.
        and_then (date_or (itd_EndDate dto) maxOut ''invalid end_date'') (\<lambda>end_date.
          Inr (\<lparr>t_ID = 0, t_Name = itd_Name dto, t_StartDate = start_date, t_EndDate = end_date,
                 t_MinNights = (if itd_MinNights dto = 0 then 1 else itd_MinNights dto), t_BudgetOverride = None,
                 t_FilterMode = '''', t_ExcludeResorts = [], t_ExcludeRoomTypes = []\<rparr>, ims)))))"

definition importTrip :: "(error \<Rightarrow> string) \<Rightarrow> import_trip_dto option \<Rightarrow> db \<Rightarrow> api_response \<times> db" where
  "importTrip errText body d =
     (case body of None \<Rightarrow> (writeAPIError 400 ''invalid JSON'', d) | Some dto \<Rightarrow>
     (case import_request dto of Inl e \<Rightarrow> (writeAPIError 400 (errText e), d) | Inr (t, ims) \<Rightarrow>
     (case ImportBookedTrip t ims d of
        Inl err \<Rightarrow> (writeAPIError (if err \<in> set import_errors then 400 else 500) (errText err), d)
      | Inr (i, d') \<Rightarrow> (ApiID 201 i, d'))))"


section \<open>What an import answers\<close>

lemma check_entry_ids_facts:
  "check_entry_ids d seen acc eids = Inr (seen', acc') \<Longrightarrow>
     distinct eids \<and> (\<forall>e \<in> set eids. \<not> seen e \<and> has_row e_ID e (entries d) \<and> \<not> has_row k_EntryID e (links d)) \<and>
     (\<forall>x. seen' x \<longleftrightarrow> seen x \<or> x \<in> set eids)"
proof (induction eids arbitrary: seen acc)
  case (Cons eid eids)
  from Cons.prems obtain e where e: "\<not> seen eid" "entry_with_id d eid = Some e" "\<not> has_row k_EntryID eid (links d)"
    and rest: "check_entry_ids d (seen(eid := True)) (acc + e_Used e) eids = Inr (seen', acc')"
    by (auto split: if_splits option.splits)
  from e(2) have "has_row e_ID eid (entries d)"
    by (auto simp: entry_with_id_def find_Some_iff has_row_def list_ex_iff)
  with Cons.IH [OF rest] e show ?case by (auto split: if_splits)
qed simp

lemma check_entries_facts:
  "check_entries d seen ims = Inr () \<Longrightarrow>
     distinct (concat (map is_EntryIDs ims)) \<and>
     (\<forall>e \<in> set (concat (map is_EntryIDs ims)). \<not> seen e \<and> has_row e_ID e (entries d) \<and> \<not> has_row k_EntryID e (links d))"
proof (induction ims arbitrary: seen)
  case (Cons im ims)
  from Cons.prems obtain seen' acc where c: "check_entry_ids d seen 0 (is_EntryIDs im) = Inr (seen', acc)"
    and rest: "check_entries d seen' ims = Inr ()"
    by (auto simp: and_then_Inr split: if_splits)
  from Cons.IH [OF rest] check_entry_ids_facts [OF c] show ?case by auto
qed simp

definition linkable :: "db \<Rightarrow> int list \<Rightarrow> bool" where
  "linkable d eids \<longleftrightarrow> distinct eids \<and>
     (\<forall>e \<in> set eids. has_row e_ID e (entries d) \<and> \<not> has_row k_EntryID e (links d))"

lemma link_entries_succeeds:
  "has_row st_ID s (stays d) \<Longrightarrow> linkable d (eids @ rest) \<Longrightarrow>
     \<exists>d'. link_entries s eids d = Inr d' \<and> linkable d' rest \<and> trips d' = trips d"
proof (induction eids arbitrary: d)
  case (Cons eid eids)
  let ?k = "\<lparr>k_ID = link_seq d + 1, k_StayID = s, k_EntryID = eid\<rparr>"
  let ?d = "d\<lparr>links := links d @ [?k], link_seq := link_seq d + 1\<rparr>"
  have ins: "InsertTripStayEntry s eid d = Inr ?d"
    using Cons.prems by (simp add: InsertTripStayEntry_def linkable_def insert_row_def)
  have "linkable ?d (eids @ rest)" "has_row st_ID s (stays ?d)"
    using Cons.prems by (auto simp: linkable_def has_row_def)
  from Cons.IH [OF this(2,1)] obtain d' where "link_entries s eids ?d = Inr d'" "linkable d' rest" "trips d' = trips ?d"
    by blast
  then show ?case using ins by auto
qed auto

lemma import_stays_succeeds:
  "has_row t_ID t (trips d) \<Longrightarrow> \<forall>im \<in> set ims. stay_check (narrow_stay (is_Stay im)) \<Longrightarrow>
     linkable d (concat (map is_EntryIDs ims)) \<Longrightarrow> \<exists>d'. import_stays t ims d = Inr d'"
proof (induction ims arbitrary: d)
  case (Cons im ims)
  let ?st = "(narrow_stay ((is_Stay im)\<lparr>st_TripID := t\<rparr>))\<lparr>st_ID := stay_seq d + 1\<rparr>"
  let ?d = "d\<lparr>stays := stays d @ [?st], stay_seq := stay_seq d + 1\<rparr>"
  have "stay_check (narrow_stay ((is_Stay im)\<lparr>st_TripID := t\<rparr>))"
    using Cons.prems(2) by (simp add: stay_check_def narrow_stay_def)
  then have add: "AddStay ((is_Stay im)\<lparr>st_TripID := t\<rparr>) d = Inr (stay_seq d + 1, ?d)"
    using Cons.prems(1) by (simp add: AddStay_def InsertTripStay_def insert_row_def narrow_stay_def)
  have "has_row st_ID (stay_seq d + 1) (stays ?d)" by (simp add: has_row_def)
  moreover have "linkable ?d (is_EntryIDs im @ concat (map is_EntryIDs ims))"
    using Cons.prems(3) by (simp add: linkable_def)
  ultimately obtain d2 where d2: "link_entries (stay_seq d + 1) (is_EntryIDs im) ?d = Inr d2"
    "linkable d2 (concat (map is_EntryIDs ims))" "trips d2 = trips ?d"
    using link_entries_succeeds by blast
  then obtain d' where "import_stays t ims d2 = Inr d'"
    using Cons.IH [of d2] Cons.prems by auto
  then show ?case using add d2(1) by simp
qed simp

text \<open>What an import asks to store, and whether the tables can hold it.\<close>

definition storable :: "trip \<Rightarrow> imported_stay list \<Rightarrow> bool" where
  "storable t ims \<longleftrightarrow> trip_check (narrow_trip (if t_MinNights t < 1 then t\<lparr>t_MinNights := 1\<rparr> else t)) \<and>
     (\<forall>im \<in> set ims. stay_check (narrow_stay (is_Stay im)))"

lemma check_stays_error: "check_stays ims = Inl e \<Longrightarrow> e = ErrImportInvalid"
  by (induction ims) (auto simp: Let_def split: if_splits)

lemma check_entry_ids_error: "check_entry_ids d seen acc eids = Inl e \<Longrightarrow> e \<in> set import_errors"
  by (induction eids arbitrary: seen acc) (auto simp: import_errors_def split: if_splits option.splits)

lemma check_entries_error: "check_entries d seen ims = Inl e \<Longrightarrow> e \<in> set import_errors"
proof (induction ims arbitrary: seen)
  case (Cons im ims)
  show ?case
  proof (cases "check_entry_ids d seen 0 (is_EntryIDs im)")
    case (Inl err)
    then show ?thesis using Cons.prems check_entry_ids_error [OF Inl] by (auto simp: import_errors_def split: if_splits)
  next
    case (Inr p)
    then show ?thesis using Cons by (cases p) (auto simp: import_errors_def split: if_splits)
  qed
qed simp

lemma import_refused:
  assumes "ImportBookedTrip t ims d = Inl e"
  shows "e \<in> set import_errors \<or> \<not> storable t ims"
proof (rule disjCI)
  assume "\<not> \<not> storable t ims"
  then have st: "storable t ims" by blast
  define u where "u = (if t_MinNights t < 1 then t\<lparr>t_MinNights := 1\<rparr> else t)"
  note eq = ImportBookedTrip_def [of t ims d, unfolded Let_def, folded u_def]
  show "e \<in> set import_errors"
  proof (cases "length ims = 0 \<or> t_EndDate u < t_StartDate u")
    case True
    then show ?thesis using assms unfolding eq by (auto simp: import_errors_def split: if_splits)
  next
    case False
    have run: "ImportBookedTrip t ims d = and_then (check_stays ims) (\<lambda>_.
        and_then (check_entries d (\<lambda>_. False) ims) (\<lambda>_.
        and_then (AddTrip u d) (\<lambda>(tripID, d1).
        and_then (import_stays tripID ims d1) (\<lambda>d2. Inr (tripID, d2)))))"
      unfolding eq using False by simp
    show ?thesis
    proof (cases "check_stays ims")
      case (Inl err)
      then show ?thesis using assms check_stays_error [OF Inl] by (simp add: run import_errors_def)
    next
      case (Inr x)
      show ?thesis
      proof (cases "check_entries d (\<lambda>_. False) ims")
        case (Inl err)
        then show ?thesis using assms Inr check_entries_error [OF Inl] by (simp add: run)
      next
        case entries: (Inr y)
        let ?d = "d\<lparr>trips := trips d @ [(narrow_trip u)\<lparr>t_ID := trip_seq d + 1\<rparr>], trip_seq := trip_seq d + 1\<rparr>"
        have add: "AddTrip u d = Inr (trip_seq d + 1, ?d)"
          using st unfolding AddTrip_def InsertTrip_def insert_row_def storable_def u_def [symmetric] by simp
        have "has_row t_ID (trip_seq d + 1) (trips ?d)" by (simp add: has_row_def)
        moreover have "linkable ?d (concat (map is_EntryIDs ims))"
          using check_entries_facts [of d _ ims] entries by (simp add: linkable_def)
        ultimately obtain d' where "import_stays (trip_seq d + 1) ims ?d = Inr d'"
          using import_stays_succeeds [of "trip_seq d + 1" ?d ims] st by (auto simp: storable_def)
        then have "ImportBookedTrip t ims d = Inr (trip_seq d + 1, d')"
          unfolding run by (simp only: Inr entries add and_then_simps prod.case)
        then show ?thesis using assms by simp
      qed
    qed
  qed
qed


text \<open>C12: An import answers 201 when it stored the trip, and otherwise leaves the database as it was: 400 when
  the body or one of the checks of the import is at fault, and 500 only for a trip or stay that passed
  all of these and that the tables cannot hold.\<close>

theorem import_status:
  "case importTrip errText body d of
     (ApiID s i, d') \<Rightarrow> s = 201 \<and>
       (\<exists>dto t ims. body = Some dto \<and> import_request dto = Inr (t, ims) \<and> ImportBookedTrip t ims d = Inr (i, d'))
   | (ApiError s msg, d') \<Rightarrow> d' = d \<and> s \<in> {400, 500} \<and>
       (if s = 500 then \<exists>dto t ims. body = Some dto \<and> import_request dto = Inr (t, ims) \<and> \<not> storable t ims else True)
   | _ \<Rightarrow> False"
proof (cases body)
  case None
  then show ?thesis by (simp add: importTrip_def writeAPIError_def)
next
  case (Some dto)
  show ?thesis
  proof (cases "import_request dto")
    case (Inl e)
    then show ?thesis using Some by (simp add: importTrip_def writeAPIError_def)
  next
    case (Inr p)
    obtain t ims where p: "p = (t, ims)" by fastforce
    show ?thesis
    proof (cases "ImportBookedTrip t ims d")
      case err: (Inl e)
      then show ?thesis
        using Some Inr p import_refused [OF err] by (auto simp: importTrip_def writeAPIError_def)
    next
      case ok: (Inr q)
      then show ?thesis using Some Inr p by (cases q) (simp add: importTrip_def)
    qed
  qed
qed

text \<open>A request whose only fault is a minimum of 31 nights is such a 500.\<close>

definition long_minimum :: "trip \<times> imported_stay list" where
  "long_minimum = (\<lparr>t_ID = 0, t_Name = ''T'', t_StartDate = 20600, t_EndDate = 20603, t_MinNights = 31,
     t_BudgetOverride = None, t_FilterMode = '''', t_ExcludeResorts = [], t_ExcludeRoomTypes = []\<rparr>,
     [\<lparr>is_Stay = \<lparr>st_ID = 0, st_TripID = 0, st_Resort = ''R'', st_RoomType = ''S'', st_View = '''', st_CheckIn = 20600,
        st_CheckOut = 20603, st_Nights = 3, st_Points = 60, st_QuoteHash = ''''\<rparr>, is_EntryIDs = [1]\<rparr>])"

definition long_minimum_db :: db where
  "long_minimum_db = fresh_db\<lparr>entries := [\<lparr>e_ID = 1, e_UseYear = 2026, e_Date = 20600, e_Desc = ''A'', e_Kind = KindUsage,
     e_Allotted = 0, e_Used = 60, e_Tag = '''', e_ContractID = None\<rparr>], entry_seq := 1\<rparr>"

lemma import_long_minimum:
  "ImportBookedTrip (fst long_minimum) (snd long_minimum) long_minimum_db = Inl ErrConstraint"
  by code_simp

end
