(* ===== verification/LedgerSteps.thy ===== *)
theory LedgerSteps
  imports Distribute TripImport
begin

text \<open>
  The ledger as a state machine: one rule for every operation of \<open>internal/ledger\<close> that writes, from a
  database the migrations have just created.  An operation that fails makes no step, except the
  distribution, which is not a transaction and keeps what it wrote.
\<close>

inductive ledger_step :: "db \<Rightarrow> db \<Rightarrow> bool" where
  add_contract: "ledger_step d (snd (AddContract c d))"
| update_contract: "ledger_step d (UpdateContract c d)"
| delete_contract: "ledger_step d (DeleteContract i d)"
| add_entry: "AddEntry e d = Inr (i, d') \<Longrightarrow> ledger_step d d'"
| update_entry: "UpdateEntry e d = Inr d' \<Longrightarrow> ledger_step d d'"
| delete_entry: "ledger_step d (DeleteEntry i d)"
| upsert_dues: "UpsertDuesRate r d = Inr d' \<Longrightarrow> ledger_step d d'"
| delete_dues: "ledger_step d (DeleteDuesRate y d)"
| distribute: "ledger_step d (snd (distributeUpTo maxYear d))"
| add_trip: "AddTrip t d = Inr (i, d') \<Longrightarrow> ledger_step d d'"
| update_trip: "UpdateTrip t d = Inr d' \<Longrightarrow> ledger_step d d'"
| add_stay: "AddStay st d = Inr (i, d') \<Longrightarrow> ledger_step d d'"
| book_trip: "bookTripOnce i d = Inr d' \<Longrightarrow> ledger_step d d'"
| unbook_trip: "ledger_step d (UnbookTrip i d)"
| delete_trip: "ledger_step d (DeleteTrip i d)"
| delete_stay: "ledger_step d (DeleteStay i d)"
| import_trip: "ImportBookedTrip t ims d = Inr (i, d') \<Longrightarrow> ledger_step d d'"

inductive reachable :: "db \<Rightarrow> bool" where
  init: "reachable fresh_db"
| step: "reachable d \<Longrightarrow> ledger_step d d' \<Longrightarrow> reachable d'"

inductive_cases ledger_step_cases: "ledger_step d d'"

lemma distribute_loop_ok: "db_ok d \<Longrightarrow> db_ok (snd (distribute_loop maxYear cs d))"
proof (induction cs arbitrary: d)
  case (Cons c cs)
  show ?case
  proof (cases "latestAllocationYear d (c_ID c)")
    case None
    then show ?thesis using Cons by simp
  next
    case (Some y)
    have "db_ok (snd (distribute_loop maxYear cs d1))" if "AddEntry (allocation_entry c (y + 1)) d = Inr (i, d1)" for i d1
      using Cons.IH [OF AddEntry_ok [OF Cons.prems that]] .
    then show ?thesis
      using Cons Some by (auto simp: Let_def split: sum.splits prod.splits)
  qed
qed simp

lemma ledger_step_ok: "ledger_step d d' \<Longrightarrow> db_ok d \<Longrightarrow> db_ok d'"
  by (induction rule: ledger_step.induct)
    (auto simp: AddContract_ok UpdateContract_db_ok DeleteContract_db_ok DeleteEntry_ok DeleteDuesRate_db_ok
      UnbookTrip_def DeleteEntriesForTrip_def DeleteTrip_def DeleteStay_def DeleteEntriesForStay_def
      delete_entries_ok DeleteTrip_ok DeleteTripStay_ok distributeUpTo_def distribute_loop_ok
      intro: AddEntry_ok UpdateEntry_db_ok UpsertDuesRate_db_ok AddTrip_ok UpdateTrip_db_ok AddStay_ok
        bookTripOnce_ok ImportBookedTrip_ok)

text \<open>In every database that the ledger's operations can reach, all constraints hold: ids are unique
  and never reused, every entry's contract, every stay's trip and both ends of every link exist, no entry
  is linked twice, every trip and stay passes its checks, every count fits its column, and a use
  year has at most one dues rate.\<close>

theorem reachable_consistent:
  "reachable d \<Longrightarrow> db_ok d"
  by (induction rule: reachable.induct) (auto simp: db_ok_fresh intro: ledger_step_ok)

theorem reachable_consistent_witness: "db_ok (snd (AddContract \<lparr>c_ID = 0, c_Name = ''A'', c_Number = '''',
    c_HomeResort = '''', c_AnnualPoints = 100, c_UseYearMonth = 4, c_TermYears = 0, c_PurchasePrice = 0,
    c_ClosingCosts = 0\<rparr> fresh_db))"
  by (rule reachable_consistent) (intro reachable.step [OF reachable.init] ledger_step.add_contract)

end
