(* ===== verification/Server.thy ===== *)
theory Server
  imports LedgerHandlers ApiHandlers LedgerSteps
begin

text \<open>
  \<open>internal/web/server.go\<close>: the routes of \<open>NewServer\<close>, the gate in front of them and the health check, so one
  request is one step of the whole server.  \<open>http.ServeMux\<close> is modelled by what the routes need of it: a
  pattern is a method and the segments of a path, the paths are clean and hold no escaped slash, and
  the more specific patterns stand first.  The lemmas show that every request moves the ledger along
  the steps of its state machine, and that a request the gate does not admit changes nothing.
\<close>

section \<open>Requests and responses\<close>

record server_request = http_request +
  q_EntryBody :: "entry_request_dto option"
  q_ContractBody :: "contract_dto option"
  q_ImportBody :: "import_trip_dto option"

record server_env = env +
  v_ping :: bool
  v_secret :: string
  v_secureCookies :: bool
  v_hmac :: hmac
  v_origin_host :: "string \<Rightarrow> string option"
  v_unix :: int

datatype server_response =
    Web response
  | Ledger ledger_response
  | Api api_response
  | Login login_response
  | LoggedOut "string option" string
  | Gate gate
  | Healthy
  | Unavailable
  | StaticFile string
  | NotRouted

section \<open>The mux\<close>

datatype segment = Lit string | Wild string

record pattern =
  pt_method :: string
  pt_segments :: "segment list"
  pt_subtree :: bool

fun match_segments :: "segment list \<Rightarrow> bool \<Rightarrow> string list \<Rightarrow> (string \<times> string) list option" where
  "match_segments [] subtree segs = (if subtree \<or> segs = [] then Some [] else None)"
| "match_segments (p # ps) subtree [] = None"
| "match_segments (Lit l # ps) subtree (s # segs) = (if s = l then match_segments ps subtree segs else None)"
| "match_segments (Wild x # ps) subtree (s # segs) =
     (if s = [] then None else map_option (\<lambda>m. (x, s) # m) (match_segments ps subtree segs))"

text \<open>A subtree pattern matches the paths below its final slash; a GET pattern also matches HEAD.\<close>

definition match_pattern :: "pattern \<Rightarrow> string \<Rightarrow> string \<Rightarrow> (string \<times> string) list option" where
  "match_pattern pt method path =
     (if \<not> (method = pt_method pt \<or> pt_method pt = ''GET'' \<and> method = ''HEAD'') then None
      else (case split_on (CHR ''/'') path of
          [] \<Rightarrow> None
        | seg # segs \<Rightarrow>
            if seg \<noteq> [] then None
            else if pt_subtree pt \<and> length segs \<le> length (pt_segments pt) then None
            else match_segments (pt_segments pt) (pt_subtree pt) segs))"

definition set_path_values :: "(string \<times> string) list \<Rightarrow> server_request \<Rightarrow> server_request" where
  "set_path_values m r = r\<lparr>q_PathValue := (\<lambda>k. case map_of m k of Some s \<Rightarrow> s | None \<Rightarrow> [])\<rparr>"

type_synonym handler = "server_request \<Rightarrow> web \<Rightarrow> server_response \<times> web"

fun dispatch :: "(pattern \<times> handler) list \<Rightarrow> server_request \<Rightarrow> web \<Rightarrow> server_response \<times> web" where
  "dispatch [] r w = (NotRouted, w)"
| "dispatch ((pt, h) # rs) r w =
     (case match_pattern pt (q_Method r) (q_Path r) of
        Some m \<Rightarrow> h (set_path_values m r) w
      | None \<Rightarrow> dispatch rs r w)"

definition route :: "string \<Rightarrow> segment list \<Rightarrow> handler \<Rightarrow> pattern \<times> handler" where
  "route method segs h = (\<lparr>pt_method = method, pt_segments = segs, pt_subtree = False\<rparr>, h)"

definition subtree :: "string \<Rightarrow> segment list \<Rightarrow> handler \<Rightarrow> pattern \<times> handler" where
  "subtree method segs h = (\<lparr>pt_method = method, pt_segments = segs, pt_subtree = True\<rparr>, h)"

section \<open>Handlers of the three kinds\<close>

definition on_web :: "(http_request \<Rightarrow> web \<Rightarrow> response \<times> web) \<Rightarrow> handler" where
  "on_web h r w = map_prod Web (\<lambda>w. w) (h (http_request.truncate r) w)"

definition on_ledger :: "(http_request \<Rightarrow> web \<Rightarrow> ledger_response \<times> web) \<Rightarrow> handler" where
  "on_ledger h r w = map_prod Ledger (\<lambda>w. w) (h (http_request.truncate r) w)"

definition on_api :: "(server_request \<Rightarrow> db \<Rightarrow> api_response \<times> db) \<Rightarrow> handler" where
  "on_api h r w = map_prod Api (\<lambda>d. w\<lparr>w_db := d\<rparr>) (h r (w_db w))"

definition healthz :: "server_env \<Rightarrow> handler" where
  "healthz v r w = (if v_ping v then Healthy else Unavailable, w)"

definition static_file :: handler where
  "static_file r w = (StaticFile (q_Path r), w)"

definition login_page :: handler where
  "login_page r w = (Login (loginPage (q_Query r ''next'')), w)"

definition login_submit :: "server_env \<Rightarrow> handler" where
  "login_submit v r w = (Login (loginSubmit (v_hmac v) (v_unix v) (v_secret v) (v_secureCookies v)
     (if q_FormErr r = None then Some (q_FormValue r ''next'', q_FormValue r ''password'') else None)), w)"

definition log_out :: handler where
  "log_out r w = (case logout (request.truncate r) of (c, to) \<Rightarrow> (LoggedOut c to, w))"

definition trip_routes :: "env \<Rightarrow> (pattern \<times> handler) list" where
  "trip_routes v =
     [route ''GET'' [Lit ''trips'', Lit ''new''] (on_web newTripForm),
      route ''POST'' [Lit ''trips''] (on_web (createTrip v)),
      route ''GET'' [Lit ''trips'', Wild ''id''] (on_web (tripPage v)),
      route ''POST'' [Lit ''trips'', Wild ''id''] (on_web (updateTrip v)),
      route ''DELETE'' [Lit ''trips'', Wild ''id''] (on_web deleteTrip),
      route ''POST'' [Lit ''trips'', Wild ''id'', Lit ''stays'', Wild ''row''] (on_web (addStay v)),
      route ''DELETE'' [Lit ''trips'', Wild ''id'', Lit ''stays'', Wild ''sid''] (on_web (removeStay v)),
      route ''POST'' [Lit ''trips'', Wild ''id'', Lit ''book''] (on_web (bookTrip v)),
      route ''POST'' [Lit ''trips'', Wild ''id'', Lit ''unbook''] (on_web (unbookTrip v)),
      route ''POST'' [Lit ''trips'', Wild ''id'', Lit ''budget''] (on_web (setBudgetOverride v)),
      route ''DELETE'' [Lit ''trips'', Wild ''id'', Lit ''budget''] (on_web (clearBudgetOverride v)),
      route ''GET'' [Lit ''filters''] (on_web (openFilters v)),
      route ''POST'' [Lit ''filters'', Lit ''resorts'', Wild ''code''] (on_web (toggleResortFilter v)),
      route ''POST'' [Lit ''filters'', Lit ''roomtypes'', Wild ''name''] (on_web (toggleRoomTypeFilter v)),
      route ''GET'' [Lit ''trips'', Wild ''id'', Lit ''filters''] (on_web (openTripFilters v)),
      route ''POST'' [Lit ''trips'', Wild ''id'', Lit ''filters'', Lit ''mode''] (on_web (setTripFilterMode v)),
      route ''POST'' [Lit ''trips'', Wild ''id'', Lit ''filters'', Lit ''resorts'', Wild ''code'']
        (on_web (toggleTripResortFilter v)),
      route ''POST'' [Lit ''trips'', Wild ''id'', Lit ''filters'', Lit ''roomtypes'', Wild ''name'']
        (on_web (toggleTripRoomTypeFilter v)),
      route ''DELETE'' [Lit ''trips'', Wild ''id'', Lit ''filters''] (on_web (resetTripFilters v)),
      route ''GET'' [Lit ''panel'', Lit ''close''] (on_web closePanel)]"

definition ledger_routes :: "env \<Rightarrow> (pattern \<times> handler) list" where
  "ledger_routes v =
     [route ''GET'' [Lit ''ledger''] (on_ledger (page v)),
      route ''GET'' [Lit ''ledger'', Lit ''history''] (on_ledger (history v)),
      route ''GET'' [Lit ''ledger'', Lit ''contracts''] (on_ledger (contracts_page v)),
      route ''POST'' [Lit ''ledger'', Lit ''entries''] (on_ledger (addEntry v)),
      route ''GET'' [Lit ''ledger'', Lit ''entries'', Wild ''id'', Lit ''edit''] (on_ledger (editEntry v)),
      route ''POST'' [Lit ''ledger'', Lit ''entries'', Wild ''id'', Lit ''update''] (on_ledger (updateEntry v)),
      route ''POST'' [Lit ''ledger'', Lit ''entries'', Lit ''edit'', Lit ''cancel''] (on_ledger (cancelEdit v)),
      route ''DELETE'' [Lit ''ledger'', Lit ''entries'', Wild ''id''] (on_ledger (deleteEntry v)),
      route ''POST'' [Lit ''ledger'', Lit ''contracts''] (on_ledger (addContract v)),
      route ''GET'' [Lit ''ledger'', Lit ''contracts'', Wild ''id'', Lit ''edit''] (on_ledger (editContract v)),
      route ''POST'' [Lit ''ledger'', Lit ''contracts'', Wild ''id'', Lit ''update''] (on_ledger (updateContract v)),
      route ''POST'' [Lit ''ledger'', Lit ''contracts'', Lit ''edit'', Lit ''cancel''] (on_ledger (cancelContractEdit v)),
      route ''DELETE'' [Lit ''ledger'', Lit ''contracts'', Wild ''id''] (on_ledger (deleteContract v)),
      route ''POST'' [Lit ''ledger'', Lit ''dues''] (on_ledger (upsertDues v)),
      route ''DELETE'' [Lit ''ledger'', Lit ''dues'', Wild ''year''] (on_ledger (deleteDues v)),
      route ''POST'' [Lit ''ledger'', Lit ''distribute''] (on_ledger (LedgerHandlers.distribute v))]"

definition api_path :: "string list \<Rightarrow> segment list" where
  "api_path segs = map Lit (''api'' # ''v1'' # segs)"

definition api_routes :: "env \<Rightarrow> (pattern \<times> handler) list" where
  "api_routes v =
     [route ''GET'' (api_path [''ledger'', ''entries'']) (on_api (\<lambda>r. api_listEntries)),
      route ''POST'' (api_path [''ledger'', ''entries'']) (on_api (\<lambda>r. api_addEntry (v_errText v) (q_EntryBody r))),
      route ''PUT'' (api_path [''ledger'', ''entries''] @ [Wild ''id''])
        (on_api (\<lambda>r. api_updateEntry (v_errText v) (q_PathValue r ''id'') (q_EntryBody r))),
      route ''DELETE'' (api_path [''ledger'', ''entries''] @ [Wild ''id''])
        (on_api (\<lambda>r. api_deleteEntry (q_PathValue r ''id''))),
      route ''GET'' (api_path [''ledger'', ''contracts'']) (on_api (\<lambda>r. api_listContracts)),
      route ''POST'' (api_path [''ledger'', ''contracts'']) (on_api (\<lambda>r. api_addContract (v_errText v) (q_ContractBody r))),
      route ''DELETE'' (api_path [''ledger'', ''contracts''] @ [Wild ''id''])
        (on_api (\<lambda>r. api_deleteContract (q_PathValue r ''id''))),
      route ''GET'' (api_path [''ledger'', ''summaries'']) (on_api (\<lambda>r. api_summaries)),
      route ''POST'' (api_path [''ledger'', ''distribute''])
        (on_api (\<lambda>r. api_distribute (v_errText v) (date_Year (v_today v)))),
      route ''POST'' (api_path [''trips'', ''import'']) (on_api (\<lambda>r. importTrip (v_errText v) (q_ImportBody r)))]"

definition login_routes :: "server_env \<Rightarrow> (pattern \<times> handler) list" where
  "login_routes v =
     [route ''GET'' [Lit ''login''] login_page, route ''POST'' [Lit ''login''] (login_submit v),
      route ''POST'' [Lit ''logout''] log_out]"

definition routes :: "server_env \<Rightarrow> (pattern \<times> handler) list" where
  "routes v =
     (let e = env.truncate v in
      [route ''GET'' [Lit ''healthz''] (healthz v), subtree ''GET'' [Lit ''static''] static_file]
      @ trip_routes e @ ledger_routes e @ api_routes e @ [subtree ''GET'' [] (on_web (tripList e))])"

definition serve :: "server_env \<Rightarrow> server_request \<Rightarrow> web \<Rightarrow> server_response \<times> web" where
  "serve v r w =
     (if v_secret v = [] then dispatch (routes v) r w
      else (case authMiddleware (v_hmac v) (v_origin_host v) (v_unix v) (v_secret v) (request.truncate r) of
          Serve \<Rightarrow> dispatch (login_routes v @ routes v) r w
        | g \<Rightarrow> (Gate g, w)))"

lemma match_route:
  "match_pattern \<lparr>pt_method = m, pt_segments = ps, pt_subtree = False\<rparr> meth path =
     (if meth = m \<or> m = ''GET'' \<and> meth = ''HEAD'' then
        (case split_on (CHR ''/'') path of [] \<Rightarrow> None
         | seg # segs \<Rightarrow> if seg \<noteq> [] then None else match_segments ps False segs)
      else None)"
  by (simp add: match_pattern_def split: list.split)

section \<open>A sample server\<close>

definition sample_server :: server_env where
  "sample_server = \<lparr>v_charts = [sample_chart], v_now1 = 0, v_now2 = 0, v_fetch_ok = True, v_save_ok = True,
     v_tx = (\<lambda>i d. (d, False)), v_today = 20500, v_errText = (\<lambda>e. ''error''), v_ping = True, v_secret = ''s'',
     v_secureCookies = True, v_hmac = (\<lambda>k m. m), v_origin_host = (\<lambda>u. None), v_unix = 0\<rparr>"

definition sample_call :: "string \<Rightarrow> string \<Rightarrow> string \<Rightarrow> (string \<Rightarrow> string) \<Rightarrow> server_request" where
  "sample_call auth method path form = \<lparr>q_Method = method, q_Path = path, q_RawQuery = [], q_Host = ''h'',
     q_Header = (\<lambda>k. if k = ''Authorization'' then auth else []), q_Cookie = None, q_FormErr = None,
     q_FormValue = form, q_PathValue = (\<lambda>k. []), q_Query = (\<lambda>k. []), q_EntryBody = None,
     q_ContractBody = None, q_ImportBody = None\<rparr>"

definition sample_web :: "db \<Rightarrow> web" where
  "sample_web d = \<lparr>w_db = d, w_global = \<lparr>g_cfg = \<lparr>cfg_ExcludeResorts = [], cfg_ExcludeRoomTypes = []\<rparr>,
     g_saved = \<lparr>cfg_ExcludeResorts = [], cfg_ExcludeRoomTypes = []\<rparr>\<rparr>, w_costs = newCostProvider\<rparr>"

end
