(* ===== verification/TripFlows.thy ===== *)
theory TripFlows
  imports Handlers
begin

text \<open>
  What a user does across requests: the page of a trip, and what the buttons on it then do.  Each
  lemma starts from the page a \<open>GET\<close> has shown and says what the next \<open>POST\<close> answers and stores.
\<close>

section \<open>The page\<close>

lemma buildTripView_parts:
  "tv_StaysPoints (buildTripView t sts b rs month basis sc f) = (\<Sum>st\<leftarrow>sts. st_Points st)"
  "tv_Remaining (buildTripView t sts b rs month basis sc f) = searchBudgetFor t b sts"
  "tv_HasUnbookedStays (buildTripView t sts b rs month basis sc f) = snd (stayBookingStatus sts)"
  "tv_HasBookedStays (buildTripView t sts b rs month basis sc f) = fst (stayBookingStatus sts)"
  "tv_Stays (buildTripView t sts b rs month basis sc f) = map (stay_view_of month basis sc) sts"
  "tv_Results (buildTripView t sts b rs month basis sc f) = map (result_row_of sts basis sc) (enumerate 0 (take 200 rs))"
  "tv_Funding (buildTripView t sts b rs month basis sc f) =
     (if snd (stayBookingStatus sts) then buildTripFundingView f sts else zero_funding_view)"
  "tv_Booked (buildTripView t sts b rs month basis sc f) \<longleftrightarrow>
     fst (stayBookingStatus sts) \<and> \<not> snd (stayBookingStatus sts)"
  by (simp_all add: buildTripView_def Let_def maxResultRows_def deriveTripStatus_def case_prod_beta)

lemma stayBookingStatus_eq: "stayBookingStatus sts = (\<exists>st \<in> set sts. Booked st, \<exists>st \<in> set sts. \<not> Booked st)"
proof -
  have "foldl (\<lambda>(a, u) st. if Booked st then (True, u) else (a, True)) (a, u) sts =
      (a \<or> (\<exists>st \<in> set sts. Booked st), u \<or> (\<exists>st \<in> set sts. \<not> Booked st))" for a u
    by (induction sts arbitrary: a u) auto
  then show ?thesis by (simp add: stayBookingStatus_def)
qed

lemma stay_view_row [simp]:
  "sv_ID (stay_view_of month basis sc st) = st_ID st" "sv_Points (stay_view_of month basis sc st) = st_Points st"
  by (simp_all add: stay_view_of_def priceStay_def Let_def case_prod_beta)

lemma result_row_fields [simp]:
  "rr_Resort (result_row_of sts basis sc (i, r)) = r_Resort r" "rr_RoomType (result_row_of sts basis sc (i, r)) = r_RoomType r"
  "rr_View (result_row_of sts basis sc (i, r)) = r_View r" "rr_CheckIn (result_row_of sts basis sc (i, r)) = r_CheckIn r"
  "rr_CheckOut (result_row_of sts basis sc (i, r)) = r_CheckOut r" "rr_Nights (result_row_of sts basis sc (i, r)) = r_Nights r"
  "rr_Points (result_row_of sts basis sc (i, r)) = r_Points r"
  by (simp_all add: result_row_of_def priceRow_def Let_def case_prod_beta)

lemma funding_loop_flags: "fv_Fundable (fst (funding_loop sts sfs fv totals order)) = fv_Fundable fv"
proof (induction sfs arbitrary: fv totals order)
  case (Cons sf sfs)
  obtain n t o' where "draws_loop (sf_Draws sf) (fv_TotalPoints fv) totals order = (n, t, o')"
    by (metis prod_cases3)
  then show ?case using Cons by (simp add: Let_def split: option.splits)
qed simp

lemma funding_view_fundable: "fv_Fundable (buildTripFundingView f sts) = tp_Fundable f"
  using funding_loop_flags [of sts "tp_Stays f" "zero_funding_view\<lparr>fv_Show := True, fv_Fundable := tp_Fundable f\<rparr>"
      Map.empty "[]"]
  by (simp add: buildTripFundingView_def case_prod_beta)

lemma preview_total: "\<exists>f. PreviewTripFunding sts d = Inr f \<and> (tp_Fundable f \<longleftrightarrow> is_ok (funding_plan sts d))"
  using PreviewTripFunding_plan [of sts d] by (cases "funding_plan sts d") auto

definition charts_ok :: "env \<Rightarrow> bool" where
  "charts_ok v \<longleftrightarrow> (\<forall>chart \<in> set (v_charts v). chart_ok chart)"

definition trip_search :: "env \<Rightarrow> trip \<Rightarrow> int \<Rightarrow> web \<Rightarrow> search_params" where
  "trip_search v t budget w =
     (let filters = EffectiveFilters (global_Get (w_global w)) (t_FilterMode t) (tripFilterSet t)
      in \<lparr>WindowStart = t_StartDate t, WindowEnd = t_EndDate t, Budget = budget, MinNights = t_MinNights t,
          ExcludeResorts = f_ExcludeResorts filters, ExcludeRoomTypes = f_ExcludeRoomTypes filters\<rparr>)"

lemma searchTrip_eq:
  "charts_ok v \<Longrightarrow> searchTrip v t b w = Some (sort_slice result_less (offered_stays (v_charts v) (trip_search v t b w)))"
  using search_offers [of "v_charts v"]
  by (simp add: searchTrip_def trip_search_def tripFilterSet_def charts_ok_def Let_def)

text \<open>With well-formed charts a trip page can always be built.\<close>

definition search_budget :: "trip \<Rightarrow> db \<Rightarrow> int" where
  "search_budget t d = searchBudgetFor t (TripBudget d (t_StartDate t)) (ListStays (t_ID t) d)"

definition trip_page_view :: "env \<Rightarrow> trip \<Rightarrow> string \<Rightarrow> web \<Rightarrow> trip_funding_preview \<Rightarrow> trip_view" where
  "trip_page_view v t msg w f =
     (let ((basis, showCosts), _) = costBasis v w
      in (buildTripView t (ListStays (t_ID t) (w_db w)) (TripBudget (w_db w) (t_StartDate t))
           (sort_slice result_less (offered_stays (v_charts v) (trip_search v t (search_budget t (w_db w)) w)))
           (UseYearMonth basis) basis showCosts f)\<lparr>tv_Err := msg\<rparr>)"

lemma costBasis_state: "w_db (snd (costBasis v w)) = w_db w" "w_global (snd (costBasis v w)) = w_global w"
  by (simp_all add: costBasis_def Let_def case_prod_beta)

lemma searchTrip_state:
  "searchTrip v t b (snd (costBasis v w)) = searchTrip v t b w"
  "trip_search v t b (snd (costBasis v w)) = trip_search v t b w"
  by (simp_all add: searchTrip_def trip_search_def costBasis_state)

lemma page_view_ok:
  assumes "charts_ok v"
  shows "\<exists>f. buildTripPageView v t msg w = (Some (Inr (trip_page_view v t msg w f)), snd (costBasis v w)) \<and>
    (snd (stayBookingStatus (ListStays (t_ID t) (w_db w))) \<longrightarrow>
      (tp_Fundable f \<longleftrightarrow> is_ok (funding_plan (ListStays (t_ID t) (w_db w)) (w_db w))))"
proof -
  let ?sts = "ListStays (t_ID t) (w_db w)"
  obtain f where f: "PreviewTripFunding ?sts (w_db w) = Inr f" "tp_Fundable f \<longleftrightarrow> is_ok (funding_plan ?sts (w_db w))"
    using preview_total by blast
  have "buildTripPageView v t msg w = (Some (Inr (trip_page_view v t msg w
      (if snd (stayBookingStatus ?sts) then f else \<lparr>tp_Stays = [], tp_Fundable = False\<rparr>))), snd (costBasis v w))"
    using f(1) by (simp add: buildTripPageView_def trip_page_view_def search_budget_def searchTrip_state
        searchTrip_eq [OF assms] costBasis_state Let_def case_prod_beta)
  then show ?thesis using f(2) by auto
qed

lemma page_view_parts:
  "tv_StaysPoints (trip_page_view v t msg w f) = (\<Sum>st\<leftarrow>ListStays (t_ID t) (w_db w). st_Points st)"
  "tv_Remaining (trip_page_view v t msg w f) = search_budget t (w_db w)"
  "tv_HasUnbookedStays (trip_page_view v t msg w f) \<longleftrightarrow> (\<exists>st \<in> set (ListStays (t_ID t) (w_db w)). \<not> Booked st)"
  "tv_Booked (trip_page_view v t msg w f) \<longleftrightarrow> (\<exists>st \<in> set (ListStays (t_ID t) (w_db w)). Booked st) \<and>
     (\<forall>st \<in> set (ListStays (t_ID t) (w_db w)). Booked st)"
  "map sv_ID (tv_Stays (trip_page_view v t msg w f)) = map st_ID (ListStays (t_ID t) (w_db w))"
  by (simp_all add: trip_page_view_def case_prod_beta buildTripView_parts stayBookingStatus_eq search_budget_def)

lemma page_view_fundable:
  "tv_HasUnbookedStays (trip_page_view v t msg w f) \<Longrightarrow>
     fv_Fundable (tv_Funding (trip_page_view v t msg w f)) = tp_Fundable f"
  by (simp add: trip_page_view_def case_prod_beta buildTripView_parts funding_view_fundable)

lemma GetTrip_id: "GetTrip i d = Inr t \<Longrightarrow> t_ID t = i \<and> t \<in> set (trips d)"
  by (auto simp: GetTrip_def GetTrip_row_def find_Some_iff split: option.splits)

lemma getTripOr404_Inr [simp]: "getTripOr404 v i w = Inr t \<longleftrightarrow> GetTrip i (w_db w) = Inr t"
  by (auto simp: getTripOr404_def split: sum.splits)

lemma GetTrip_trips: "trips d' = trips d \<Longrightarrow> GetTrip i d' = GetTrip i d"
  by (simp add: GetTrip_def GetTrip_row_def)

text \<open>The trip a shown page is about.\<close>

lemma page_shown:
  assumes "charts_ok v" and "fst (tripPage v r w) = TripPage tv"
  obtains i t f where "tripID r = Inr i" and "GetTrip i (w_db w) = Inr t" and "t_ID t = i"
    and "tv = trip_page_view v t [] w f"
    and "tv_HasUnbookedStays tv \<Longrightarrow> fv_Fundable (tv_Funding tv) \<longleftrightarrow> is_ok (funding_plan (ListStays i (w_db w)) (w_db w))"
proof -
  from assms(2) obtain i t where i: "tripID r = Inr i" and t: "GetTrip i (w_db w) = Inr t"
    and p: "fst (page_response v TripPage (buildTripPageView v t [] w)) = TripPage tv"
    by (auto simp: tripPage_def tripID_def getTripOr404_def split: sum.splits option.splits if_splits)
  have id: "t_ID t = i" using GetTrip_id [OF t] by blast
  obtain f where f: "buildTripPageView v t [] w = (Some (Inr (trip_page_view v t [] w f)), snd (costBasis v w))"
    and fund: "snd (stayBookingStatus (ListStays i (w_db w))) \<longrightarrow>
      (tp_Fundable f \<longleftrightarrow> is_ok (funding_plan (ListStays i (w_db w)) (w_db w)))"
    using page_view_ok [OF assms(1), of t "[]" w] id by auto
  have tv: "tv = trip_page_view v t [] w f" using p by (simp add: f)
  moreover have "fv_Fundable (tv_Funding tv) \<longleftrightarrow> is_ok (funding_plan (ListStays i (w_db w)) (w_db w))"
    if "tv_HasUnbookedStays tv"
    using fund that page_view_fundable [of v t "[]" w f]
    by (simp add: tv page_view_parts id stayBookingStatus_eq)
  ultimately show ?thesis using that i t id by blast
qed

lemma page_fundable:
  assumes "charts_ok v" and "fst (tripPage v r w) = TripPage tv" and "tripID r = Inr i" and "tv_HasUnbookedStays tv"
  shows "fv_Fundable (tv_Funding tv) \<longleftrightarrow> is_ok (funding_plan (ListStays i (w_db w)) (w_db w))"
  using page_shown [OF assms(1,2)] assms(3,4) by (metis sum.inject(2))

lemma fragment_ok:
  assumes "charts_ok v" and "GetTrip i (w_db w) = Inr t"
  shows "\<exists>f. fst (renderTripFragment v i w) = TripFragment (trip_page_view v t [] w f)"
proof -
  obtain f where "buildTripPageView v t [] w = (Some (Inr (trip_page_view v t [] w f)), snd (costBasis v w))"
    using page_view_ok [OF assms(1)] by blast
  moreover have "getTripOr404 v i w = Inr t" using assms(2) by simp
  ultimately have "renderTripFragment v i w = (TripFragment (trip_page_view v t [] w f), snd (costBasis v w))"
    by (simp add: renderTripFragment_def del: getTripOr404_Inr)
  then show ?thesis by auto
qed


section \<open>Booking what the page calls fundable\<close>

lemma undisturbed_BookTrip:
  "(\<And>i d. v_tx v i d = (d, False)) \<Longrightarrow>
     BookTrip (v_tx v) i d = (case bookTripOnce i d of Inl e \<Rightarrow> (Some e, d) | Inr d' \<Rightarrow> (None, d'))"
  by (simp add: BookTrip_def bookTripAttempts_def numeral_3_eq_3 split: sum.splits)

text \<open>C7: The Book button keeps the promise of the page: when the page of a trip with stays still to book calls
  it fundable, booking it undisturbed answers with the same stays, all of them booked; when the page
  does not, booking is refused for want of points and nothing changes.\<close>

theorem fundable_trip_books:
  assumes "db_ok (w_db w)" and "charts_ok v" and "fst (tripPage v r w) = TripPage tv" and "tv_HasUnbookedStays tv"
    and "w_db w' = w_db w" and "charts_ok v'" and "\<And>i d. v_tx v' i d = (d, False)"
    and "q_PathValue r' ''id'' = q_PathValue r ''id''"
  shows "if fv_Fundable (tv_Funding tv)
    then \<exists>tv'. fst (bookTrip v' r' w') = TripFragment tv' \<and> tv_Booked tv' \<and> \<not> tv_HasUnbookedStays tv' \<and>
           map sv_ID (tv_Stays tv') = map sv_ID (tv_Stays tv)
    else bookTrip v' r' w' = (HttpError 500 (v_errText v' ErrInsufficientPoints), w')"
proof -
  let ?d = "w_db w"
  obtain i t f where i: "tripID r = Inr i" and t: "GetTrip i ?d = Inr t" and id: "t_ID t = i"
    and tv: "tv = trip_page_view v t [] w f"
    and fund: "fv_Fundable (tv_Funding tv) \<longleftrightarrow> is_ok (funding_plan (ListStays i ?d) ?d)"
    using page_shown [OF assms(2,3)] assms(4) by metis
  have i': "tripID r' = Inr i" using i assms(8) by (simp add: tripID_def)
  have t': "getTripOr404 v' i w' = Inr t" using t assms(5) by simp
  have book: "bookTrip v' r' w' = (case bookTripOnce i ?d of
      Inl e \<Rightarrow> (HttpError 500 (v_errText v' e), w')
    | Inr d \<Rightarrow> renderTripFragment v' i (w'\<lparr>w_db := d, w_costs := Invalidate (w_costs w')\<rparr>))"
    using undisturbed_BookTrip [OF assms(7), of i ?d] assms(5)
    by (simp add: bookTrip_def i' t' del: getTripOr404_Inr split: sum.splits)
  note once = bookTripOnce_plan [OF assms(1) t]
  show ?thesis
  proof (cases "funding_plan (ListStays i ?d) ?d")
    case (Inl e)
    then have "e = ErrInsufficientPoints" using fund_plan_error by (simp add: funding_plan_def)
    then show ?thesis using Inl fund book once by simp
  next
    case (Inr plan)
    let ?d' = "post_all t (flat_plan plan) ?d"
    let ?w = "w'\<lparr>w_db := ?d', w_costs := Invalidate (w_costs w')\<rparr>"
    have "GetTrip i (w_db ?w) = Inr t" using t GetTrip_trips [of ?d' ?d] by simp
    from fragment_ok [OF assms(6) this] obtain f' where
      f': "fst (renderTripFragment v' i ?w) = TripFragment (trip_page_view v' t [] ?w f')" by blast
    let ?tv = "trip_page_view v' t [] ?w f'"
    have booked: "\<forall>st \<in> set (ListStays i ?d'). Booked st" by (rule all_booked_after [OF assms(1) Inr])
    have ids: "map st_ID (ListStays i ?d') = map st_ID (ListStays i ?d)"
    proof -
      have "map st_ID sts = map st_ID (map stay_row.truncate sts)" for sts :: "trip_stay list"
        by (simp add: stay_row.defs)
      moreover have "map stay_row.truncate (ListStays i ?d') = map stay_row.truncate (ListStays i ?d)"
        by (simp add: ListStays_rows)
      ultimately show ?thesis by metis
    qed
    have "ListStays i ?d \<noteq> []" using assms(4) by (auto simp: tv page_view_parts id)
    then have "hd (ListStays i ?d') \<in> set (ListStays i ?d')" using ids by (intro hd_in_set) force
    then have "tv_Booked ?tv \<and> \<not> tv_HasUnbookedStays ?tv \<and> map sv_ID (tv_Stays ?tv) = map sv_ID (tv_Stays tv)"
      using booked ids by (auto simp: page_view_parts tv id)
    moreover have "bookTrip v' r' w' = renderTripFragment v' i ?w" by (simp add: book once Inr)
    ultimately show ?thesis using fund Inr f' by auto
  qed
qed


definition sample_env :: env where
  "sample_env = \<lparr>v_charts = [sample_chart], v_now1 = 0, v_now2 = 0, v_fetch_ok = True, v_save_ok = True,
     v_tx = (\<lambda>i d. (d, False)), v_today = 20500, v_errText = (\<lambda>e. ''error'')\<rparr>"

definition sample_post :: "(string \<Rightarrow> string) \<Rightarrow> (string \<Rightarrow> string) \<Rightarrow> http_request" where
  "sample_post path form = \<lparr>q_Method = ''POST'', q_Path = ''/trips'', q_RawQuery = [], q_Host = ''h'',
     q_Header = (\<lambda>k. []), q_Cookie = None, q_FormErr = None, q_FormValue = form, q_PathValue = path,
     q_Query = (\<lambda>k. [])\<rparr>"

definition sample_state :: "db \<Rightarrow> web" where
  "sample_state d = \<lparr>w_db = d, w_global = \<lparr>g_cfg = \<lparr>cfg_ExcludeResorts = [''VGF''], cfg_ExcludeRoomTypes = []\<rparr>,
     g_saved = \<lparr>cfg_ExcludeResorts = [], cfg_ExcludeRoomTypes = []\<rparr>\<rparr>, w_costs = newCostProvider\<rparr>"

lemma sample_charts_ok: "charts_ok sample_env"
  by (simp add: charts_ok_def sample_env_def chart_ok_def sample_chart_def)

lemma page_exists:
  assumes "charts_ok v" and "tripID r = Inr i" and "GetTrip i (w_db w) = Inr t"
  shows "\<exists>f. fst (tripPage v r w) = TripPage (trip_page_view v t [] w f)"
proof -
  obtain f where "buildTripPageView v t [] w = (Some (Inr (trip_page_view v t [] w f)), snd (costBasis v w))"
    using page_view_ok [OF assms(1)] by blast
  moreover have "getTripOr404 v i w = Inr t" using assms(3) by simp
  ultimately have "tripPage v r w = (TripPage (trip_page_view v t [] w f), snd (costBasis v w))"
    by (simp add: tripPage_def assms(2) del: getTripOr404_Inr)
  then show ?thesis by auto
qed

theorem fundable_trip_books_witness:
  "\<exists>tv'. fst (bookTrip sample_env (sample_post (\<lambda>k. ''1'') (\<lambda>k. [])) (sample_state booking_db)) = TripFragment tv' \<and>
     tv_Booked tv'"
proof -
  let ?r = "sample_post (\<lambda>k. ''1'') (\<lambda>k. [])" and ?w = "sample_state booking_db"
  have "ParseInt ''1'' = Some 1" by code_simp
  then have id: "tripID ?r = Inr 1" by (simp add: tripID_def sample_post_def)
  obtain t where t: "GetTrip 1 (w_db ?w) = Inr t" using booking_db_trip by (auto simp: sample_state_def)
  have t1: "t_ID t = 1" using GetTrip_id [OF t] by blast
  obtain f where page: "fst (tripPage sample_env ?r ?w) = TripPage (trip_page_view sample_env t [] ?w f)"
    using page_exists [OF sample_charts_ok id t] by blast
  let ?tv = "trip_page_view sample_env t [] ?w f"
  have "\<exists>st \<in> set (ListStays 1 booking_db). \<not> Booked st" by code_simp
  then have unbooked: "tv_HasUnbookedStays ?tv" by (simp add: page_view_parts t1 sample_state_def)
  have "is_ok (funding_plan (ListStays 1 booking_db) booking_db)" by code_simp
  then have "is_ok (funding_plan (ListStays 1 (w_db ?w)) (w_db ?w))" by (simp add: sample_state_def)
  then have fundable: "fv_Fundable (tv_Funding ?tv)"
    by (rule page_fundable [OF sample_charts_ok page id unbooked, THEN iffD2])
  have ok: "db_ok (w_db ?w)" using booking_db_ok by (simp add: sample_state_def)
  have calm: "v_tx sample_env i d = (d, False)" for i d by (simp add: sample_env_def)
  from fundable_trip_books [OF ok sample_charts_ok page unbooked refl sample_charts_ok calm refl]
  show ?thesis unfolding if_P [OF fundable] by blast
qed

section \<open>Creating a trip\<close>

lemma parseTripForm_Inr:
  assumes "parseTripForm r = Inr t"
  shows "trip_check t \<and> narrow_trip t = t \<and> t_Name t = TrimSpace (q_FormValue r ''name'') \<and> t_Name t \<noteq> [] \<and>
    ParseDate (q_FormValue r ''from'') = Some (t_StartDate t) \<and> ParseDate (q_FormValue r ''to'') = Some (t_EndDate t) \<and>
    Atoi (q_FormValue r ''min_nights'') = Some (t_MinNights t)"
proof -
  have "in32 n" if "1 \<le> n" "n \<le> MaxNights" for n using that by (simp add: in32_def MaxNights_def)
  then show ?thesis
    using assms
    by (auto simp: parseTripForm_def Let_def trip_check_def narrow_trip_def MaxNights_def int32_id not_less
        split: option.splits if_splits)
qed


lemma find_append_new: "(\<And>x. x \<in> set xs \<Longrightarrow> f x \<noteq> k) \<Longrightarrow> f y = k \<Longrightarrow> find (\<lambda>x. f x = k) (xs @ [y]) = Some y"
  by (induction xs) auto

lemma new_trip_id:
  assumes "db_ok d" and "x \<in> set (trips d)"
  shows "t_ID x \<noteq> trip_seq d + 1"
proof -
  have "table_ok t_ID (trip_seq d) (trips d)" using assms(1) by (simp add: db_ok_def tables_ok_def)
  then have "trip_seq d + 1 \<notin> t_ID ` set (trips d)" by (rule trip_table.new_id_fresh)
  then show ?thesis using assms(2) by (metis imageI)
qed

lemma new_trip_empty:
  assumes "db_ok d"
  shows "ListStays (trip_seq d + 1) (d\<lparr>trips := ts, trip_seq := n\<rparr>) = []"
proof -
  have "st_TripID st \<noteq> trip_seq d + 1" if "st \<in> set (stays d)" for st
  proof -
    have "has_row t_ID (st_TripID st) (trips d)" using assms that by (simp add: db_ok_def references_ok_def)
    then obtain x where "x \<in> set (trips d)" "st_TripID st = t_ID x" unfolding has_row_iff by blast
    then show ?thesis using new_trip_id [OF assms, of x] by simp
  qed
  then have "ListTripStays (trip_seq d + 1) (d\<lparr>trips := ts, trip_seq := n\<rparr>) = []"
    by (simp add: ListTripStays_def filter_empty_conv sort_key_def)
  then show ?thesis by (simp add: ListStays_def Let_def)
qed


definition spring_form :: "string \<Rightarrow> string" where
  "spring_form k = (if k = ''name'' then '' Spring'' else if k = ''from'' then ''2026-04-01''
     else if k = ''to'' then ''4/8/2026'' else if k = ''min_nights'' then ''2'' else [])"



section \<open>Taking the filters over\<close>

text \<open>Nothing a page shows besides the trip itself depends on the table of trips.\<close>

lemma trips_irrelevant:
  "ListStays i (d\<lparr>trips := ts\<rparr>) = ListStays i d" "TripBudget (d\<lparr>trips := ts\<rparr>) = TripBudget d"
  "CostBasis (d\<lparr>trips := ts\<rparr>) = CostBasis d" "PreviewTripFunding sts (d\<lparr>trips := ts\<rparr>) = PreviewTripFunding sts d"
proof -
  show "ListStays i (d\<lparr>trips := ts\<rparr>) = ListStays i d"
    by (simp add: ListStays_def ListTripStayEntryIDsForTrip_def ListTripStayUsedPointsForTrip_def ListTripStays_def
        stay_of_trip_def link_used_def)
  have con: "ListContracts (d\<lparr>trips := ts\<rparr>) = ListContracts d"
    by (simp add: ListContracts_def ListContracts_rows_def)
  then show "TripBudget (d\<lparr>trips := ts\<rparr>) = TripBudget d"
    by (simp add: TripBudget_def fun_eq_iff UseYearSummaries_def UseYearSummaries_rows_def)
  from con show "CostBasis (d\<lparr>trips := ts\<rparr>) = CostBasis d"
    by (simp add: CostBasis_def ListDuesRates_def ListDuesRates_rows_def)
  show "PreviewTripFunding sts (d\<lparr>trips := ts\<rparr>) = PreviewTripFunding sts d"
    by (simp add: PreviewTripFunding_def lotSnapshot_def lotSnapshotContracts_def lotSnapshotLots_def
        lotSnapshotConsumed_def unattributedUsage_def)
qed

lemma UpdateTrip_state:
  "UpdateTrip t d = Inr d' \<Longrightarrow> d' = d\<lparr>trips := update_row t_ID (narrow_trip t) (trips d)\<rparr>"
  by (auto simp: UpdateTrip_def UpdateTrip_row_def split: if_splits)

lemma UpdateTrip_get:
  assumes "UpdateTrip t d = Inr d'" and "GetTrip i d = Inr t0" and "t_ID t = i"
  shows "GetTrip i d' = Inr (narrow_trip t)"
proof -
  have "find (\<lambda>x. t_ID x = i) (update_row t_ID (narrow_trip t) ts) = Some (narrow_trip t)"
    if "find (\<lambda>x. t_ID x = i) ts = Some t0" for ts
    using that assms(3) by (induction ts) (auto simp: update_row_def narrow_trip_def split: if_splits)
  then show ?thesis
    using assms(2) UpdateTrip_state [OF assms(1)]
    by (auto simp: GetTrip_def GetTrip_row_def split: option.splits)
qed

lemma costBasis_trips:
  "fst (costBasis v (w\<lparr>w_db := (w_db w)\<lparr>trips := ts\<rparr>\<rparr>)) = fst (costBasis v w)"
  "w_costs (snd (costBasis v (w\<lparr>w_db := (w_db w)\<lparr>trips := ts\<rparr>\<rparr>))) = w_costs (snd (costBasis v w))"
  by (simp_all add: costBasis_def trips_irrelevant Let_def case_prod_beta)

text \<open>Two trips that agree in their dates, length and budget and are searched with the same filters have
  pages with the same data.\<close>

definition same_page :: "trip \<Rightarrow> trip \<Rightarrow> bool" where
  "same_page t u \<longleftrightarrow> t_ID t = t_ID u \<and> t_Name t = t_Name u \<and> t_StartDate t = t_StartDate u \<and>
     t_EndDate t = t_EndDate u \<and> t_MinNights t = t_MinNights u \<and> t_BudgetOverride t = t_BudgetOverride u"

lemma buildTripView_same:
  "same_page t u \<Longrightarrow> buildTripView t sts b rs m basis sc f = buildTripView u sts b rs m basis sc f"
  by (simp add: same_page_def buildTripView_def searchBudgetFor_def effectiveBudget_def)

lemma page_view_same:
  assumes "same_page t u" and "\<And>b. searchTrip v t b w = searchTrip v u b w"
  shows "fst (buildTripPageView v u msg (w\<lparr>w_db := (w_db w)\<lparr>trips := ts\<rparr>\<rparr>)) = fst (buildTripPageView v t msg w)"
proof -
  have s: "searchTrip v u b (w\<lparr>w_db := (w_db w)\<lparr>trips := ts\<rparr>\<rparr>) = searchTrip v t b w" for b
    unfolding assms(2) by (simp add: searchTrip_def)
  have p: "t_ID u = t_ID t" "t_StartDate u = t_StartDate t"
    "searchBudgetFor u bg sts = searchBudgetFor t bg sts" for bg sts
    using assms(1) by (simp_all add: same_page_def searchBudgetFor_def effectiveBudget_def)
  show ?thesis
    by (simp add: buildTripPageView_def s p searchTrip_state costBasis_state costBasis_trips trips_irrelevant
        buildTripView_same [OF assms(1), symmetric] Let_def case_prod_beta split: option.split)
qed


lemma page_state: "snd (buildTripPageView v t msg w) = snd (costBasis v w)"
  by (simp add: buildTripPageView_def Let_def case_prod_beta split: option.split)

lemma page_response_state: "snd (page_response v f p) = snd p"
  by (cases "(v, f, p)" rule: page_response.cases) simp_all

definition with_filters :: "filter_set \<Rightarrow> trip \<Rightarrow> trip" where
  "with_filters f t = t\<lparr>t_FilterMode := TripFilterOverride, t_ExcludeResorts := f_ExcludeResorts f,
     t_ExcludeRoomTypes := f_ExcludeRoomTypes f\<rparr>"

lemma with_filters_same: "same_page t (with_filters f t)"
  by (simp add: with_filters_def same_page_def)

lemma CloneFilterSet_id [simp]: "CloneFilterSet f = f"
  by (simp add: CloneFilterSet_def)

lemma EffectiveFilters_with:
  "EffectiveFilters g (t_FilterMode (with_filters f t)) (tripFilterSet (with_filters f t)) = f"
  by (simp add: EffectiveFilters_def with_filters_def tripFilterSet_def)

lemma searchTrip_with_filters:
  assumes "t_FilterMode t = TripFilterInherit"
  shows "searchTrip v (with_filters (AsFilterSet (global_Get (w_global w))) t) b w' = searchTrip v t b w"
  using assms by (simp add: searchTrip_def EffectiveFilters_def with_filters_def Let_def)

lemma narrow_checked:
  "trip_check t \<Longrightarrow> searchTrip v (narrow_trip t) b w = searchTrip v t b w"
  by (simp add: searchTrip_def narrow_trip_def trip_check_def int32_id in32_def)

lemma UpdateTrip_checked: "trip_check t \<Longrightarrow> narrow_trip t = t \<Longrightarrow> \<exists>d'. UpdateTrip t d = Inr d'"
  by (simp add: UpdateTrip_def UpdateTrip_row_def)

text \<open>C10: Switching a trip to filters of its own changes nothing on the screen: the panel keeps its options
  and the page its stays, budget and results, row by row.  From then on the trip's searches are what
  they were, whatever is toggled in the global filters.\<close>

theorem override_keeps_page:
  assumes "db_ok (w_db w)" and "GetTrip i (w_db w) = Inr t" and "narrow_trip t = t"
    and "t_FilterMode t = TripFilterInherit" and "tripID r = Inr i"
    and "q_FormErr r = None" and "q_FormValue r ''mode'' = ''override''"
    and "fst (tripPage v r w) = TripPage tv" and "fst (openTripFilters v r w) = FiltersPanel fw"
  shows "fst (setTripFilterMode v r w) =
      FiltersTripToggle (fw\<lparr>fw_Scope := (fw_Scope fw)\<lparr>fs_Mode := ''override''\<rparr>\<rparr>) tv \<and>
    (\<exists>t'. GetTrip i (w_db (snd (setTripFilterMode v r w))) = Inr t' \<and> t_FilterMode t' = ''override'' \<and>
      (\<forall>g b. searchTrip v t' b (w\<lparr>w_global := g\<rparr>) = searchTrip v t b w))"
proof -
  let ?f = "AsFilterSet (global_Get (w_global w))"
  let ?t = "with_filters ?f t"
  have id: "t_ID t = i" and tc: "trip_check t"
    using GetTrip_id [OF assms(2)] assms(1) by (auto simp: db_ok_def checks_ok_def)
  have "narrow_trip ?t = with_filters ?f (narrow_trip t)" by (simp add: narrow_trip_def with_filters_def)
  then have tc': "trip_check ?t" "narrow_trip ?t = ?t"
    using tc assms(3) by (simp_all add: trip_check_def with_filters_def)
  obtain d where d: "UpdateTrip ?t (w_db w) = Inr d" using UpdateTrip_checked [OF tc'] by blast
  note dd = UpdateTrip_state [OF d]
  have get: "getTripOr404 v i w = Inr t" using assms(2) by simp
  have "fst (page_response v TripPage (buildTripPageView v t [] w)) = TripPage tv"
    using assms(8) by (simp add: tripPage_def assms(5) get del: getTripOr404_Inr)
  then have page: "fst (buildTripPageView v t [] w) = Some (Inr tv)"
    by (cases "(v, TripPage, buildTripPageView v t [] w)" rule: page_response.cases) simp_all
  have "fst (buildTripPageView v ?t [] (w\<lparr>w_db := d\<rparr>)) = Some (Inr tv)"
    unfolding dd page [symmetric]
    by (rule page_view_same [OF with_filters_same searchTrip_with_filters [OF assms(4), symmetric]])
  then have view: "fst (page_response v F (buildTripPageView v ?t [] (w\<lparr>w_db := d\<rparr>))) = F tv" for F
    by (cases "(v, F, buildTripPageView v ?t [] (w\<lparr>w_db := d\<rparr>))" rule: page_response.cases) simp_all
  have fw: "fw = toFiltersView (FilterOptionsFor (v_charts v) ?f) (tripFilterScope t)"
    using assms(9) by (simp add: openTripFilters_def assms(5) get EffectiveFilters_def assms(4) Let_def
        del: getTripOr404_Inr)
  have toggled: "setTripFilterMode v r w = renderTripFilterToggle v ?t (w\<lparr>w_db := d\<rparr>)"
    using d by (simp add: setTripFilterMode_def assms(5-7) get save_and_toggle_def with_filters_def Let_def
        del: getTripOr404_Inr)
  have "fst (setTripFilterMode v r w) =
      FiltersTripToggle (fw\<lparr>fw_Scope := (fw_Scope fw)\<lparr>fs_Mode := ''override''\<rparr>\<rparr>) tv"
    unfolding toggled renderTripFilterToggle_def Let_def view EffectiveFilters_with fw
    by (simp add: toFiltersView_def tripFilterScope_def with_filters_def)
  moreover have "w_db (snd (setTripFilterMode v r w)) = d"
    by (simp add: toggled renderTripFilterToggle_def page_response_state page_state costBasis_state Let_def)
  moreover have "GetTrip i d = Inr ?t"
    using UpdateTrip_get [OF d assms(2)] id tc'(2) by (simp add: with_filters_def)
  moreover have "searchTrip v ?t b (w\<lparr>w_global := g\<rparr>) = searchTrip v t b w" for g b
    by (rule searchTrip_with_filters [OF assms(4)])
  ultimately show ?thesis by (intro conjI exI [of _ ?t]) (simp_all add: with_filters_def)
qed


definition mode_form :: "string \<Rightarrow> string" where
  "mode_form k = (if k = ''mode'' then ''override'' else [])"

theorem override_keeps_page_witness:
  "\<exists>fw tv t'. fst (setTripFilterMode sample_env (sample_post (\<lambda>k. ''1'') mode_form) (sample_state booking_db)) =
       FiltersTripToggle fw tv \<and> fs_Mode (fw_Scope fw) = ''override'' \<and>
     GetTrip 1 (w_db (snd (setTripFilterMode sample_env (sample_post (\<lambda>k. ''1'') mode_form) (sample_state booking_db)))) =
       Inr t' \<and> t_FilterMode t' = ''override''"
proof -
  let ?r = "sample_post (\<lambda>k. ''1'') mode_form" and ?w = "sample_state booking_db"
  let ?t = "hd (trips booking_db)"
  have "ParseInt ''1'' = Some 1" by code_simp
  then have id: "tripID ?r = Inr 1" by (simp add: tripID_def sample_post_def)
  have t: "GetTrip 1 (w_db ?w) = Inr ?t" and m: "t_FilterMode ?t = TripFilterInherit" and n: "narrow_trip ?t = ?t"
    by (simp_all add: GetTrip_def GetTrip_row_def booking_db_def sample_state_def narrow_trip_def int32_id in32_def)
  have ok: "db_ok (w_db ?w)" using booking_db_ok by (simp add: sample_state_def)
  obtain f where page: "fst (tripPage sample_env ?r ?w) = TripPage (trip_page_view sample_env ?t [] ?w f)"
    using page_exists [OF sample_charts_ok id t] by blast
  have "getTripOr404 sample_env 1 ?w = Inr ?t" using t by simp
  then obtain fw where panel: "fst (openTripFilters sample_env ?r ?w) = FiltersPanel fw"
    by (simp add: openTripFilters_def id Let_def del: getTripOr404_Inr)
  have form: "q_FormErr ?r = None" "q_FormValue ?r ''mode'' = ''override''"
    by (simp_all add: sample_post_def mode_form_def)
  from override_keeps_page [OF ok t n m id form page panel] show ?thesis by auto
qed


section \<open>Collecting a result\<close>

definition charts_priced :: "env \<Rightarrow> bool" where
  "charts_priced v \<longleftrightarrow> charts_ok v \<and>
     (\<forall>chart \<in> set (v_charts v). \<forall>s \<in> set (Seasons chart). \<forall>p \<in> set (SunThu s) \<union> set (FriSat s). 1 \<le> p \<and> p \<le> 10 ^ 6)"

lemma points_in_member:
  "points_in ss d k = Some (Inr p) \<Longrightarrow> \<exists>s \<in> set ss. p \<in> set (SunThu s) \<union> set (FriSat s)"
proof (induction ss)
  case (Cons s ss)
  then show ?case
    by (auto simp: index_panic_def split: sum.splits bool.splits if_splits)
qed simp

lemma stay_total_priced:
  assumes "\<forall>s \<in> set (Seasons chart). \<forall>p \<in> set (SunThu s) \<union> set (FriSat s). 1 \<le> p \<and> p \<le> 10 ^ 6"
  shows "stay_total chart k ci n = Some t \<Longrightarrow> int n \<le> t \<and> t \<le> int n * 10 ^ 6"
proof (induction n arbitrary: t)
  case (Suc n)
  then obtain t0 p where "stay_total chart k ci n = Some t0"
      and p: "night_points chart k (ci + int n) = Some p" and t: "t = t0 + p"
    by (auto simp: bind_eq_Some_conv)
  moreover have "points_in (Seasons chart) (ci + int n) k = Some (Inr p)"
    using p by (simp add: night_points_def PointsForNight_def split: option.splits sum.splits)
  from points_in_member [OF this] have "1 \<le> p \<and> p \<le> 10 ^ 6" using assms by blast
  ultimately show ?case using Suc.IH [of t0] by (simp add: algebra_simps)
qed simp

lemma offer_fields:
  "r \<in> set (offer params chart ic ci n) \<Longrightarrow> r_CheckIn r = ci \<and> r_CheckOut r = ci + int n \<and> r_Nights r = int n \<and>
     stay_total chart (fst ic) ci n = Some (r_Points r)"
  by (auto simp: offer_def split: option.splits if_splits)

lemma offered_stay:
  assumes "charts_priced v" and "r \<in> set (offered_stays (v_charts v) params)"
  shows "stay_check (stay_of_result i r) \<and> narrow_stay (stay_of_result i r) = stay_of_result i r"
proof -
  from assms(2) obtain chart ic ci n where c: "chart \<in> set (v_charts v)" and n: "1 \<le> n" "n < 31"
    and off: "r \<in> set (offer params chart ic ci n)"
    by (auto simp: offered_stays_def split: if_splits)
  note f = offer_fields [OF off]
  have "int n \<le> r_Points r \<and> r_Points r \<le> int n * 10 ^ 6"
    using stay_total_priced [of chart "fst ic" ci n] f assms(1) c by (simp add: charts_priced_def)
  then have "0 < r_Points r" "in32 (r_Points r)" "in32 (r_Nights r)"
    using n f by (auto simp: in32_def)
  then show ?thesis
    using f n by (simp add: stay_check_def stay_of_result_def narrow_stay_def int32_id)
qed

lemma TripBudget_stays: "TripBudget (d\<lparr>stays := s, stay_seq := n\<rparr>) = TripBudget d"
  by (simp add: TripBudget_def fun_eq_iff UseYearSummaries_def UseYearSummaries_rows_def ListContracts_def
      ListContracts_rows_def)

text \<open>A new stay is listed unbooked beside the old ones, which keep their entries.\<close>

lemma ListStays_add:
  assumes "db_ok d" and "st_TripID st = i" and "st_ID st = stay_seq d + 1"
  shows "mset (ListStays i (d\<lparr>stays := stays d @ [st], stay_seq := n\<rparr>)) =
    add_mset (tripStayFromRow st) (mset (ListStays i d))"
proof -
  let ?d = "d\<lparr>stays := stays d @ [st], stay_seq := n\<rparr>"
  have old: "k_StayID k \<noteq> st_ID st" if "k \<in> set (links d)" for k
  proof -
    have "table_ok st_ID (stay_seq d) (stays d)" and "has_row st_ID (k_StayID k) (stays d)"
      using assms(1) that by (simp_all add: db_ok_def tables_ok_def references_ok_def)
    then show ?thesis using assms(3) stay_table.new_id_fresh [of "stay_seq d" "stays d"] by (metis has_row_iff)
  qed
  then have so: "stay_of_trip ?d i (k_StayID k) = stay_of_trip d i (k_StayID k)" if "k \<in> set (links d)" for k
    using not_sym [OF old [OF that]] by (simp add: stay_of_trip_def)
  have fl: "filter (\<lambda>k. stay_of_trip ?d i (k_StayID k)) (links d) = filter (\<lambda>k. stay_of_trip d i (k_StayID k)) (links d)"
    using so by (intro filter_cong) simp_all
  have ids: "ListTripStayEntryIDsForTrip i ?d = ListTripStayEntryIDsForTrip i d"
    and used: "ListTripStayUsedPointsForTrip i ?d = ListTripStayUsedPointsForTrip i d"
    using fl by (simp_all add: ListTripStayEntryIDsForTrip_def ListTripStayUsedPointsForTrip_def link_used_def)
  have none: "filter (\<lambda>(s, e). s = st_ID st) (ListTripStayEntryIDsForTrip i d) = []"
    using old by (auto simp: ListTripStayEntryIDsForTrip_def filter_empty_conv)
  have no_ids: "entry_ids_by_stay (ListTripStayEntryIDsForTrip i d) (st_ID st) = []"
    by (simp add: entry_ids_by_stay none)
  have "st_ID st \<notin> set (group_keys k_StayID (filter (\<lambda>k. stay_of_trip d i (k_StayID k)) (links d)))"
    using old by (force simp: set_group_keys)
  then have zero: "used_by_stay (ListTripStayUsedPointsForTrip i d) (st_ID st) = 0"
    unfolding ListTripStayUsedPointsForTrip_def Let_def used_by_stay_def
    by (subst used_by_stay_foldl) (simp_all only: map_of_map_key map_map comp_def fst_conv, simp_all)
  have rows: "mset (ListTripStays i ?d) = add_mset st (mset (ListTripStays i d))"
    using assms(2) by (simp add: ListTripStays_def)
  have row: "(tripStayFromRow st)\<lparr>st_EntryIDs := [], st_EntryPoints := 0\<rparr> = tripStayFromRow st"
    by (simp add: tripStayFromRow_def stay_row.defs)
  show ?thesis
    unfolding ListStays_def Let_def ids used mset_map rows image_mset_add_mset no_ids zero row ..
qed

lemma search_budget_add:
  assumes "mset (ListStays (t_ID t) d') = add_mset (tripStayFromRow st) (mset (ListStays (t_ID t) d))"
    and "TripBudget d' = TripBudget d"
  shows "search_budget t d' = search_budget t d - st_Points st"
    and "(\<Sum>s\<leftarrow>ListStays (t_ID t) d'. st_Points s) = (\<Sum>s\<leftarrow>ListStays (t_ID t) d. st_Points s) + st_Points st"
    and "tripStayFromRow st \<in> set (ListStays (t_ID t) d')" and "\<not> Booked (tripStayFromRow st)"
proof -
  have m: "mset (ListStays (t_ID t) d') = mset (tripStayFromRow st # ListStays (t_ID t) d)"
    using assms(1) by simp
  have new: "\<not> Booked (tripStayFromRow st)" "st_Points (tripStayFromRow st) = st_Points st"
    by (simp_all add: tripStayFromRow_def Booked_def stay_row.defs)
  then show "\<not> Booked (tripStayFromRow st)" by blast
  show "search_budget t d' = search_budget t d - st_Points st"
    using sum_list_filter_mset_cong [OF m, of st_Points "\<lambda>st. \<not> Booked st"] new
    by (simp add: search_budget_def searchBudgetFor_eq unbooked_points_def assms(2))
  show "(\<Sum>s\<leftarrow>ListStays (t_ID t) d'. st_Points s) = (\<Sum>s\<leftarrow>ListStays (t_ID t) d. st_Points s) + st_Points st"
    using sum_list_mset_cong [OF m, of st_Points] new by simp
  show "tripStayFromRow st \<in> set (ListStays (t_ID t) d')"
    using m by (metis list.set_intros(1) set_mset_mset)
qed

lemma searchTrip_cong:
  "v_charts v' = v_charts v \<Longrightarrow> w_global w' = w_global w \<Longrightarrow> searchTrip v' t b w' = searchTrip v t b w"
  by (simp add: searchTrip_def)

lemma shown_row:
  assumes "n < length (tv_Results (trip_page_view v t msg w f))" and ok: "charts_ok v"
  shows "\<exists>rs sts basis sc. searchTrip v t (search_budget t (w_db w)) w = Some rs \<and> n < length rs \<and>
    tv_Results (trip_page_view v t msg w f) ! n = result_row_of sts basis sc (n, rs ! n)"
proof -
  let ?rs = "sort_slice result_less (offered_stays (v_charts v) (trip_search v t (search_budget t (w_db w)) w))"
  obtain basis sc w1 where cb: "costBasis v w = ((basis, sc), w1)" by (metis prod_cases3 surj_pair)
  have rows: "tv_Results (trip_page_view v t msg w f) =
      map (result_row_of (ListStays (t_ID t) (w_db w)) basis sc) (enumerate 0 (take 200 ?rs))"
    by (simp add: trip_page_view_def cb buildTripView_parts)
  then have n: "n < length ?rs" "n < 200" using assms by simp_all
  then have "tv_Results (trip_page_view v t msg w f) ! n =
      result_row_of (ListStays (t_ID t) (w_db w)) basis sc (n, ?rs ! n)"
    by (simp add: rows nth_enumerate_eq)
  then show ?thesis using n(1) searchTrip_eq [OF ok] by blast
qed

text \<open>C8: Collecting row \<open>n\<close> of the page the user sees stores the stay of that very row: the search the handler
  runs again finds it under the same number, the database accepts it, and the page that comes back counts
  its points among the stays and takes them from what is left to search with.\<close>

theorem collect_row:
  assumes "db_ok (w_db w)" and "charts_priced v" and "fst (tripPage v r w) = TripPage tv"
    and "n < length (tv_Results tv)"
    and "w_db w' = w_db w" and "w_global w' = w_global w" and "v_charts v' = v_charts v"
    and "q_PathValue r' ''id'' = q_PathValue r ''id''" and "Atoi (q_PathValue r' ''row'') = Some (int n)"
  shows "\<exists>st tv'. fst (addStay v' r' w') = TripFragment tv' \<and>
    stays (w_db (snd (addStay v' r' w'))) = stays (w_db w) @ [st] \<and> tripID r = Inr (st_TripID st) \<and>
    (let row = tv_Results tv ! n
     in st_Resort st = rr_Resort row \<and> st_RoomType st = rr_RoomType row \<and> st_View st = rr_View row \<and>
        st_CheckIn st = rr_CheckIn row \<and> st_CheckOut st = rr_CheckOut row \<and> st_Nights st = rr_Nights row \<and>
        st_Points st = rr_Points row \<and> tv_StaysPoints tv' = tv_StaysPoints tv + rr_Points row \<and>
        tv_Remaining tv' = tv_Remaining tv - rr_Points row \<and> tv_HasUnbookedStays tv')"
proof -
  let ?d = "w_db w"
  have ok: "charts_ok v" "charts_ok v'" using assms(2,7) by (simp_all add: charts_priced_def charts_ok_def)
  obtain i t f where i: "tripID r = Inr i" and t: "GetTrip i ?d = Inr t" and id: "t_ID t = i"
    and tv: "tv = trip_page_view v t [] w f"
    using page_shown [OF ok(1) assms(3)] by metis
  obtain rs sts basis sc where rs: "searchTrip v t (search_budget t ?d) w = Some rs" "n < length rs"
    and row: "tv_Results tv ! n = result_row_of sts basis sc (n, rs ! n)"
    using shown_row [OF assms(4) [unfolded tv] ok(1)] unfolding tv by metis
  let ?res = "rs ! n"
  let ?st = "(stay_of_result i ?res)\<lparr>st_ID := stay_seq ?d + 1\<rparr>"
  let ?d' = "?d\<lparr>stays := stays ?d @ [?st], stay_seq := stay_seq ?d + 1\<rparr>"
  let ?w = "w'\<lparr>w_db := ?d'\<rparr>"
  have "?res \<in> set (offered_stays (v_charts v) (trip_search v t (search_budget t ?d) w))"
    using rs searchTrip_eq [OF ok(1), of t "search_budget t ?d" w] result_order.sorter_mset
    by (metis nth_mem option.inject set_mset_mset)
  note off = offered_stay [OF assms(2) this, of i]
  have "has_row t_ID i (trips ?d)" using GetTrip_id [OF t] by (auto simp: has_row_iff)
  then have add: "AddStay (stay_of_result i ?res) ?d = Inr (stay_seq ?d + 1, ?d')"
    using off by (simp add: AddStay_def InsertTripStay_def insert_row_def stay_of_result_def)
  have "tripID r' = Inr i" using i assms(8) by (simp add: tripID_def)
  moreover have "getTripOr404 v' i w' = Inr t" using t assms(5) by simp
  moreover have "searchTrip v' t (searchBudgetFor t (TripBudget ?d (t_StartDate t)) (ListStays i ?d)) w' = Some rs"
    using rs(1) searchTrip_cong [OF assms(7,6)] by (simp add: search_budget_def id)
  ultimately have handler: "addStay v' r' w' = renderTripFragment v' i ?w"
    using rs(2) add by (simp add: addStay_def assms(5,9) Let_def del: getTripOr404_Inr)
  have "GetTrip i (w_db ?w) = Inr t" using t by (simp add: GetTrip_def GetTrip_row_def)
  from fragment_ok [OF ok(2) this] obtain f' where
    f': "fst (renderTripFragment v' i ?w) = TripFragment (trip_page_view v' t [] ?w f')" by blast
  have st: "w_db (snd (renderTripFragment v' i ?w)) = ?d'"
    by (simp add: renderTripFragment_def page_response_state page_state costBasis_state split: sum.split)
  have "mset (ListStays (t_ID t) ?d') = add_mset (tripStayFromRow ?st) (mset (ListStays (t_ID t) ?d))"
    unfolding id by (rule ListStays_add [OF assms(1)]) (simp_all add: stay_of_result_def)
  note b = search_budget_add [OF this TripBudget_stays]
  have old: "tv_StaysPoints tv = (\<Sum>s\<leftarrow>ListStays (t_ID t) ?d. st_Points s)" "tv_Remaining tv = search_budget t ?d"
    by (simp_all add: tv page_view_parts)
  let ?tv = "trip_page_view v' t [] ?w f'"
  have new: "tv_StaysPoints ?tv = (\<Sum>s\<leftarrow>ListStays (t_ID t) ?d'. st_Points s)" "tv_Remaining ?tv = search_budget t ?d'"
    "tv_HasUnbookedStays ?tv \<longleftrightarrow> (\<exists>st \<in> set (ListStays (t_ID t) ?d'). \<not> Booked st)"
    by (simp_all add: page_view_parts)
  have fields: "st_TripID ?st = i" "st_Resort ?st = r_Resort ?res" "st_RoomType ?st = r_RoomType ?res"
    "st_View ?st = r_View ?res" "st_CheckIn ?st = r_CheckIn ?res" "st_CheckOut ?st = r_CheckOut ?res"
    "st_Nights ?st = r_Nights ?res" "st_Points ?st = r_Points ?res"
    by (simp_all add: stay_of_result_def)
  have unbooked: "\<exists>st \<in> set (ListStays (t_ID t) ?d'). \<not> Booked st" using b(3,4) by blast
  show ?thesis
    unfolding handler f' st i Let_def row result_row_fields
    by (intro exI [of _ ?st] exI [of _ ?tv] conjI refl)
      (simp_all only: fields new old b(1,2) unbooked, simp)
qed


lemma shown_length:
  assumes "charts_ok v" and "searchTrip v t (search_budget t (w_db w)) w = Some rs"
  shows "length (tv_Results (trip_page_view v t msg w f)) = min 200 (length rs)"
proof -
  obtain basis sc w1 where "costBasis v w = ((basis, sc), w1)" by (metis prod_cases3 surj_pair)
  then show ?thesis
    using assms searchTrip_eq [OF assms(1), of t "search_budget t (w_db w)" w]
    by (simp add: trip_page_view_def buildTripView_parts)
qed

definition collect_trip :: trip where
  "collect_trip = \<lparr>t_ID = 1, t_Name = ''T'', t_StartDate = 20574, t_EndDate = 20576, t_MinNights = 1,
     t_BudgetOverride = Some 100, t_FilterMode = ''override'', t_ExcludeResorts = [], t_ExcludeRoomTypes = []\<rparr>"

definition collect_db :: db where
  "collect_db = booking_db\<lparr>trips := [collect_trip]\<rparr>"

definition collect_path :: "string \<Rightarrow> string" where
  "collect_path k = (if k = ''row'' then ''0'' else ''1'')"

lemma collect_db_ok: "db_ok collect_db"
  by (simp add: collect_db_def collect_trip_def booking_db_def fresh_db_def db_ok_defs table_ok_def contract_fk_def
      has_row_def contract_width_def entry_width_def in32_def seeded_dues_def stay_check_def stay_width_def
      trip_check_def)

lemma collect_search:
  "map_option (map (\<lambda>r. r_Points r)) (searchTrip sample_env collect_trip (search_budget collect_trip collect_db)
     (sample_state collect_db)) = Some [20, 20, 40, 40, 40]"
  by code_simp


theorem collect_row_witness:
  "\<exists>st. stays (w_db (snd (addStay sample_env (sample_post collect_path (\<lambda>k. [])) (sample_state collect_db)))) =
     stays collect_db @ [st] \<and> st_Points st = 20"
proof -
  let ?r = "sample_post collect_path (\<lambda>k. [])" and ?w = "sample_state collect_db" and ?t = collect_trip
  have w: "w_db ?w = collect_db" by (simp add: sample_state_def)
  have "ParseInt ''1'' = Some 1" by code_simp
  then have id: "tripID ?r = Inr 1" by (simp add: tripID_def sample_post_def collect_path_def)
  have "Atoi ''0'' = Some 0" by code_simp
  then have zero: "Atoi (q_PathValue ?r ''row'') = Some (int 0)" by (simp add: sample_post_def collect_path_def)
  have t: "GetTrip 1 (w_db ?w) = Inr ?t" unfolding w by (simp add: GetTrip_def GetTrip_row_def collect_db_def collect_trip_def)
  have priced: "charts_priced sample_env"
    using sample_charts_ok by (simp add: charts_priced_def sample_env_def sample_chart_def)
  obtain rs where rs: "searchTrip sample_env ?t (search_budget ?t (w_db ?w)) ?w = Some rs"
    and pts: "map (\<lambda>r. r_Points r) rs = [20, 20, 40, 40, 40]"
    using collect_search by (auto simp: w)
  then have hd: "rs \<noteq> []" "r_Points (rs ! 0) = 20"
    by (auto simp: map_eq_Cons_conv)
  obtain f where page: "fst (tripPage sample_env ?r ?w) = TripPage (trip_page_view sample_env ?t [] ?w f)"
    using page_exists [OF sample_charts_ok id t] by blast
  let ?tv = "trip_page_view sample_env ?t [] ?w f"
  have n: "0 < length (tv_Results ?tv)"
    using shown_length [OF sample_charts_ok rs] hd(1) by simp
  have row: "rr_Points (tv_Results ?tv ! 0) = 20"
    using shown_row [OF n sample_charts_ok] rs hd(2) by auto
  have ok: "db_ok (w_db ?w)" using collect_db_ok by (simp add: w)
  from collect_row [OF ok priced page n refl refl refl refl zero] row
  show ?thesis unfolding w Let_def by auto
qed

end
