(* ===== verification/ServerSteps.thy ===== *)
theory ServerSteps
  imports Server TripFlows
begin

text \<open>
  What a request does to the state, handler by handler: it moves the database along the steps of the
  ledger's state machine, and it keeps the cached cost basis that of the current ledger.  The two
  together are \<open>moves\<close>; the lemmas compose it from the operations a handler calls.
\<close>

section \<open>Moves\<close>

definition coherent :: "web \<Rightarrow> bool" where
  "coherent w \<longleftrightarrow> (cp_ok (w_costs w) \<longrightarrow> cp_basis (w_costs w) = CostBasis (w_db w))"

definition same_pricing :: "db \<Rightarrow> db \<Rightarrow> bool" where
  "same_pricing d d' \<longleftrightarrow> contracts d' = contracts d \<and> dues_rates d' = dues_rates d"

definition moves :: "web \<Rightarrow> web \<Rightarrow> bool" where
  "moves w w' \<longleftrightarrow> ledger_step\<^sup>*\<^sup>* (w_db w) (w_db w') \<and> (coherent w \<longrightarrow> coherent w')"

text \<open>The transactions that interfere with a booking are themselves steps of the ledger, and leave the
  contracts and the dues alone.\<close>

definition calm :: "env \<Rightarrow> bool" where
  "calm v \<longleftrightarrow> (\<forall>i d. ledger_step\<^sup>*\<^sup>* d (fst (v_tx v i d)) \<and> same_pricing d (fst (v_tx v i d)))"

lemma same_pricing_refl [simp]: "same_pricing d d"
  by (simp add: same_pricing_def)

lemma same_pricing_trans: "same_pricing a b \<Longrightarrow> same_pricing b c \<Longrightarrow> same_pricing a c"
  by (simp add: same_pricing_def)

lemma same_pricing_CostBasis: "same_pricing d d' \<Longrightarrow> CostBasis d' = CostBasis d"
  by (simp add: same_pricing_def CostBasis_def ListContracts_def ListContracts_rows_def ListDuesRates_def
      ListDuesRates_rows_def)

lemma moves_refl [simp]: "moves w w"
  by (simp add: moves_def)

lemma moves_trans: "moves a b \<Longrightarrow> moves b c \<Longrightarrow> moves a c"
  by (auto simp: moves_def)

lemma moves_db: "ledger_step\<^sup>*\<^sup>* (w_db w) d \<Longrightarrow> same_pricing (w_db w) d \<Longrightarrow> moves w (w\<lparr>w_db := d\<rparr>)"
  by (simp add: moves_def coherent_def same_pricing_CostBasis)

lemma moves_invalidate:
  "ledger_step\<^sup>*\<^sup>* (w_db w) d \<Longrightarrow> moves w (w\<lparr>w_db := d, w_costs := Invalidate (w_costs w)\<rparr>)"
  by (simp add: moves_def coherent_def Invalidate_def)

lemma moves_global: "moves w (w\<lparr>w_global := g\<rparr>)"
  by (simp add: moves_def coherent_def)

section \<open>Operations that keep the contracts and the dues\<close>

named_theorems pricing

lemma pricing_delete_entries [pricing]: "same_pricing d (delete_entries P d)"
  by (simp add: same_pricing_def delete_entries_def)

lemma pricing_delete_stays [pricing]: "same_pricing d (delete_stays P d)"
  by (simp add: same_pricing_def delete_stays_def)

lemma pricing_UnbookTrip [pricing]: "same_pricing d (UnbookTrip i d)"
  by (simp add: UnbookTrip_def DeleteEntriesForTrip_def pricing)

lemma pricing_DeleteTrip [pricing]: "same_pricing d (DeleteTrip i d)"
  by (simp add: DeleteTrip_def DeleteTrip_row_def DeleteEntriesForTrip_def same_pricing_def delete_entries_def
      delete_stays_def)

lemma pricing_DeleteStay [pricing]: "same_pricing d (DeleteStay i d)"
  by (simp add: DeleteStay_def DeleteTripStay_def DeleteEntriesForStay_def same_pricing_def delete_entries_def
      delete_stays_def)

lemma pricing_DeleteEntry [pricing]: "same_pricing d (DeleteEntry i d)"
  by (simp add: DeleteEntry_def DeleteEntry_row_def pricing)

lemma pricing_AddEntry [pricing]: "AddEntry e d = Inr (i, d') \<Longrightarrow> same_pricing d d'"
  by (auto simp: AddEntry_def InsertEntry_def same_pricing_def split: if_splits)

lemma pricing_UpdateEntry [pricing]: "UpdateEntry e d = Inr d' \<Longrightarrow> same_pricing d d'"
  by (auto simp: UpdateEntry_def UpdateEntry_row_def same_pricing_def split: if_splits)

lemma pricing_AddTrip [pricing]: "AddTrip t d = Inr (i, d') \<Longrightarrow> same_pricing d d'"
  by (auto simp: AddTrip_def InsertTrip_def same_pricing_def split: if_splits)

lemma pricing_UpdateTrip [pricing]: "UpdateTrip t d = Inr d' \<Longrightarrow> same_pricing d d'"
  by (auto simp: UpdateTrip_def UpdateTrip_row_def same_pricing_def split: if_splits)

lemma pricing_AddStay [pricing]: "AddStay st d = Inr (i, d') \<Longrightarrow> same_pricing d d'"
  by (auto simp: AddStay_def InsertTripStay_def same_pricing_def split: if_splits)

lemma pricing_InsertTripStayEntry [pricing]: "InsertTripStayEntry s e d = Inr d' \<Longrightarrow> same_pricing d d'"
  by (auto simp: InsertTripStayEntry_def same_pricing_def split: if_splits)

lemma pricing_book_draws: "book_draws t st draws d = Inr d' \<Longrightarrow> same_pricing d d'"
proof (induction t st draws d rule: book_draws.induct)
  case (2 t st draw draws d)
  then show ?case
    by (fastforce simp: and_then_Inr dest: pricing_AddEntry pricing_InsertTripStayEntry intro: same_pricing_trans)
qed simp

lemma pricing_book_loop: "book_loop t cs lots u consumed sts d = Inr d' \<Longrightarrow> same_pricing d d'"
  by (induction t cs lots u consumed sts d rule: book_loop.induct)
    (fastforce simp: and_then_Inr split: if_splits dest: pricing_book_draws intro: same_pricing_trans)+

lemma pricing_bookTripOnce [pricing]: "bookTripOnce i d = Inr d' \<Longrightarrow> same_pricing d d'"
  by (cases "lotSnapshot d") (auto simp: bookTripOnce_def and_then_Inr dest: pricing_book_loop)

lemma pricing_link_entries: "link_entries s eids d = Inr d' \<Longrightarrow> same_pricing d d'"
  by (induction s eids d rule: link_entries.induct)
    (fastforce simp: and_then_Inr dest: pricing_InsertTripStayEntry intro: same_pricing_trans)+

lemma pricing_import_stays: "import_stays i ims d = Inr d' \<Longrightarrow> same_pricing d d'"
  by (induction i ims d rule: import_stays.induct)
    (fastforce simp: and_then_Inr dest: pricing_AddStay pricing_link_entries intro: same_pricing_trans)+

lemma pricing_ImportBookedTrip [pricing]: "ImportBookedTrip t ims d = Inr (i, d') \<Longrightarrow> same_pricing d d'"
  by (fastforce simp: ImportBookedTrip_def Let_def and_then_Inr split: if_splits
      dest: pricing_AddTrip pricing_import_stays intro: same_pricing_trans)

lemma pricing_distribute_loop: "same_pricing d (snd (distribute_loop maxYear cs d))"
proof (induction cs arbitrary: d)
  case (Cons c cs)
  have "same_pricing d (snd (distribute_loop maxYear cs d1))"
    if "AddEntry (allocation_entry c y) d = Inr (i, d1)" for i y d1
    using same_pricing_trans [OF pricing_AddEntry [OF that] Cons.IH] .
  then show ?case
    using Cons.IH by (auto simp: Let_def split: option.splits sum.splits prod.splits)
      (metis snd_conv)+
qed simp

lemma pricing_DistributeNextYear [pricing]: "same_pricing d (snd (DistributeNextYear y d))"
  by (simp add: DistributeNextYear_def distributeUpTo_def pricing_distribute_loop)


section \<open>Booking among other transactions\<close>

lemma calm_attempts:
  assumes "calm v" and "book_attempts n (v_tx v) i err tid d = (e, d')"
  shows "ledger_step\<^sup>*\<^sup>* d d' \<and> same_pricing d d'"
  using assms(2)
proof (induction n arbitrary: i err d)
  case (Suc n)
  obtain d1 conflict where tx: "v_tx v i d = (d1, conflict)" by fastforce
  then have d1: "ledger_step\<^sup>*\<^sup>* d d1" "same_pricing d d1"
    using assms(1) by (metis calm_def fst_conv)+
  show ?case
  proof (cases conflict)
    case True
    then show ?thesis using Suc tx d1 same_pricing_trans by fastforce
  next
    case False
    then show ?thesis
      using Suc.prems tx d1 same_pricing_trans [OF d1(2) pricing_bookTripOnce]
        rtranclp.rtrancl_into_rtrancl [OF d1(1) ledger_step.book_trip]
      by (auto split: sum.splits)
  qed
qed simp

lemma calm_BookTrip:
  "calm v \<Longrightarrow> BookTrip (v_tx v) i d = (e, d') \<Longrightarrow> ledger_step\<^sup>*\<^sup>* d d' \<and> same_pricing d d'"
  unfolding BookTrip_def by (rule calm_attempts)

section \<open>Pages\<close>

text \<open>Showing a page reads the database and the filters, and may refresh the cache.\<close>

definition shows_only :: "web \<Rightarrow> web \<Rightarrow> bool" where
  "shows_only w w' \<longleftrightarrow> w_db w' = w_db w \<and> w_global w' = w_global w \<and> (coherent w \<longrightarrow> coherent w')"

lemma shows_only_refl [simp]: "shows_only w w"
  by (simp add: shows_only_def)

lemma shows_only_moves: "shows_only w w' \<Longrightarrow> moves w w'"
  by (simp add: shows_only_def moves_def)

lemma costBasis_shows: "shows_only w (snd (costBasis v w))"
  by (auto simp: shows_only_def costBasis_def Basis_def coherent_def Let_def split: if_splits)

lemma costBasis_db [simp]:
  "w_db (snd (costBasis v w)) = w_db w" "w_global (snd (costBasis v w)) = w_global w"
  using costBasis_shows [of w v] by (simp_all add: shows_only_def)

lemma list_view_shows: "shows_only w (snd (buildTripListView v ts w))"
  using costBasis_shows [of w v] by (simp add: buildTripListView_def Let_def case_prod_beta)

declare page_response_state [simp]

lemma page_shows: "shows_only w (snd (page_response v f (buildTripPageView v t msg w)))"
  by (simp add: page_state costBasis_shows)

lemma fragment_shows: "shows_only w (snd (renderTripFragment v i w))"
  using page_shows by (simp add: renderTripFragment_def split: sum.splits)

lemma renderTripList_shows: "shows_only w (snd (renderTripList v msg w))"
  using list_view_shows [of w v] by (simp add: renderTripList_def case_prod_beta)

lemma toggle_shows: "shows_only w (snd (renderTripFilterToggle v t w))"
  using page_shows by (simp add: renderTripFilterToggle_def Let_def)

lemma filter_toggle_shows: "shows_only w (snd (renderFilterToggle v w))"
  using list_view_shows [of w v] by (simp add: renderFilterToggle_def Let_def case_prod_beta)

lemmas showing = page_shows fragment_shows renderTripList_shows toggle_shows filter_toggle_shows

lemmas shows_moves = showing [THEN shows_only_moves]

text \<open>The usual shape of a handler: change the database, then show a page.\<close>

lemma move_then: "moves w w1 \<Longrightarrow> moves w1 (snd x) \<Longrightarrow> moves w (snd x)"
  by (rule moves_trans)

lemma one_step: "ledger_step d d' \<Longrightarrow> ledger_step\<^sup>*\<^sup>* d d'"
  by simp

lemma move_step:
  "ledger_step (w_db w) d \<Longrightarrow> same_pricing (w_db w) d \<Longrightarrow> moves (w\<lparr>w_db := d\<rparr>) w' \<Longrightarrow> moves w w'"
  using moves_trans [OF moves_db] by blast

lemma move_step_invalidate:
  "ledger_step (w_db w) d \<Longrightarrow> moves (w\<lparr>w_db := d, w_costs := Invalidate (w_costs w)\<rparr>) w' \<Longrightarrow> moves w w'"
  using moves_trans [OF moves_invalidate] by blast

section \<open>The trip handlers\<close>

lemma save_and_show_moves: "moves w (snd (save_and_show v i t w))"
proof (cases "UpdateTrip t (w_db w)")
  case (Inr d)
  then show ?thesis
    using move_step [OF ledger_step.update_trip [OF Inr] pricing_UpdateTrip [OF Inr] shows_moves(2)]
    by (simp add: save_and_show_def)
qed (simp add: save_and_show_def)

lemma save_and_toggle_moves: "moves w (snd (save_and_toggle v t w))"
proof (cases "UpdateTrip t (w_db w)")
  case (Inr d)
  then show ?thesis
    using move_step [OF ledger_step.update_trip [OF Inr] pricing_UpdateTrip [OF Inr] shows_moves(4)]
    by (simp add: save_and_toggle_def)
qed (simp add: save_and_toggle_def)

named_theorems handler_moves

lemma tripList_moves [handler_moves]: "moves w (snd (tripList v r w))"
  by (simp add: tripList_def shows_moves)

lemma newTripForm_moves [handler_moves]: "moves w (snd (newTripForm r w))"
  by (simp add: newTripForm_def)

lemma createTrip_moves [handler_moves]: "moves w (snd (createTrip v r w))"
  by (auto simp: createTrip_def shows_moves split: sum.splits
      intro: moves_db one_step ledger_step.add_trip pricing)

lemma tripPage_moves [handler_moves]: "moves w (snd (tripPage v r w))"
  using shows_moves(1) by (simp add: tripPage_def split: sum.splits)

lemma updateTrip_moves [handler_moves]: "moves w (snd (updateTrip v r w))"
  unfolding updateTrip_def Let_def
  by (auto split: sum.splits simp del: page_response_state intro: shows_moves(1)
      intro!: move_step [OF ledger_step.update_trip pricing_UpdateTrip shows_moves(2)])

lemma setBudgetOverride_moves [handler_moves]: "moves w (snd (setBudgetOverride v r w))"
  unfolding setBudgetOverride_def
  by (auto split: sum.splits simp del: page_response_state intro: shows_moves(1) save_and_show_moves)

lemma clearBudgetOverride_moves [handler_moves]: "moves w (snd (clearBudgetOverride v r w))"
  unfolding clearBudgetOverride_def by (auto split: sum.splits intro: save_and_show_moves)

lemma addStay_moves [handler_moves]: "moves w (snd (addStay v r w))"
  unfolding addStay_def Let_def
  by (auto split: sum.splits option.splits
      intro!: move_step [OF ledger_step.add_stay pricing_AddStay shows_moves(2)])

lemma removeStay_moves [handler_moves]: "moves w (snd (removeStay v r w))"
  unfolding removeStay_def
  by (auto split: sum.splits option.splits
      intro!: move_step_invalidate [OF ledger_step.delete_stay shows_moves(2)])

lemma bookTrip_moves [handler_moves]:
  assumes "calm v"
  shows "moves w (snd (bookTrip v r w))"
proof -
  have "moves w (snd (case BookTrip (v_tx v) i (w_db w) of
      (Some e, d) \<Rightarrow> (HttpError 500 (v_errText v e), w\<lparr>w_db := d\<rparr>)
    | (None, d) \<Rightarrow> renderTripFragment v i (w\<lparr>w_db := d, w_costs := Invalidate (w_costs w)\<rparr>)))" for i
    using calm_BookTrip [OF assms, of i "w_db w"] moves_db [of w]
      moves_trans [OF moves_invalidate [of w] shows_moves(2)]
    by (auto split: prod.splits option.splits)
  then show ?thesis by (simp add: bookTrip_def split: sum.splits)
qed

lemma unbookTrip_moves [handler_moves]: "moves w (snd (unbookTrip v r w))"
  unfolding unbookTrip_def
  by (auto split: sum.splits intro!: move_step_invalidate [OF ledger_step.unbook_trip shows_moves(2)])

lemma redirectHome_state [simp]: "snd (redirectHome r w) = w"
  by (simp add: redirectHome_def)

lemma deleteTrip_moves [handler_moves]: "moves w (snd (deleteTrip r w))"
  by (auto simp: deleteTrip_def split: sum.splits intro!: moves_db one_step ledger_step.delete_trip pricing)

lemma openFilters_moves [handler_moves]: "moves w (snd (openFilters v r w))"
  by (simp add: openFilters_def Let_def)

lemma openTripFilters_moves [handler_moves]: "moves w (snd (openTripFilters v r w))"
  by (simp add: openTripFilters_def Let_def split: sum.splits)

lemma setTripFilterMode_moves [handler_moves]: "moves w (snd (setTripFilterMode v r w))"
  by (auto simp: setTripFilterMode_def Let_def save_and_toggle_moves split: sum.splits option.splits)

lemma toggleTripFilter_moves: "moves w (snd (toggleTripFilter v i f w))"
  by (simp add: toggleTripFilter_def save_and_toggle_moves split: sum.splits)

lemma toggleTripResortFilter_moves [handler_moves]: "moves w (snd (toggleTripResortFilter v r w))"
  by (simp add: toggleTripResortFilter_def toggleTripFilter_moves split: sum.splits)

lemma toggleTripRoomTypeFilter_moves [handler_moves]: "moves w (snd (toggleTripRoomTypeFilter v r w))"
  by (simp add: toggleTripRoomTypeFilter_def toggleTripFilter_moves split: sum.splits)

lemma resetTripFilters_moves [handler_moves]: "moves w (snd (resetTripFilters v r w))"
  by (simp add: resetTripFilters_def save_and_toggle_moves split: sum.splits)

lemma global_then_toggle: "moves w (snd (renderFilterToggle v (w\<lparr>w_global := g\<rparr>)))"
  using moves_trans [OF moves_global shows_moves(5)] .

lemma toggleResortFilter_moves [handler_moves]: "moves w (snd (toggleResortFilter v r w))"
  by (simp add: toggleResortFilter_def global_then_toggle moves_global split: prod.splits option.splits)

lemma toggleRoomTypeFilter_moves [handler_moves]: "moves w (snd (toggleRoomTypeFilter v r w))"
  by (simp add: toggleRoomTypeFilter_def global_then_toggle moves_global split: prod.splits option.splits)

lemma closePanel_moves [handler_moves]: "moves w (snd (closePanel r w))"
  by (simp add: closePanel_def)


section \<open>The ledger handlers\<close>

lemma renderBody_state [simp]: "snd (renderBody v view a b msg w) = w"
  by (simp add: renderBody_def)

lemma renderPage_state [simp]: "snd (renderPage v view b w) = w"
  by (simp add: renderPage_def)

lemma moves_step:
  "ledger_step (w_db w) d \<Longrightarrow> same_pricing (w_db w) d \<Longrightarrow> moves w (w\<lparr>w_db := d\<rparr>)"
  using moves_db by blast

lemma moves_step_invalidate:
  "ledger_step (w_db w) d \<Longrightarrow> moves w (w\<lparr>w_db := d, w_costs := Invalidate (w_costs w)\<rparr>)"
  using moves_invalidate by blast

lemma ledger_pages_moves [handler_moves]:
  "moves w (snd (page v r w))" "moves w (snd (history v r w))" "moves w (snd (contracts_page v r w))"
  "moves w (snd (cancelEdit v r w))" "moves w (snd (cancelContractEdit v r w))"
  by (simp_all add: page_def history_def contracts_page_def cancelEdit_def cancelContractEdit_def)

lemma edit_moves [handler_moves]:
  "moves w (snd (editEntry v r w))" "moves w (snd (editContract v r w))"
  by (simp_all add: editEntry_def editContract_def split: sum.splits)

lemma addEntry_moves [handler_moves]: "moves w (snd (addEntry v r w))"
  by (auto simp: addEntry_def Let_def split: sum.splits intro: moves_step ledger_step.add_entry pricing)

lemma updateEntry_moves [handler_moves]: "moves w (snd (updateEntry v r w))"
  by (auto simp: updateEntry_def Let_def split: sum.splits intro: moves_step ledger_step.update_entry pricing)

lemma deleteEntry_moves [handler_moves]: "moves w (snd (deleteEntry v r w))"
  by (auto simp: deleteEntry_def split: sum.splits intro: moves_step ledger_step.delete_entry pricing)

lemma addContract_moves [handler_moves]: "moves w (snd (addContract v r w))"
  by (auto simp: addContract_def Let_def case_prod_beta split: sum.splits
      intro: moves_step_invalidate ledger_step.add_contract)

lemma updateContract_moves [handler_moves]: "moves w (snd (updateContract v r w))"
  by (auto simp: updateContract_def Let_def split: sum.splits
      intro: moves_step_invalidate ledger_step.update_contract)

lemma deleteContract_moves [handler_moves]: "moves w (snd (deleteContract v r w))"
  by (auto simp: deleteContract_def split: sum.splits intro: moves_step_invalidate ledger_step.delete_contract)

lemma upsertDues_moves [handler_moves]: "moves w (snd (upsertDues v r w))"
  by (auto simp: upsertDues_def Let_def split: sum.splits option.splits
      intro: moves_step_invalidate ledger_step.upsert_dues)

lemma deleteDues_moves [handler_moves]: "moves w (snd (deleteDues v r w))"
  by (auto simp: deleteDues_def split: sum.splits intro: moves_step_invalidate ledger_step.delete_dues)

lemma distribution_step: "DistributeNextYear y d = (x, d') \<Longrightarrow> ledger_step d d' \<and> same_pricing d d'"
  using ledger_step.distribute [of d "y + 1"] pricing_DistributeNextYear [of d y]
  by (simp add: DistributeNextYear_def)

lemma distribute_moves [handler_moves]: "moves w (snd (LedgerHandlers.distribute v r w))"
  by (auto simp: LedgerHandlers.distribute_def split: prod.splits sum.splits
      dest!: distribution_step intro: moves_step)

section \<open>The interface for programs\<close>

text \<open>An API handler takes at most one step of the ledger; two of them change the contracts.\<close>

definition api_safe :: "(db \<Rightarrow> api_response \<times> db) \<Rightarrow> bool" where
  "api_safe f \<longleftrightarrow> (\<forall>d. snd (f d) = d \<or> ledger_step d (snd (f d)) \<and> same_pricing d (snd (f d)))"

definition api_steps :: "(db \<Rightarrow> api_response \<times> db) \<Rightarrow> bool" where
  "api_steps f \<longleftrightarrow> (\<forall>d. snd (f d) = d \<or> ledger_step d (snd (f d)))"

named_theorems api_moves

lemma api_reads [api_moves]: "api_safe api_listEntries" "api_safe api_listContracts" "api_safe api_summaries"
  by (simp_all add: api_safe_def api_listEntries_def api_listContracts_def api_summaries_def)

lemma api_addEntry_safe [api_moves]: "api_safe (api_addEntry errText body)"
  by (auto simp: api_safe_def api_addEntry_def split: option.splits sum.splits
      intro: ledger_step.add_entry pricing)

lemma api_updateEntry_safe [api_moves]: "api_safe (api_updateEntry errText pv body)"
  by (auto simp: api_safe_def api_updateEntry_def split: option.splits sum.splits
      intro: ledger_step.update_entry pricing)

lemma api_deleteEntry_safe [api_moves]: "api_safe (api_deleteEntry pv)"
  by (auto simp: api_safe_def api_deleteEntry_def split: sum.splits intro: ledger_step.delete_entry pricing)

lemma api_distribute_safe [api_moves]: "api_safe (api_distribute errText y)"
  by (auto simp: api_safe_def api_distribute_def split: sum.splits prod.splits dest: distribution_step)

lemma importTrip_safe [api_moves]: "api_safe (importTrip errText body)"
  by (auto simp: api_safe_def importTrip_def split: option.splits sum.splits prod.splits
      intro: ledger_step.import_trip pricing)

lemma api_addContract_steps [api_moves]: "api_steps (api_addContract errText body)"
  by (auto simp: api_steps_def api_addContract_def Let_def case_prod_beta split: option.splits sum.splits
      intro: ledger_step.add_contract)

lemma api_deleteContract_steps [api_moves]: "api_steps (api_deleteContract pv)"
  by (auto simp: api_steps_def api_deleteContract_def split: sum.splits intro: ledger_step.delete_contract)

lemma api_safe_steps: "api_safe f \<Longrightarrow> api_steps f"
  by (auto simp: api_safe_def api_steps_def)

section \<open>The routes\<close>

definition handler_ok :: "handler \<Rightarrow> bool" where
  "handler_ok h \<longleftrightarrow> (\<forall>r w. moves w (snd (h r w)))"

definition handler_steps :: "handler \<Rightarrow> bool" where
  "handler_steps h \<longleftrightarrow> (\<forall>r w. ledger_step\<^sup>*\<^sup>* (w_db w) (w_db (snd (h r w))))"

lemma handler_ok_steps: "handler_ok h \<Longrightarrow> handler_steps h"
  by (simp add: handler_ok_def handler_steps_def moves_def)

lemma on_web_ok: "(\<And>r w. moves w (snd (h r w))) \<Longrightarrow> handler_ok (on_web h)"
  by (simp add: handler_ok_def on_web_def)

lemma on_ledger_ok: "(\<And>r w. moves w (snd (h r w))) \<Longrightarrow> handler_ok (on_ledger h)"
  by (simp add: handler_ok_def on_ledger_def)

lemma on_api_ok:
  assumes "\<And>r. api_safe (h r)"
  shows "handler_ok (on_api h)"
proof -
  have "moves w (w\<lparr>w_db := snd (h r (w_db w))\<rparr>)" for r w
    using assms [of r] unfolding api_safe_def
    by (cases "snd (h r (w_db w)) = w_db w") (auto intro: moves_step)
  then show ?thesis by (simp add: handler_ok_def on_api_def)
qed

lemma on_api_steps:
  assumes "\<And>r. api_steps (h r)"
  shows "handler_steps (on_api h)"
proof -
  have "ledger_step\<^sup>*\<^sup>* d (snd (h r d))" for r d
    using assms [of r] unfolding api_steps_def by (metis one_step rtranclp.rtrancl_refl)
  then show ?thesis by (simp add: handler_steps_def on_api_def)
qed

definition routes_ok :: "(handler \<Rightarrow> bool) \<Rightarrow> (pattern \<times> handler) list \<Rightarrow> bool" where
  "routes_ok P rs \<longleftrightarrow> (\<forall>(pt, h) \<in> set rs. P h)"

lemma routes_ok_simps [simp]:
  "routes_ok P []" "routes_ok P (route m s h # rs) \<longleftrightarrow> P h \<and> routes_ok P rs"
  "routes_ok P (subtree m s h # rs) \<longleftrightarrow> P h \<and> routes_ok P rs"
  "routes_ok P (as @ bs) \<longleftrightarrow> routes_ok P as \<and> routes_ok P bs"
  by (auto simp: routes_ok_def route_def subtree_def)

lemma routes_ok_mono: "routes_ok P rs \<Longrightarrow> (\<And>h. P h \<Longrightarrow> Q h) \<Longrightarrow> routes_ok Q rs"
  by (auto simp: routes_ok_def)

lemma dispatch_ok: "routes_ok handler_ok rs \<Longrightarrow> moves w (snd (dispatch rs r w))"
  by (induction rs r w rule: dispatch.induct) (auto simp: routes_ok_def handler_ok_def split: option.splits)

lemma dispatch_steps: "routes_ok handler_steps rs \<Longrightarrow> ledger_step\<^sup>*\<^sup>* (w_db w) (w_db (snd (dispatch rs r w)))"
  by (induction rs r w rule: dispatch.induct) (auto simp: routes_ok_def handler_steps_def split: option.splits)

lemma trip_routes_ok: "calm v \<Longrightarrow> routes_ok handler_ok (trip_routes v)"
  by (simp add: trip_routes_def on_web_ok handler_moves)

lemma ledger_routes_ok: "routes_ok handler_ok (ledger_routes v)"
  by (simp add: ledger_routes_def on_ledger_ok handler_moves)

lemma api_routes_steps: "routes_ok handler_steps (api_routes v)"
  by (simp add: api_routes_def on_api_steps api_moves api_safe_steps)

lemma login_routes_ok: "routes_ok handler_ok (login_routes v)"
  by (simp add: login_routes_def handler_ok_def login_page_def login_submit_def log_out_def logout_def)

lemma plain_ok: "handler_ok (healthz v)" "handler_ok static_file"
  by (simp_all add: handler_ok_def healthz_def static_file_def)

lemma routes_steps: "calm (env.truncate v) \<Longrightarrow> routes_ok handler_steps (login_routes v @ routes v)"
  by (simp add: routes_def Let_def api_routes_steps routes_ok_mono [OF trip_routes_ok handler_ok_steps]
      routes_ok_mono [OF ledger_routes_ok handler_ok_steps] routes_ok_mono [OF login_routes_ok handler_ok_steps]
      plain_ok handler_ok_steps on_web_ok handler_moves)

lemma serve_steps: "calm (env.truncate v) \<Longrightarrow> ledger_step\<^sup>*\<^sup>* (w_db w) (w_db (snd (serve v r w)))"
  using routes_steps [of v]
  by (auto simp: serve_def dispatch_steps split: gate.splits)


section \<open>Requests that leave the contracts to the cache\<close>

text \<open>The two API requests that change a contract do not invalidate the cached cost basis.\<close>

definition contract_api :: "'a request_scheme \<Rightarrow> bool" where
  "contract_api r \<longleftrightarrow> (q_Method r = ''POST'' \<or> q_Method r = ''DELETE'') \<and>
     HasPrefix (q_Path r) ''/api/v1/ledger/contracts''"

fun join_on :: "char \<Rightarrow> string list \<Rightarrow> string" where
  "join_on c [] = []"
| "join_on c [s] = s"
| "join_on c (s # ss) = s @ c # join_on c ss"

lemma split_on_nonempty [simp]: "split_on c s \<noteq> []"
  by (induction c s rule: split_on.induct) (auto split: list.splits)

lemma join_split: "join_on c (split_on c s) = s"
proof (induction c s rule: split_on.induct)
  case (2 c x s)
  obtain seg segs where s: "split_on c s = seg # segs" by (cases "split_on c s") auto
  then show ?case using 2 by (cases segs) auto
qed simp

lemma join_on_Cons: "ss \<noteq> [] \<Longrightarrow> join_on c (s # ss) = s @ c # join_on c ss"
  by (cases ss) auto

lemma match_segments_Lit:
  "match_segments (map Lit ls @ ps) st segs \<noteq> None \<Longrightarrow> \<exists>rest. segs = ls @ rest \<and> match_segments ps st rest \<noteq> None"
proof (induction ls arbitrary: segs)
  case (Cons l ls)
  then show ?case by (cases segs) (auto split: if_splits)
qed simp

lemma api_path_prefix:
  assumes "match_pattern \<lparr>pt_method = m, pt_segments = api_path [''ledger'', ''contracts''] @ ps, pt_subtree = False\<rparr>
    meth path \<noteq> None" and "m \<noteq> ''GET''"
  shows "meth = m \<and> HasPrefix path ''/api/v1/ledger/contracts''"
proof -
  let ?lits = "[''api'', ''v1'', ''ledger'', ''contracts'']"
  obtain seg segs where sp: "split_on (CHR ''/'') path = seg # segs" by (cases "split_on (CHR ''/'') path") auto
  have meth: "meth = m" and seg: "seg = []" and ms: "match_segments (map Lit ?lits @ ps) False segs \<noteq> None"
    using assms by (auto simp: match_pattern_def sp api_path_def split: if_splits)
  obtain rest where rest: "segs = ?lits @ rest" using match_segments_Lit [OF ms] by blast
  have "path = join_on (CHR ''/'') ([] # ?lits @ rest)"
    using join_split [of "CHR ''/''" path] sp seg rest by simp
  then have "\<exists>u. path = ''/api/v1/ledger/contracts'' @ u"
    by (cases rest) (simp_all add: join_on_Cons)
  then show ?thesis using meth by (auto simp: HasPrefix_def)
qed

lemma dispatch_moves:
  "(\<And>pt h. (pt, h) \<in> set rs \<Longrightarrow> handler_ok h \<or> match_pattern pt (q_Method r) (q_Path r) = None) \<Longrightarrow>
     moves w (snd (dispatch rs r w))"
proof (induction rs r w rule: dispatch.induct)
  case (2 pt h rs r w)
  show ?case
  proof (cases "match_pattern pt (q_Method r) (q_Path r)")
    case None
    then show ?thesis using 2 by simp
  next
    case (Some m)
    then have "handler_ok h" using "2.prems" [of pt h] by simp
    then show ?thesis using Some by (simp add: handler_ok_def)
  qed
qed simp

lemma contract_api_routes:
  assumes "\<not> contract_api r"
  shows "match_pattern \<lparr>pt_method = ''POST'', pt_segments = api_path [''ledger'', ''contracts''], pt_subtree = False\<rparr>
      (q_Method r) (q_Path r) = None"
    and "match_pattern \<lparr>pt_method = ''DELETE'', pt_segments = api_path [''ledger'', ''contracts''] @ [Wild ''id''],
      pt_subtree = False\<rparr> (q_Method r) (q_Path r) = None"
proof -
  have none: "match_pattern \<lparr>pt_method = m, pt_segments = api_path [''ledger'', ''contracts''] @ ps,
      pt_subtree = False\<rparr> (q_Method r) (q_Path r) = None" if "m = ''POST'' \<or> m = ''DELETE''" for m ps
  proof (rule ccontr)
    assume "\<not> ?thesis"
    from api_path_prefix [OF this] that assms show False by (auto simp: contract_api_def)
  qed
  show "match_pattern \<lparr>pt_method = ''POST'', pt_segments = api_path [''ledger'', ''contracts''], pt_subtree = False\<rparr>
      (q_Method r) (q_Path r) = None"
    using none [of "''POST''" "[]"] unfolding append_Nil2 by blast
  show "match_pattern \<lparr>pt_method = ''DELETE'', pt_segments = api_path [''ledger'', ''contracts''] @ [Wild ''id''],
      pt_subtree = False\<rparr> (q_Method r) (q_Path r) = None"
    by (rule none) blast
qed

definition route_ok_for :: "server_request \<Rightarrow> pattern \<times> handler \<Rightarrow> bool" where
  "route_ok_for r ph \<longleftrightarrow> handler_ok (snd ph) \<or> match_pattern (fst ph) (q_Method r) (q_Path r) = None"

lemma route_ok_for_ok: "handler_ok h \<Longrightarrow> route_ok_for r (route m s h)"
  by (simp add: route_ok_for_def route_def)

lemma api_routes_for: "\<not> contract_api r \<Longrightarrow> \<forall>ph \<in> set (api_routes v). route_ok_for r ph"
  using contract_api_routes [of r]
  by (simp add: api_routes_def route_ok_for_ok on_api_ok api_moves)
    (simp add: route_ok_for_def route_def)

lemma routes_ok_for: "routes_ok handler_ok rs \<Longrightarrow> \<forall>ph \<in> set rs. route_ok_for r ph"
  by (auto simp: routes_ok_def route_ok_for_def)

lemma all_routes_for:
  assumes "calm (env.truncate v)" and "\<not> contract_api r"
  shows "\<forall>ph \<in> set (login_routes v @ routes v). route_ok_for r ph"
proof -
  have "routes_ok handler_ok (login_routes v @ [route ''GET'' [Lit ''healthz''] (healthz v),
      subtree ''GET'' [Lit ''static''] static_file] @ trip_routes (env.truncate v) @ ledger_routes (env.truncate v)
      @ [subtree ''GET'' [] (on_web (tripList (env.truncate v)))])"
    using assms(1) by (simp add: login_routes_ok plain_ok trip_routes_ok ledger_routes_ok on_web_ok handler_moves)
  from routes_ok_for [OF this, of r] api_routes_for [OF assms(2), of "env.truncate v"]
  show ?thesis by (auto simp: routes_def Let_def)
qed

lemma serve_moves:
  assumes "calm (env.truncate v)" and "\<not> contract_api r"
  shows "moves w (snd (serve v r w))"
proof -
  have all: "handler_ok h \<or> match_pattern pt (q_Method r) (q_Path r) = None"
    if "(pt, h) \<in> set (login_routes v @ routes v)" for pt h
    using all_routes_for [OF assms] that by (force simp: route_ok_for_def)
  show ?thesis
    by (auto simp: serve_def split: gate.splits intro!: dispatch_moves all)
qed

end
