(* ===== verification/ContractForm.thy ===== *)
theory ContractForm
  imports LedgerHandlers ApiHandlers
begin

text \<open>
  The edit form of a contract, as \<open>internal/web/templates/ledger.html\<close> fills it from the row the view has
  built, and what the handler reads back when it is sent unchanged.
\<close>

section \<open>The form\<close>

definition edit_form :: "contract_row \<Rightarrow> string \<Rightarrow> string" where
  "edit_form cr k =
     (if k = ''name'' then cr_Name cr else if k = ''number'' then cr_Number cr
      else if k = ''resort'' then cr_HomeResort cr else if k = ''points'' then fmt_d (cr_AnnualPoints cr)
      else if k = ''use_year_month'' then month_String (cr_UseYearMonth cr)
      else if k = ''term_years'' then fmt_d (cr_TermYears cr)
      else if k = ''price'' then cr_PriceInput cr else if k = ''closing'' then cr_ClosingInput cr else [])"

lemma ParseMonth_String:
  assumes "1 \<le> m" and "m \<le> 12"
  shows "ParseMonth (month_String m) = Inr m"
proof -
  let ?k = "nat (m - 1)"
  have len: "length month_names = 12" by (simp add: month_names_def)
  have k: "?k < 12" and up: "[1..12] ! ?k = m" using assms by (simp_all add: nth_upto)
  have "zip [1..12] month_names ! ?k \<in> set (zip [1..12] month_names)"
    using k by (intro nth_mem) (simp add: len)
  moreover have "zip [1..12] month_names ! ?k = (m, month_names ! ?k)"
    using k len up by simp
  ultimately have "(m, month_String m) \<in> set (zip [1..12] month_names)"
    using assms by (simp add: month_String_def)
  then show ?thesis using month_names_all by (auto simp: list_all_iff)
qed

lemma atoiOr_fmt_d: "in32 x \<Longrightarrow> atoiOr (fmt_d x) n = x"
  by (simp add: atoiOr_def Atoi_fmt_d in32_in64)

lemma contractRow_fields:
  "cr_Name (contractRow c) = c_Name c" "cr_Number (contractRow c) = c_Number c"
  "cr_HomeResort (contractRow c) = c_HomeResort c" "cr_AnnualPoints (contractRow c) = c_AnnualPoints c"
  "cr_UseYearMonth (contractRow c) = c_UseYearMonth c" "cr_TermYears (contractRow c) = c_TermYears c"
  "cr_PriceInput (contractRow c) = Cents_String (c_PurchasePrice c)"
  "cr_ClosingInput (contractRow c) = Cents_String (c_ClosingCosts c)"
  by (simp_all add: contractRow_def Let_def)

lemma update_row_same: "distinct (map key rows) \<Longrightarrow> r \<in> set rows \<Longrightarrow> update_row key r rows = rows"
  unfolding update_row_def by (rule map_idI) (auto simp: distinct_map dest: inj_onD)

text \<open>C40: Opening a contract for editing and saving it unchanged reads back exactly the contract, its price and
  closing costs to the cent, its month and its counts, and so leaves the ledger as it was.\<close>

theorem contract_form_roundtrip:
  assumes "db_ok (w_db w)" and "c \<in> set (contracts (w_db w))"
    and "1 \<le> c_UseYearMonth c" and "c_UseYearMonth c \<le> 12"
    and "- (2 ^ 63) < c_PurchasePrice c" and "c_PurchasePrice c < 2 ^ 63"
    and "- (2 ^ 63) < c_ClosingCosts c" and "c_ClosingCosts c < 2 ^ 63"
    and "pathID r = Inr (c_ID c)" and "q_FormErr r = None" and "q_FormValue r = edit_form (contractRow c)"
  shows "parseContractForm r (c_ID c) = Inr c \<and> w_db (snd (updateContract v r w)) = w_db w"
proof -
  have width: "in32 (c_AnnualPoints c)" "in32 (c_UseYearMonth c)" "in32 (c_TermYears c)"
    using assms(1,2) by (simp_all add: db_ok_def checks_ok_def contract_width_def)
  have parse: "parseContractForm r (c_ID c) = Inr c"
    by (simp add: parseContractForm_def assms(10,11) edit_form_def contractRow_fields
        ParseMonth_String [OF assms(3,4)] Cents_roundtrip [OF assms(5,6)] Cents_roundtrip [OF assms(7,8)]
        atoiOr_fmt_d width)
  have "distinct (map c_ID (contracts (w_db w)))"
    using assms(1) by (auto simp: db_ok_def tables_ok_def intro: contract_table.ok_distinct)
  then have "UpdateContract c (w_db w) = w_db w"
    using assms(2) width by (simp add: UpdateContract_def UpdateContract_row_def narrow_contract_def int32_id
        update_row_same)
  then show ?thesis
    by (simp add: parse updateContract_def assms(9) renderBody_def Let_def)
qed


definition edit_request :: "contract \<Rightarrow> http_request" where
  "edit_request c = \<lparr>q_Method = ''POST'', q_Path = ''/ledger/contracts/1/update'', q_RawQuery = ''view=contracts'',
     q_Host = ''h'', q_Header = (\<lambda>k. []), q_Cookie = None, q_FormErr = None, q_FormValue = edit_form (contractRow c),
     q_PathValue = (\<lambda>k. fmt_d (c_ID c)), q_Query = (\<lambda>k. ''contracts'')\<rparr>"

definition edit_contract :: contract where
  "edit_contract = \<lparr>c_ID = 1, c_Name = ''A'', c_Number = ''7'', c_HomeResort = ''VGF'', c_AnnualPoints = 100,
     c_UseYearMonth = 4, c_TermYears = 50, c_PurchasePrice = 1234567, c_ClosingCosts = 5\<rparr>"

definition edit_state :: web where
  "edit_state = \<lparr>w_db = fresh_db\<lparr>contracts := [edit_contract], contract_seq := 1\<rparr>,
     w_global = \<lparr>g_cfg = \<lparr>cfg_ExcludeResorts = [], cfg_ExcludeRoomTypes = []\<rparr>,
       g_saved = \<lparr>cfg_ExcludeResorts = [], cfg_ExcludeRoomTypes = []\<rparr>\<rparr>,
     w_costs = newCostProvider\<rparr>"

theorem contract_form_roundtrip_witness:
  "parseContractForm (edit_request edit_contract) 1 = Inr edit_contract \<and>
   c_PurchasePrice edit_contract = 1234567"
proof -
  have ok: "db_ok (w_db edit_state)"
    by (simp add: edit_state_def edit_contract_def fresh_db_def db_ok_defs table_ok_def contract_width_def in32_def
        seeded_dues_def)
  have "ParseInt (fmt_d 1) = Some 1" by (simp add: ParseInt_fmt_d in64_def)
  then have "pathID (edit_request edit_contract) = Inr (c_ID edit_contract)"
    by (simp add: pathID_def edit_request_def edit_contract_def)
  note path = this
  have member: "edit_contract \<in> set (contracts (w_db edit_state))" by (simp add: edit_state_def)
  have c: "1 \<le> c_UseYearMonth edit_contract" "c_UseYearMonth edit_contract \<le> 12"
    "- (2 ^ 63) < c_PurchasePrice edit_contract" "c_PurchasePrice edit_contract < 2 ^ 63"
    "- (2 ^ 63) < c_ClosingCosts edit_contract" "c_ClosingCosts edit_contract < 2 ^ 63"
    by (simp_all add: edit_contract_def)
  have form: "q_FormErr (edit_request edit_contract) = None"
    "q_FormValue (edit_request edit_contract) = edit_form (contractRow edit_contract)"
    by (simp_all add: edit_request_def)
  have "parseContractForm (edit_request edit_contract) (c_ID edit_contract) = Inr edit_contract"
    by (rule contract_form_roundtrip [OF ok member c path form, THEN conjunct1])
  moreover have "c_PurchasePrice edit_contract = 1234567" by (simp add: edit_contract_def)
  moreover have "c_ID edit_contract = 1" by (simp add: edit_contract_def)
  ultimately show ?thesis by (simp only: simp_thms)
qed

end
