(* ===== verification/Regexp.thy ===== *)
theory Regexp
  imports Strconv
begin

text \<open>
  What the chart parser uses of Go's \<open>strings\<close> and \<open>regexp\<close> packages.  A text is its list of
  bytes; letters of other alphabets do not occur in the charts, whose only bytes above 127 are
  dashes and the registered sign, so upper case, white space, digits and word boundaries are the
  ASCII ones.  A regular expression is matched leftmost first: \<open>rx_run\<close> lists the ways an
  expression matches at one position in the order of preference, and a match is the first of them.
\<close>

section \<open>Substrings\<close>

definition upper_char :: "char \<Rightarrow> char" where
  "upper_char c = (let n = of_char c :: nat in if 97 \<le> n \<and> n \<le> 122 then char_of (n - 32) else c)"

definition ToUpper :: "string \<Rightarrow> string" where
  "ToUpper s = map upper_char s"

definition ToLower :: "string \<Rightarrow> string" where
  "ToLower s = map (\<lambda>c. let n = of_char c :: nat in if 65 \<le> n \<and> n \<le> 90 then char_of (n + 32) else c) s"

text \<open>\<open>strings.Index\<close>, \<open>Contains\<close> and \<open>Count\<close> (of a text that is not empty), and \<open>Fields\<close>.\<close>

fun str_Index :: "string \<Rightarrow> string \<Rightarrow> nat option" where
  "str_Index [] sub = (if sub = [] then Some 0 else None)"
| "str_Index (c # s) sub =
     (if HasPrefix (c # s) sub then Some 0 else map_option Suc (str_Index s sub))"

definition str_Contains :: "string \<Rightarrow> string \<Rightarrow> bool" where
  "str_Contains s sub \<longleftrightarrow> str_Index s sub \<noteq> None"

function str_Count :: "string \<Rightarrow> string \<Rightarrow> nat" where
  "str_Count s sub =
     (if sub = [] then length s + 1
      else case str_Index s sub of None \<Rightarrow> 0
        | Some i \<Rightarrow> (if s = [] then 0 else Suc (str_Count (drop (i + length sub) s) sub)))"
  by pat_completeness auto

termination str_Count
  by (relation "measure (\<lambda>(s, sub). length s)") auto

declare str_Count.simps [simp del]

fun str_Fields :: "string \<Rightarrow> string list" where
  "str_Fields [] = []"
| "str_Fields (c # s) =
     (if is_space c then str_Fields s
      else case s of
          [] \<Rightarrow> [[c]]
        | d # _ \<Rightarrow> (if is_space d then [c] # str_Fields s
            else case str_Fields s of [] \<Rightarrow> [[c]] | f # fs \<Rightarrow> (c # f) # fs))"

fun str_Lines :: "string \<Rightarrow> string list" where
  "str_Lines [] = [[]]"
| "str_Lines (c # s) =
     (if c = CHR 0x0A then [] # str_Lines s
      else (case str_Lines s of [] \<Rightarrow> [[c]] | l # ls \<Rightarrow> (c # l) # ls))"

section \<open>Regular expressions\<close>

datatype rx =
    REmpty
  | RChar "char \<Rightarrow> bool"
  | RSeq rx rx
  | RAlt rx rx
  | RStar rx
  | RGroup rx
  | RWordB
  | RBegin
  | REnd

text \<open>The state of a match: the byte before it, the rest of the text, the groups closed so far.\<close>

type_synonym rx_state = "char option \<times> string \<times> string list"

definition is_word :: "char option \<Rightarrow> bool" where
  "is_word x = (case x of None \<Rightarrow> False
     | Some c \<Rightarrow> (let n = of_char c :: nat in
         48 \<le> n \<and> n \<le> 57 \<or> 65 \<le> n \<and> n \<le> 90 \<or> 97 \<le> n \<and> n \<le> 122 \<or> n = 95))"

definition first_byte :: "string \<Rightarrow> char option" where
  "first_byte s = (case s of [] \<Rightarrow> None | c # _ \<Rightarrow> Some c)"

text \<open>The iterations of a greedy star, longest first; one that consumes nothing is not repeated, so
  the length of the text bounds their number.\<close>

primrec rx_star :: "nat \<Rightarrow> (rx_state \<Rightarrow> rx_state list) \<Rightarrow> rx_state \<Rightarrow> rx_state list" where
  "rx_star 0 f st = [st]"
| "rx_star (Suc n) f st =
     concat (map (rx_star n f) (filter (\<lambda>st'. length (fst (snd st')) < length (fst (snd st))) (f st))) @ [st]"

primrec rx_run :: "rx \<Rightarrow> rx_state \<Rightarrow> rx_state list" where
  "rx_run REmpty st = [st]"
| "rx_run (RChar P) st = (case st of (p, s, gs) \<Rightarrow>
     (case s of [] \<Rightarrow> [] | c # s' \<Rightarrow> (if P c then [(Some c, s', gs)] else [])))"
| "rx_run (RSeq a b) st = concat (map (rx_run b) (rx_run a st))"
| "rx_run (RAlt a b) st = rx_run a st @ rx_run b st"
| "rx_run (RStar a) st = rx_star (length (fst (snd st))) (rx_run a) st"
| "rx_run (RGroup a) st = map (\<lambda>(p, s, gs). (p, s, gs @ [take (length (fst (snd st)) - length s) (fst (snd st))])) (rx_run a st)"
| "rx_run RWordB st = (case st of (p, s, gs) \<Rightarrow> (if is_word p \<noteq> is_word (first_byte s) then [st] else []))"
| "rx_run RBegin st = (if fst st = None then [st] else [])"
| "rx_run REnd st = (if fst (snd st) = [] then [st] else [])"

definition RPlus :: "rx \<Rightarrow> rx" where
  "RPlus a = RSeq a (RStar a)"

definition ROpt :: "rx \<Rightarrow> rx" where
  "ROpt a = RAlt a REmpty"

definition RText :: "string \<Rightarrow> rx" where
  "RText s = foldr (\<lambda>c r. RSeq (RChar (\<lambda>x. x = c)) r) s REmpty"

definition RFold :: "string \<Rightarrow> rx" where
  "RFold s = foldr (\<lambda>c r. RSeq (RChar (\<lambda>x. upper_char x = upper_char c)) r) s REmpty"

definition RAny :: "rx list \<Rightarrow> rx" where
  "RAny rs = foldr RAlt (butlast rs) (last rs)"

text \<open>Between \<open>m\<close> and \<open>m + k\<close> repetitions, as many as possible.\<close>

fun RUpTo :: "nat \<Rightarrow> rx \<Rightarrow> rx" where
  "RUpTo 0 a = REmpty"
| "RUpTo (Suc k) a = ROpt (RSeq a (RUpTo k a))"

definition RRepeat :: "nat \<Rightarrow> nat \<Rightarrow> rx \<Rightarrow> rx" where
  "RRepeat m k a = foldr RSeq (replicate m a) (RUpTo k a)"

definition rx_space :: "char \<Rightarrow> bool" where
  "rx_space c \<longleftrightarrow> c \<in> {CHR '' '', CHR 0x09, CHR 0x0A, CHR 0x0C, CHR 0x0D}"

definition rx_upper :: "char \<Rightarrow> bool" where
  "rx_upper c \<longleftrightarrow> (let n = of_char c :: nat in 65 \<le> n \<and> n \<le> 90)"

section \<open>Searching\<close>

record found =
  m_start :: nat
  m_end :: nat
  m_text :: string
  m_groups :: "string list"

text \<open>\<open>FindAll\<close>: the matches from left to right, each after the end of the one before.  No expression
  of the program matches the empty text; such a match would be passed over.\<close>

function rx_find :: "rx \<Rightarrow> nat \<Rightarrow> char option \<Rightarrow> string \<Rightarrow> found list" where
  "rx_find r x p s =
     (case rx_run r (p, s, []) of
        (p', s', gs) # _ \<Rightarrow>
          (if length s' < length s
           then \<lparr>m_start = x, m_end = x + (length s - length s'), m_text = take (length s - length s') s, m_groups = gs\<rparr>
             # rx_find r (x + (length s - length s')) p' s'
           else (case s of [] \<Rightarrow> [] | c # t \<Rightarrow> rx_find r (x + 1) (Some c) t))
      | [] \<Rightarrow> (case s of [] \<Rightarrow> [] | c # t \<Rightarrow> rx_find r (x + 1) (Some c) t))"
  by pat_completeness auto

termination rx_find
  by (relation "measure (\<lambda>(r, x, p, s). length s)") auto

declare rx_find.simps [simp del]

definition FindAll :: "rx \<Rightarrow> string \<Rightarrow> found list" where
  "FindAll r s = rx_find r 0 None s"

definition FindFirst :: "rx \<Rightarrow> string \<Rightarrow> found option" where
  "FindFirst r s = (case FindAll r s of [] \<Rightarrow> None | m # _ \<Rightarrow> Some m)"

section \<open>Matches are consecutive\<close>

text \<open>Two ways a search goes on: over a match, or one byte further.\<close>

lemma rx_find_cases:
  obtains (stop) "s = []" "rx_find r x p s = []"
    | (skip) c t where "s = c # t" "rx_find r x p s = rx_find r (x + 1) (Some c) t"
    | (match) p' s' gs ms where "rx_run r (p, s, []) = (p', s', gs) # ms" "length s' < length s"
        "rx_find r x p s = \<lparr>m_start = x, m_end = x + (length s - length s'),
           m_text = take (length s - length s') s, m_groups = gs\<rparr> # rx_find r (x + (length s - length s')) p' s'"
proof (cases "rx_run r (p, s, [])")
  case Nil
  then show ?thesis using stop skip by (cases s) (auto simp: rx_find.simps [of r x p])
next
  case (Cons a ms)
  obtain p' s' gs where a: "a = (p', s', gs)" by (cases a)
  show ?thesis
  proof (cases "length s' < length s")
    case True
    show ?thesis
      by (rule match) (use Cons a True in \<open>auto simp: rx_find.simps [of r x p]\<close>)
  next
    case False
    then show ?thesis using Cons a stop skip by (cases s) (auto simp: rx_find.simps [of r x p])
  qed
qed

lemma rx_find_bounds:
  "m \<in> set (rx_find r x p s) \<Longrightarrow> x \<le> m_start m \<and> m_start m < m_end m \<and> m_end m \<le> x + length s"
proof (induction "length s" arbitrary: x p s rule: less_induct)
  case less
  show ?case
  proof (cases rule: rx_find_cases [of s r x p])
    case stop
    then show ?thesis using less.prems by simp
  next
    case (skip c t)
    then show ?thesis using less.prems less.hyps [of t "x + 1" "Some c"] by simp
  next
    case (match p' s' gs ms)
    then show ?thesis using less.prems less.hyps [of s' "x + (length s - length s')" p'] by auto
  qed
qed

lemma rx_find_sorted: "sorted_wrt (\<lambda>m m'. m_end m \<le> m_start m') (rx_find r x p s)"
proof (induction "length s" arbitrary: x p s rule: less_induct)
  case less
  show ?case
  proof (cases rule: rx_find_cases [of s r x p])
    case stop
    then show ?thesis by simp
  next
    case (skip c t)
    then show ?thesis using less.hyps [of t "x + 1" "Some c"] by simp
  next
    case (match p' s' gs ms)
    then show ?thesis using less.hyps [of s' "x + (length s - length s')" p'] by (auto dest: rx_find_bounds)
  qed
qed

lemma FindAll_bounds:
  "m \<in> set (FindAll r s) \<Longrightarrow> m_start m < m_end m \<and> m_end m \<le> length s"
  using rx_find_bounds [of m r 0 None s] by (auto simp: FindAll_def)

lemma FindAll_sorted: "sorted_wrt (\<lambda>m m'. m_end m \<le> m_start m') (FindAll r s)"
  by (simp add: FindAll_def rx_find_sorted)


section \<open>The preferred match\<close>

text \<open>\<open>rx_yields r st st'\<close>: \<open>st'\<close> is the preferred way \<open>r\<close> matches at \<open>st\<close>.\<close>

definition rx_yields :: "rx \<Rightarrow> rx_state \<Rightarrow> rx_state \<Rightarrow> bool" where
  "rx_yields r st st' \<longleftrightarrow> (\<exists>ms. rx_run r st = st' # ms)"

named_theorems yields \<open>introduction rules for preferred matches\<close>

definition last_byte :: "char option \<Rightarrow> string \<Rightarrow> char option" where
  "last_byte p t = (if t = [] then p else Some (last t))"

lemma last_byte_simps [simp]: "last_byte p [] = p" "last_byte p (c # t) = last_byte (Some c) t"
  "last_byte p (s @ t) = last_byte (last_byte p s) t"
  by (simp_all add: last_byte_def)

lemma yields_seq [yields]: "rx_yields a st st1 \<Longrightarrow> rx_yields b st1 st2 \<Longrightarrow> rx_yields (RSeq a b) st st2"
  by (auto simp: rx_yields_def)

lemma yields_char [yields]: "P c \<Longrightarrow> rx_yields (RChar P) (p, c # s, gs) (Some c, s, gs)"
  by (simp add: rx_yields_def)

lemma yields_empty [yields]: "rx_yields REmpty st st"
  by (simp add: rx_yields_def)

lemma yields_opt: "rx_yields a st st' \<Longrightarrow> rx_yields (ROpt a) st st'"
  by (auto simp: rx_yields_def ROpt_def)

lemma yields_opt_none: "rx_run a st = [] \<Longrightarrow> rx_yields (ROpt a) st st"
  by (auto simp: rx_yields_def ROpt_def)

lemma yields_group:
  "rx_yields a (p, t @ s, gs) (p', s, gs) \<Longrightarrow> rx_yields (RGroup a) (p, t @ s, gs) (p', s, gs @ [t])"
  by (auto simp: rx_yields_def)

lemma yields_text [yields]: "rx_yields (RText t) (p, t @ s, gs) (last_byte p t, s, gs)"
  by (induction t arbitrary: p) (auto simp: RText_def rx_yields_def)

lemma star_class:
  "length s \<le> n \<Longrightarrow> \<exists>ms. rx_star n (rx_run (RChar P)) (p, s, gs) =
     (last_byte p (takeWhile P s), dropWhile P s, gs) # ms"
proof (induction s arbitrary: n p)
  case Nil
  then show ?case by (cases n) auto
next
  case (Cons c s)
  then obtain m where m: "n = Suc m" "length s \<le> m" by (cases n) auto
  show ?case using Cons.IH [OF m(2), of "Some c"] by (auto simp: m)
qed

lemma yields_star:
  "list_all P t \<Longrightarrow> s = [] \<or> \<not> P (hd s) \<Longrightarrow>
     rx_yields (RStar (RChar P)) (p, t @ s, gs) (last_byte p t, s, gs)"
proof -
  assume t: "list_all P t" and s: "s = [] \<or> \<not> P (hd s)"
  have "takeWhile P (t @ s) = t" "dropWhile P (t @ s) = s"
    using t s by (cases s; auto simp: takeWhile_append dropWhile_append list_all_iff)+
  then show ?thesis using star_class [of "t @ s" "length (t @ s)" P p gs] by (simp add: rx_yields_def)
qed

lemma yields_plus:
  "t \<noteq> [] \<Longrightarrow> list_all P t \<Longrightarrow> s = [] \<or> \<not> P (hd s) \<Longrightarrow>
     rx_yields (RPlus (RChar P)) (p, t @ s, gs) (last_byte p t, s, gs)"
  unfolding RPlus_def
  by (cases t) (auto intro!: yields_seq [OF yields_char] yields_star)

lemma rx_find_match:
  "rx_yields r (p, t @ s, []) (p', s, gs) \<Longrightarrow> t \<noteq> [] \<Longrightarrow>
     rx_find r x p (t @ s) =
       \<lparr>m_start = x, m_end = x + length t, m_text = t, m_groups = gs\<rparr> # rx_find r (x + length t) p' s"
  by (auto simp: rx_yields_def rx_find.simps [of r x p])

lemma rx_find_skip: "rx_run r (p, c # s, []) = [] \<Longrightarrow> rx_find r x p (c # s) = rx_find r (x + 1) (Some c) s"
  by (simp add: rx_find.simps [of r x p])

lemma rx_find_Nil: "rx_run r (p, [], []) = [] \<Longrightarrow> rx_find r x p [] = []"
  by (simp add: rx_find.simps [of r x p])

section \<open>Occurrences\<close>

text \<open>\<open>has_pair a b s\<close>: somewhere in \<open>s\<close> an \<open>a\<close> is followed by a \<open>b\<close>.\<close>

fun has_pair :: "char \<Rightarrow> char \<Rightarrow> string \<Rightarrow> bool" where
  "has_pair a b (x # y # s) \<longleftrightarrow> x = a \<and> y = b \<or> has_pair a b (y # s)"
| "has_pair a b s \<longleftrightarrow> False"

lemma has_pair_Cons: "has_pair a b (x # t) \<longleftrightarrow> t \<noteq> [] \<and> x = a \<and> hd t = b \<or> has_pair a b t"
  by (cases t) auto

lemma has_pair_append:
  "has_pair a b (s @ t) \<longleftrightarrow> has_pair a b s \<or> has_pair a b t \<or> (s \<noteq> [] \<and> t \<noteq> [] \<and> last s = a \<and> hd t = b)"
  by (induction s) (auto simp: has_pair_Cons)

lemma has_pair_notin: "a \<notin> set s \<or> b \<notin> set s \<Longrightarrow> \<not> has_pair a b s"
  by (induction a b s rule: has_pair.induct) auto

lemma Contains_append: "str_Contains (s @ sub @ t) sub"
proof -
  have "HasPrefix (sub @ t) sub" by (simp add: HasPrefix_def)
  then show ?thesis
    unfolding str_Contains_def by (induction s) (cases "sub @ t"; auto)+
qed

lemma Contains_pair: "str_Contains s (a # b # sub) \<Longrightarrow> has_pair a b s"
proof (induction s)
  case (Cons x s)
  then show ?case by (cases s) (auto simp: str_Contains_def HasPrefix_def split: if_splits)
qed (simp add: str_Contains_def)

text \<open>The first occurrence of a keyword is the one after a text that does not begin it.\<close>

lemma Index_pair:
  "\<not> has_pair a b (s @ [a]) \<Longrightarrow> str_Index (s @ (a # b # sub) @ t) (a # b # sub) = Some (length s)"
proof (induction s)
  case (Cons x s)
  then have "\<not> has_pair a b (s @ [a])" "\<not> (x = a \<and> hd (s @ [a]) = b)" by (cases s; auto)+
  with Cons.IH show ?case by (cases s) (auto simp: HasPrefix_def)
qed (simp add: HasPrefix_def)


end
