(* ===== verification/ChartText.thy ===== *)
theory ChartText
  imports Regexp Search
begin

text \<open>
  The text level of the chart parser, \<open>internal/dvc/parser.go\<close>: the resort code of a file name, the
  integers of a line and where they stand, cells, room types and date ranges.  The text is what
  \<open>pdftotext -layout\<close> prints; running it is not modelled.  Positions are byte offsets.
\<close>

text \<open>Upper case of the bytes of the labels.\<close>

lemma upper_byte [simp]:
  "upper_char (CHR ''A'') = CHR ''A''" "upper_char (CHR ''B'') = CHR ''B''" 
  "upper_char (CHR ''C'') = CHR ''C''" "upper_char (CHR ''D'') = CHR ''D''" 
  "upper_char (CHR ''E'') = CHR ''E''" "upper_char (CHR ''F'') = CHR ''F''" 
  "upper_char (CHR ''G'') = CHR ''G''" "upper_char (CHR ''H'') = CHR ''H''" 
  "upper_char (CHR ''I'') = CHR ''I''" "upper_char (CHR ''J'') = CHR ''J''" 
  "upper_char (CHR ''K'') = CHR ''K''" "upper_char (CHR ''L'') = CHR ''L''" 
  "upper_char (CHR ''M'') = CHR ''M''" "upper_char (CHR ''N'') = CHR ''N''" 
  "upper_char (CHR ''O'') = CHR ''O''" "upper_char (CHR ''P'') = CHR ''P''" 
  "upper_char (CHR ''Q'') = CHR ''Q''" "upper_char (CHR ''R'') = CHR ''R''" 
  "upper_char (CHR ''S'') = CHR ''S''" "upper_char (CHR ''T'') = CHR ''T''" 
  "upper_char (CHR ''U'') = CHR ''U''" "upper_char (CHR ''V'') = CHR ''V''" 
  "upper_char (CHR ''W'') = CHR ''W''" "upper_char (CHR ''X'') = CHR ''X''" 
  "upper_char (CHR ''Y'') = CHR ''Y''" "upper_char (CHR ''Z'') = CHR ''Z''" 
  "upper_char (CHR ''a'') = CHR ''A''" "upper_char (CHR ''b'') = CHR ''B''" 
  "upper_char (CHR ''c'') = CHR ''C''" "upper_char (CHR ''d'') = CHR ''D''" 
  "upper_char (CHR ''e'') = CHR ''E''" "upper_char (CHR ''f'') = CHR ''F''" 
  "upper_char (CHR ''g'') = CHR ''G''" "upper_char (CHR ''h'') = CHR ''H''" 
  "upper_char (CHR ''i'') = CHR ''I''" "upper_char (CHR ''j'') = CHR ''J''" 
  "upper_char (CHR ''k'') = CHR ''K''" "upper_char (CHR ''l'') = CHR ''L''" 
  "upper_char (CHR ''m'') = CHR ''M''" "upper_char (CHR ''n'') = CHR ''N''" 
  "upper_char (CHR ''o'') = CHR ''O''" "upper_char (CHR ''p'') = CHR ''P''" 
  "upper_char (CHR ''q'') = CHR ''Q''" "upper_char (CHR ''r'') = CHR ''R''" 
  "upper_char (CHR ''s'') = CHR ''S''" "upper_char (CHR ''t'') = CHR ''T''" 
  "upper_char (CHR ''u'') = CHR ''U''" "upper_char (CHR ''v'') = CHR ''V''" 
  "upper_char (CHR ''w'') = CHR ''W''" "upper_char (CHR ''x'') = CHR ''X''" 
  "upper_char (CHR ''y'') = CHR ''Y''" "upper_char (CHR ''z'') = CHR ''Z''" 
  "upper_char (CHR '' '') = CHR '' ''" "upper_char (CHR ''-'') = CHR ''-''" "upper_char (CHR 0xE2) = CHR 0xE2" 
  "upper_char (CHR 0x80) = CHR 0x80" "upper_char (CHR 0x94) = CHR 0x94" 
  by code_simp+

section \<open>\<open>extractResortCode\<close>\<close>

text \<open>\<open>filepath.Ext\<close> of the name of a file: from its last dot.\<close>

definition filepath_Ext :: "string \<Rightarrow> string" where
  "filepath_Ext s = (let t = takeWhile (\<lambda>c. c \<noteq> CHR ''.'' \<and> c \<noteq> CHR ''/'') (rev s) in
     (case drop (length t) (rev s) of c # _ \<Rightarrow> if c = CHR ''.'' then CHR ''.'' # rev t else [] | [] \<Rightarrow> []))"

definition TrimSuffix :: "string \<Rightarrow> string \<Rightarrow> string" where
  "TrimSuffix s x = (if length x \<le> length s \<and> drop (length s - length x) s = x
     then take (length s - length x) s else s)"

fun split_parts :: "string \<Rightarrow> string list" where
  "split_parts [] = [[]]"
| "split_parts (c # s) =
     (if c = CHR ''-'' \<or> c = CHR ''_'' then [] # split_parts s
      else (case split_parts s of [] \<Rightarrow> [[c]] | p # ps \<Rightarrow> (c # p) # ps))"

definition codeRE :: rx where
  "codeRE = RSeq RBegin (RSeq (RRepeat 2 3 (RChar rx_upper)) REnd)"

definition extractResortCode :: "string \<Rightarrow> string" where
  "extractResortCode filename =
     (let name = TrimSuffix filename (filepath_Ext filename) in
      case filter (\<lambda>p. FindFirst codeRE p \<noteq> None) (split_parts name) of p # _ \<Rightarrow> p | [] \<Rightarrow> name)"

section \<open>Integers of a line\<close>

text \<open>\<open>n, _ := strconv.Atoi(s)\<close> of a run of digits: a value that is out of range is the largest one.\<close>

definition mustAtoi :: "string \<Rightarrow> int" where
  "mustAtoi s = (case Atoi s of Some n \<Rightarrow> n
     | None \<Rightarrow> (if parse_digits s \<noteq> None then 2 ^ 63 - 1 else 0))"

definition digitsRE :: rx where
  "digitsRE = RPlus (RChar is_digit)"

definition parseInts :: "string \<Rightarrow> int list" where
  "parseInts s = map (\<lambda>m. mustAtoi (m_text m)) (FindAll digitsRE s)"

definition parseIntsAfterKeyword :: "string \<Rightarrow> string \<Rightarrow> int list" where
  "parseIntsAfterKeyword s keyword =
     (case str_Index (ToUpper s) (ToUpper keyword) of
        None \<Rightarrow> parseInts s
      | Some idx \<Rightarrow> parseInts (drop (idx + length keyword) s))"

record int_pos =
  ip_val :: int
  ip_x :: int

definition parseIntPositionsAfterKeyword :: "string \<Rightarrow> string \<Rightarrow> int_pos list" where
  "parseIntPositionsAfterKeyword s keyword =
     (let offset = (case str_Index (ToUpper s) (ToUpper keyword) of None \<Rightarrow> 0 | Some idx \<Rightarrow> idx + length keyword)
      in map (\<lambda>m. \<lparr>ip_val = mustAtoi (m_text m), ip_x = int (offset + m_start m)\<rparr>) (FindAll digitsRE (drop offset s)))"

section \<open>Room types\<close>

record room_type =
  k_keyword :: string
  k_name :: string
  k_sleeps :: int

definition room_kind :: "string \<Rightarrow> string \<Rightarrow> int \<Rightarrow> room_type" where
  "room_kind k n s = \<lparr>k_keyword = k, k_name = n, k_sleeps = s\<rparr>"

definition knownRoomTypes :: "room_type list" where
  "knownRoomTypes = [
     room_kind ''THREE-BEDROOM TREEHOUSE'' ''THREE-BEDROOM TREEHOUSE VILLA'' 9,
     room_kind ''THREE-BEDROOM BEACH COTTAGE'' ''THREE-BEDROOM BEACH COTTAGE'' 12,
     room_kind ''THREE-BEDROOM'' ''THREE-BEDROOM GRAND VILLA'' 12,
     room_kind ''TWO-BEDROOM BEACH COTTAGE'' ''TWO-BEDROOM BEACH COTTAGE'' 12,
     room_kind ''TWO-BEDROOM CABIN'' ''TWO-BEDROOM CABIN'' 8,
     room_kind ''TWO-BEDROOM BUNGALOW'' ''TWO-BEDROOM BUNGALOW'' 8,
     room_kind ''TWO-BEDROOM PENTHOUSE'' ''TWO-BEDROOM PENTHOUSE VILLA'' 8,
     room_kind ''TWO-BEDROOM'' ''TWO-BEDROOM VILLA'' 9,
     room_kind ''ONE-BEDROOM'' ''ONE-BEDROOM VILLA'' 5,
     room_kind ''DELUXE INN ROOM'' ''DELUXE INN ROOM'' 4,
     room_kind ''GARDEN ROOM DELUXE STUDIO'' ''GARDEN ROOM DELUXE STUDIO'' 4,
     room_kind ''GARDEN ROOM DUO STUDIO'' ''GARDEN ROOM DUO STUDIO'' 2,
     room_kind ''DELUXE STUDIO'' ''DELUXE STUDIO'' 5,
     room_kind ''TOWER STUDIO'' ''TOWER STUDIO'' 2,
     room_kind ''RESORT STUDIO'' ''RESORT STUDIO'' 5,
     room_kind ''DUO STUDIO'' ''DUO STUDIO'' 2,
     room_kind ''HOTEL ROOM'' ''HOTEL ROOM'' 4,
     room_kind ''CABIN'' ''CABIN'' 6]"

text \<open>The first known room type, in the declared order, whose keyword occurs in the text.\<close>

definition matchRoomType :: "string \<Rightarrow> room_type option" where
  "matchRoomType text = (let upper = ToUpper text in
     find (\<lambda>rt. str_Contains upper (k_keyword rt)) knownRoomTypes)"

definition hasDuplicateKeyword :: "string \<Rightarrow> bool" where
  "hasDuplicateKeyword text = (let upper = ToUpper text in
     list_ex (\<lambda>rt. str_Count upper (k_keyword rt) \<ge> 2) knownRoomTypes)"

section \<open>Date ranges\<close>

definition month_abbrevs :: "string list" where
  "month_abbrevs = [''Jan'', ''Feb'', ''Mar'', ''Apr'', ''May'', ''Jun'', ''Jul'', ''Aug'', ''Sep'', ''Sept'',
     ''Oct'', ''Nov'', ''Dec'']"

definition monthRE :: rx where
  "monthRE = RGroup (RAny (map RFold month_abbrevs))"

definition dayRE :: rx where
  "dayRE = RGroup (RRepeat 1 1 (RChar is_digit))"

definition spacesRE :: rx where
  "spacesRE = RStar (RChar rx_space)"

definition dateRangeRE :: rx where
  "dateRangeRE = foldr RSeq
     [monthRE, RPlus (RChar rx_space), dayRE, spacesRE, RText ''-'', spacesRE,
      monthRE, RPlus (RChar rx_space)] dayRE"

text \<open>\<open>monthMap\<close>; a name it lacks is month 0.\<close>

definition monthMap :: "(string \<times> month) list" where
  "monthMap = [(''jan'', 1), (''feb'', 2), (''mar'', 3), (''apr'', 4), (''may'', 5), (''jun'', 6),
     (''jul'', 7), (''aug'', 8), (''sep'', 9), (''sept'', 9), (''oct'', 10), (''nov'', 11), (''dec'', 12)]"

definition parseMonth :: "string \<Rightarrow> month" where
  "parseMonth s = (case map_of monthMap (ToLower s) of Some m \<Rightarrow> m | None \<Rightarrow> 0)"

definition range_of_groups :: "int \<Rightarrow> string list \<Rightarrow> date_range" where
  "range_of_groups year gs =
     \<lparr>Start = format_date (go_Date year (parseMonth (gs ! 0)) (mustAtoi (gs ! 1))),
      End = format_date (go_Date year (parseMonth (gs ! 2)) (mustAtoi (gs ! 3)))\<rparr>"

definition parseDateRangesFromLine :: "string \<Rightarrow> int \<Rightarrow> date_range list" where
  "parseDateRangesFromLine line year =
     map (\<lambda>m. range_of_groups year (m_groups m)) (FindAll dateRangeRE line)"

section \<open>View codes and cells\<close>

definition viewCodeRE :: rx where
  "viewCodeRE = RAlt
     (RSeq RWordB (RSeq (RGroup (RAny (map RText
        [''TP'', ''SV'', ''PM'', ''R'', ''P'', ''S'', ''V'', ''C'', ''I'', ''O'']))) RWordB))
     (RText ''B/P'')"

definition legendCodeRE :: rx where
  "legendCodeRE = foldr RSeq
     [RBegin, spacesRE, RRepeat 1 2 (RChar rx_upper),
      ROpt (RSeq (RText ''/'') (RRepeat 1 1 (RChar rx_upper))), spacesRE, RText ''-'', spacesRE]
     (RChar (\<lambda>c. \<not> rx_space c))"

definition cellRE :: rx where
  "cellRE = (let word = RPlus (RChar (\<lambda>c. \<not> rx_space c)) in
     RSeq word (RStar (RSeq (RText '' '') word)))"

definition sleepsRE :: rx where
  "sleepsRE = RSeq (RText ''(Sleeps up to '') (RSeq (RGroup digitsRE) (RText '')''))"

record cell =
  c_text :: string
  c_start :: int
  c_end :: int

definition center :: "cell \<Rightarrow> int" where
  "center c = go_div (c_start c + c_end c) 2"

definition parseCells :: "string \<Rightarrow> cell list" where
  "parseCells line =
     map (\<lambda>m. \<lparr>c_text = m_text m, c_start = int (m_start m), c_end = int (m_end m)\<rparr>) (FindAll cellRE line)"

definition sleepsInCell :: "cell \<Rightarrow> int" where
  "sleepsInCell c = (case FindFirst sleepsRE (c_text c) of Some m \<Rightarrow> mustAtoi (m_groups m ! 0) | None \<Rightarrow> 0)"

end
