(* ===== verification/ChartColumns.thy ===== *)
theory ChartColumns
  imports ChartText
begin

text \<open>
  \<open>parseColumns\<close> of \<open>internal/dvc/parser.go\<close>: the columns of a chart, one for each integer of the
  first data row, named by the header lines above it.  The groups of the NIGHTS line split the row
  into ranges of positions; view codes, sub-cells and sleeps annotations are looked up within the
  range of a group.
\<close>

section \<open>Groups and their ranges\<close>

type_synonym group_range = "int \<times> int"

definition in_group :: "int \<Rightarrow> group_range \<Rightarrow> bool" where
  "in_group x gr \<longleftrightarrow> x \<ge> fst gr \<and> x < snd gr"

definition data_keyword :: "string \<Rightarrow> string" where
  "data_keyword firstDataLine = (if \<not> str_Contains (ToUpper firstDataLine) ''THU'' then ''SAT'' else ''THU'')"

definition data_columns :: "string \<Rightarrow> int_pos list" where
  "data_columns firstDataLine = parseIntPositionsAfterKeyword firstDataLine (data_keyword firstDataLine)"

definition nights_index :: "string list \<Rightarrow> nat option" where
  "nights_index headerLines =
     find (\<lambda>i. str_Contains (ToUpper (headerLines ! i)) ''NIGHTS'') [0..<length headerLines]"

definition group_cells :: "string \<Rightarrow> int \<Rightarrow> cell list" where
  "group_cells nightsLine firstDataX =
     filter (\<lambda>c. \<not> c_end c + 5 < firstDataX \<and> TrimSpace (ToUpper (c_text c)) \<noteq> ''NIGHTS'') (parseCells nightsLine)"

definition boundaryAt :: "cell \<Rightarrow> cell \<Rightarrow> int" where
  "boundaryAt prev following =
     (if matchRoomType (c_text following) \<noteq> None then c_start following
      else go_div (c_end prev + c_start following + 1) 2)"

definition group_range_at :: "cell list \<Rightarrow> nat \<Rightarrow> group_range" where
  "group_range_at gcs i =
     (if i > 0 then boundaryAt (gcs ! (i - 1)) (gcs ! i) else go_div (- 2147483648) 2,
      if i < length gcs - 1 then boundaryAt (gcs ! i) (gcs ! (i + 1)) else go_div 2147483647 2)"

section \<open>View codes and sleeps annotations\<close>

record view_code =
  vc_text :: string
  vc_x :: int

text \<open>The header line with the most view codes, at least two; the first such line.\<close>

definition code_line :: "string list \<Rightarrow> string" where
  "code_line headerLines = snd (foldl (\<lambda>best line.
     let n = length (FindAll viewCodeRE line) in if n > fst best then (n, line) else best) (1, []) headerLines)"

definition legend_end :: "string \<Rightarrow> nat" where
  "legend_end line = foldl (\<lambda>e m. if m_end m > e then m_end m else e) 0 (FindAll legendCodeRE line)"

definition view_codes :: "string list \<Rightarrow> view_code list" where
  "view_codes headerLines = (let codeLine = code_line headerLines in
     if codeLine \<noteq> []
     then map (\<lambda>m. \<lparr>vc_text = m_text m, vc_x = int (m_start m)\<rparr>)
       (filter (\<lambda>m. m_start m \<ge> legend_end codeLine) (FindAll viewCodeRE codeLine))
     else [])"

definition absInt :: "int \<Rightarrow> int" where
  "absInt x = (if x < 0 then - x else x)"

definition findSleepsNear :: "string list \<Rightarrow> int \<Rightarrow> group_range \<Rightarrow> int" where
  "findSleepsNear headerLines x gr = fst (foldl (\<lambda>best c.
     let n = sleepsInCell c in
     if n = 0 then best
     else if \<not> in_group (center c) gr then best
     else let d = absInt (x - center c) in if d < snd best then (n, d) else best)
     (0, 2147483647) (concat (map parseCells headerLines)))"

definition with_sleeps :: "string list \<Rightarrow> int_pos \<Rightarrow> group_range \<Rightarrow> int \<Rightarrow> int" where
  "with_sleeps headerLines dp gr sleeps =
     (let n = findSleepsNear headerLines (ip_x dp) gr in if n > 0 then n else sleeps)"

section \<open>The columns of one group\<close>

text \<open>The cells of the other header lines in the range of a group that are not sleeps annotations.\<close>

definition header_cells :: "string list \<Rightarrow> nat \<Rightarrow> group_range \<Rightarrow> cell list" where
  "header_cells headerLines nightsIdx gr =
     filter (\<lambda>c. in_group (center c) gr \<and> \<not> sleepsInCell c > 0)
       (concat (map (\<lambda>li. if li = nightsIdx then [] else parseCells (headerLines ! li)) [0..<length headerLines]))"

definition nearest_cell :: "int \<Rightarrow> cell \<Rightarrow> cell list \<Rightarrow> cell" where
  "nearest_cell x c cs = fst (foldl (\<lambda>best sc.
     let d = absInt (x - center sc) in if d < snd best then (sc, d) else best) (c, absInt (x - center c)) cs)"

definition prefix_column :: "string list \<Rightarrow> group_range \<Rightarrow> string \<Rightarrow> cell list \<Rightarrow> int_pos \<Rightarrow> column" where
  "prefix_column headerLines gr prefix subCells dp =
     (case subCells of [] \<Rightarrow> \<lparr>RoomType = prefix, View = [], Sleeps = 0\<rparr>
      | c # cs \<Rightarrow>
         (let best = nearest_cell (ip_x dp) c cs;
              (subName, subSleeps) = (case matchRoomType (c_text best) of
                 Some rt \<Rightarrow> (k_name rt, k_sleeps rt) | None \<Rightarrow> ([], 0));
              combined = prefix @ '' '' @ subName;
              (name, sleeps) = (case matchRoomType combined of
                 Some rt \<Rightarrow> (k_name rt, k_sleeps rt) | None \<Rightarrow> (combined, subSleeps))
          in \<lparr>RoomType = name, View = [], Sleeps = with_sleeps headerLines dp gr sleeps\<rparr>))"

text \<open>The alternate variant of a label that names one room type twice: the first word of a sub-cell
  that makes another known type of it.\<close>

definition alternate_type :: "room_type \<Rightarrow> cell list \<Rightarrow> room_type option" where
  "alternate_type base cs =
     (let types = map (\<lambda>word. matchRoomType (k_keyword base @ '' '' @ word)) (concat (map (\<lambda>c. str_Fields (c_text c)) cs))
      in case filter (\<lambda>t. \<exists>rt \<in> set_option t. k_name rt \<noteq> k_name base) types of
           t # _ \<Rightarrow> t | [] \<Rightarrow> None)"

definition view_at :: "view_code list \<Rightarrow> nat \<Rightarrow> string" where
  "view_at codesInGroup i = (if i < length codesInGroup then vc_text (codesInGroup ! i) else [])"

definition duplicate_column ::
    "string list \<Rightarrow> group_range \<Rightarrow> room_type \<Rightarrow> room_type option \<Rightarrow> view_code list \<Rightarrow> nat \<Rightarrow> int_pos \<Rightarrow> column" where
  "duplicate_column headerLines gr base alt codesInGroup i dp =
     (let (name, sleeps) =
        (if i < length codesInGroup then (k_name base, k_sleeps base)
         else case alt of Some rt \<Rightarrow> (k_name rt, k_sleeps rt) | None \<Rightarrow> (k_name base, k_sleeps base))
      in \<lparr>RoomType = name, View = view_at codesInGroup i, Sleeps = with_sleeps headerLines dp gr sleeps\<rparr>)"

definition standard_column ::
    "string list \<Rightarrow> group_range \<Rightarrow> room_type \<Rightarrow> view_code list \<Rightarrow> nat \<Rightarrow> int_pos \<Rightarrow> column" where
  "standard_column headerLines gr base codesInGroup i dp =
     \<lparr>RoomType = k_name base, View = view_at codesInGroup i, Sleeps = with_sleeps headerLines dp gr (k_sleeps base)\<rparr>"

definition map_index :: "(nat \<Rightarrow> 'a \<Rightarrow> 'b) \<Rightarrow> 'a list \<Rightarrow> 'b list" where
  "map_index f xs = map (\<lambda>i. f i (xs ! i)) [0..<length xs]"

definition group_columns ::
    "string list \<Rightarrow> nat \<Rightarrow> view_code list \<Rightarrow> int_pos list \<Rightarrow> cell \<Rightarrow> group_range \<Rightarrow> column list" where
  "group_columns headerLines nightsIdx codes dataCols gc gr =
     (let colsInGroup = filter (\<lambda>dp. in_group (ip_x dp) gr) dataCols;
          codesInGroup = filter (\<lambda>vc. in_group (vc_x vc) gr) codes
      in if colsInGroup = [] then []
         else case matchRoomType (c_text gc) of
           None \<Rightarrow>
             map (prefix_column headerLines gr (TrimSpace (c_text gc))
                (filter (\<lambda>c. matchRoomType (c_text c) \<noteq> None) (header_cells headerLines nightsIdx gr))) colsInGroup
         | Some base \<Rightarrow>
             if hasDuplicateKeyword (c_text gc) \<and> length colsInGroup > length codesInGroup
             then map_index (duplicate_column headerLines gr base
                (alternate_type base (header_cells headerLines nightsIdx gr)) codesInGroup) colsInGroup
             else map_index (standard_column headerLines gr base codesInGroup) colsInGroup)"

section \<open>\<open>parseColumns\<close>\<close>

definition parseColumns :: "string list \<Rightarrow> string \<Rightarrow> column list result" where
  "parseColumns headerLines firstDataLine =
     (let dataCols = data_columns firstDataLine in
      if dataCols = [] then Inl (ErrInput ''no integer columns in data row'')
      else case nights_index headerLines of
        None \<Rightarrow> Inl (ErrInput ''could not find NIGHTS header line'')
      | Some nightsIdx \<Rightarrow>
          (let gcs = group_cells (headerLines ! nightsIdx) (ip_x (hd dataCols)) in
           if gcs = [] then Inl (ErrInput ''no column groups on NIGHTS line'')
           else Inr (concat (map (\<lambda>i. group_columns headerLines nightsIdx (view_codes headerLines) dataCols
                  (gcs ! i) (group_range_at gcs i)) [0..<length gcs]))))"

section \<open>The ranges partition the positions\<close>

lemma slice_append:
  assumes "sorted_wrt (\<lambda>a b. f a \<le> f b) xs" and "lo \<le> mid" and "mid \<le> (hi :: int)"
  shows "filter (\<lambda>d. lo \<le> f d \<and> f d < mid) xs @ filter (\<lambda>d. mid \<le> f d \<and> f d < hi) xs =
    filter (\<lambda>d. lo \<le> f d \<and> f d < hi) xs"
  using assms(1)
proof (induction xs)
  case (Cons x xs)
  have "filter (\<lambda>d. lo \<le> f d \<and> f d < mid) xs = []" if "mid \<le> f x"
    using Cons.prems that by (force simp: filter_empty_conv)
  with Cons assms(2,3) show ?case by auto
qed simp

lemma concat_slices:
  assumes "sorted_wrt (\<lambda>a b. f a \<le> f b) xs" and "\<And>i. i < k \<Longrightarrow> b i \<le> (b (Suc i) :: int)"
  shows "concat (map (\<lambda>i. filter (\<lambda>d. b i \<le> f d \<and> f d < b (Suc i)) xs) [0..<k]) =
    filter (\<lambda>d. b 0 \<le> f d \<and> f d < b k) xs"
  using assms(2)
proof (induction k)
  case (Suc k)
  have "b 0 \<le> b j" if "j \<le> k" for j
    using that Suc.prems by (induction j) (auto intro: order_trans)
  then have "b 0 \<le> b k" by simp
  then show ?case using Suc slice_append [OF assms(1), of "b 0" "b k" "b (Suc k)"] by simp
qed simp

definition group_bound :: "cell list \<Rightarrow> nat \<Rightarrow> int" where
  "group_bound gcs i = (if i = 0 then - 1073741824
     else if i < length gcs then boundaryAt (gcs ! (i - 1)) (gcs ! i) else 1073741823)"

lemma group_range_bounds: "i < length gcs \<Longrightarrow> group_range_at gcs i = (group_bound gcs i, group_bound gcs (Suc i))"
  by (auto simp: group_range_at_def group_bound_def go_div_def)

lemma parseCells_bounds: "c \<in> set (parseCells l) \<Longrightarrow> 0 \<le> c_start c \<and> c_start c < c_end c \<and> c_end c \<le> int (length l)"
  by (auto simp: parseCells_def dest: FindAll_bounds)

lemma parseCells_sorted: "sorted_wrt (\<lambda>c c'. c_end c \<le> c_start c') (parseCells l)"
  using FindAll_sorted [of cellRE l] by (simp add: parseCells_def sorted_wrt_map)

text \<open>Cells in order, none beyond the largest position a range can have.\<close>

definition cells_ok :: "cell list \<Rightarrow> bool" where
  "cells_ok gcs \<longleftrightarrow> sorted_wrt (\<lambda>c c'. c_end c \<le> c_start c') gcs \<and>
     (\<forall>c \<in> set gcs. 0 \<le> c_start c \<and> c_start c < c_end c \<and> c_end c \<le> 1073741823)"

lemma group_cells_ok: "length l \<le> 1073741823 \<Longrightarrow> cells_ok (group_cells l x)"
  by (auto simp: cells_ok_def group_cells_def parseCells_sorted intro: sorted_wrt_filter
      dest!: parseCells_bounds)

lemma boundaryAt_between:
  assumes "cells_ok gcs" and "Suc i < length gcs"
  shows "c_end (gcs ! i) \<le> boundaryAt (gcs ! i) (gcs ! Suc i) \<and> boundaryAt (gcs ! i) (gcs ! Suc i) \<le> c_start (gcs ! Suc i)"
proof -
  have "c_end (gcs ! i) \<le> c_start (gcs ! Suc i)" "0 \<le> c_start (gcs ! i)" "c_start (gcs ! i) < c_end (gcs ! i)"
    using assms by (auto simp: cells_ok_def sorted_wrt_iff_nth_less)
  then show ?thesis by (auto simp: boundaryAt_def go_div_def)
qed

lemma group_bound_mono:
  assumes "cells_ok gcs" and "i < length gcs"
  shows "group_bound gcs i \<le> group_bound gcs (Suc i)"
proof -
  have s: "0 \<le> c_start (gcs ! i)" "c_start (gcs ! i) < c_end (gcs ! i)" "c_end (gcs ! i) \<le> 1073741823"
    using assms by (auto simp: cells_ok_def)
  have "group_bound gcs i \<le> c_start (gcs ! i)"
    using assms s boundaryAt_between [of gcs "i - 1"] by (auto simp: group_bound_def)
  moreover have "c_end (gcs ! i) \<le> group_bound gcs (Suc i)"
    using assms s boundaryAt_between [of gcs i] by (auto simp: group_bound_def)
  ultimately show ?thesis using s by simp
qed

lemma data_columns_bounds: "dp \<in> set (data_columns l) \<Longrightarrow> 0 \<le> ip_x dp \<and> ip_x dp < int (length l)"
  by (auto simp: data_columns_def parseIntPositionsAfterKeyword_def Let_def dest!: FindAll_bounds)

lemma data_columns_sorted: "sorted_wrt (\<lambda>a b. ip_x a \<le> ip_x b) (data_columns l)"
proof -
  have "sorted_wrt (\<lambda>m m'. m_start m \<le> m_start m') (FindAll digitsRE t)" for t
    using FindAll_sorted [of digitsRE t] FindAll_bounds [of _ digitsRE t]
    by (auto simp: sorted_wrt_iff_nth_less) (metis le_trans less_imp_le_nat nth_mem order_less_trans)
  then show ?thesis
    by (simp add: data_columns_def parseIntPositionsAfterKeyword_def Let_def sorted_wrt_map)
qed

lemma slices_of_data:
  assumes "cells_ok gcs" and "gcs \<noteq> []" and "length l \<le> 1073741823"
  shows "concat (map (\<lambda>i. filter (\<lambda>dp. in_group (ip_x dp) (group_range_at gcs i)) (data_columns l)) [0..<length gcs])
    = data_columns l"
proof -
  have "concat (map (\<lambda>i. filter (\<lambda>dp. in_group (ip_x dp) (group_range_at gcs i)) (data_columns l)) [0..<length gcs])
    = concat (map (\<lambda>i. filter (\<lambda>dp. group_bound gcs i \<le> ip_x dp \<and> ip_x dp < group_bound gcs (Suc i)) (data_columns l)) [0..<length gcs])"
    by (intro arg_cong [of _ _ concat] map_cong refl) (simp add: in_group_def group_range_bounds)
  also have "\<dots> = filter (\<lambda>dp. group_bound gcs 0 \<le> ip_x dp \<and> ip_x dp < group_bound gcs (length gcs)) (data_columns l)"
    by (rule concat_slices [OF data_columns_sorted]) (use assms group_bound_mono in auto)
  also have "\<dots> = data_columns l"
    using assms by (intro filter_True) (auto simp: group_bound_def dest!: data_columns_bounds)
  finally show ?thesis .
qed


section \<open>One column per integer of the first data row\<close>

lemma length_map_index [simp]: "length (map_index f xs) = length xs"
  by (simp add: map_index_def)

lemma map_map_index: "(\<And>i x. g (f i x) = h x) \<Longrightarrow> map g (map_index f xs) = map h xs"
  by (rule nth_equalityI) (simp_all add: map_index_def)

lemma length_group_columns:
  "length (group_columns hs n codes dataCols gc gr) = length (filter (\<lambda>dp. in_group (ip_x dp) gr) dataCols)"
  by (auto simp: group_columns_def Let_def split: option.splits)

lemma group_columns_plain:
  assumes "matchRoomType (c_text gc) = Some base" and "\<not> hasDuplicateKeyword (c_text gc)"
  shows "map RoomType (group_columns hs n codes dataCols gc gr) =
    map (\<lambda>dp. k_name base) (filter (\<lambda>dp. in_group (ip_x dp) gr) dataCols)"
  using assms by (auto simp: group_columns_def Let_def standard_column_def intro: map_map_index)

text \<open>The group whose label stands over a position: the last one that starts at or before it, or the
  first group.\<close>

definition group_over :: "cell list \<Rightarrow> int \<Rightarrow> cell" where
  "group_over gcs x = (case rev (filter (\<lambda>c. c_start c \<le> x) (tl gcs)) of [] \<Rightarrow> hd gcs | c # _ \<Rightarrow> c)"

definition header_groups :: "string list \<Rightarrow> string \<Rightarrow> cell list" where
  "header_groups hs l = (case nights_index hs of None \<Rightarrow> []
     | Some n \<Rightarrow> group_cells (hs ! n) (ip_x (hd (data_columns l))))"

definition plain_group :: "cell \<Rightarrow> bool" where
  "plain_group c \<longleftrightarrow> matchRoomType (c_text c) \<noteq> None \<and> \<not> hasDuplicateKeyword (c_text c)"

lemma filter_prefix:
  assumes "\<And>j. j < length xs \<Longrightarrow> P (xs ! j) \<longleftrightarrow> j < i"
  shows "filter P xs = take i xs"
proof -
  have "filter P (take i xs) = take i xs"
    using assms by (intro filter_True) (auto simp: in_set_conv_nth)
  moreover have "filter P (drop i xs) = []"
    using assms by (intro filter_False) (auto simp: in_set_conv_nth)
  ultimately show ?thesis using filter_append [of P "take i xs" "drop i xs"] by simp
qed

lemma group_over_slice:
  assumes ok: "cells_ok gcs" and plain: "\<forall>c \<in> set gcs. plain_group c" and i: "i < length gcs"
    and x: "group_bound gcs i \<le> x" "x < group_bound gcs (Suc i)"
  shows "group_over gcs x = gcs ! i"
proof -
  have bound: "group_bound gcs j = c_start (gcs ! j)" if "0 < j" "j < length gcs" for j
    using that plain by (auto simp: group_bound_def boundaryAt_def plain_group_def)
  have start: "c_start (gcs ! j) < c_start (gcs ! k)" if "j < k" "k < length gcs" for j k
    using ok that by (auto simp: cells_ok_def sorted_wrt_iff_nth_less) (meson less_le_trans nth_mem order_less_trans)
  have "filter (\<lambda>c. c_start c \<le> x) (tl gcs) = take i (tl gcs)"
  proof (rule filter_prefix)
    fix j assume "j < length (tl gcs)"
    then have j: "Suc j < length gcs" by (simp add: less_diff_conv)
    have "c_start (gcs ! Suc j) \<le> x \<longleftrightarrow> Suc j \<le> i"
    proof (cases "Suc j \<le> i")
      case True
      then have "c_start (gcs ! Suc j) \<le> c_start (gcs ! i)"
        using start [of "Suc j" i] i by (cases "Suc j = i") auto
      then show ?thesis using True bound [of i] x i by auto
    next
      case False
      then have "c_start (gcs ! Suc i) \<le> c_start (gcs ! Suc j)"
        using start [of "Suc i" "Suc j"] j by (cases "i = j") auto
      then show ?thesis using False bound [of "Suc i"] x j by auto
    qed
    then show "c_start (tl gcs ! j) \<le> x \<longleftrightarrow> j < i" using j by (simp add: nth_tl Suc_le_eq)
  qed
  moreover have "rev (take i (tl gcs)) = (case i of 0 \<Rightarrow> [] | Suc k \<Rightarrow> gcs ! Suc k # rev (take k (tl gcs)))"
    using i by (cases i) (auto simp: take_Suc_conv_app_nth nth_tl)
  moreover have "hd gcs = gcs ! 0" using i by (intro hd_conv_nth) auto
  ultimately show ?thesis by (simp add: group_over_def split: nat.split)
qed

lemma nights_index_less: "nights_index hs = Some n \<Longrightarrow> n < length hs"
  by (auto simp: nights_index_def find_Some_iff)

lemma plain_groupD: "plain_group c \<Longrightarrow> \<exists>base. matchRoomType (c_text c) = Some base \<and> \<not> hasDuplicateKeyword (c_text c)"
  by (auto simp: plain_group_def)

lemma parseColumns_groups:
  assumes "parseColumns hs l = Inr cols"
  obtains n where "nights_index hs = Some n" "n < length hs" "header_groups hs l \<noteq> []"
    "cols = concat (map (\<lambda>i. group_columns hs n (view_codes hs) (data_columns l)
       (header_groups hs l ! i) (group_range_at (header_groups hs l) i)) [0..<length (header_groups hs l)])"
proof (cases "nights_index hs")
  case None
  then show ?thesis using assms by (simp add: parseColumns_def Let_def split: if_splits)
next
  case (Some n)
  then have "data_columns l \<noteq> []" "header_groups hs l \<noteq> []"
    "cols = concat (map (\<lambda>i. group_columns hs n (view_codes hs) (data_columns l)
       (header_groups hs l ! i) (group_range_at (header_groups hs l) i)) [0..<length (header_groups hs l)])"
    using assms by (simp_all add: parseColumns_def header_groups_def Let_def split: if_splits)
  then show ?thesis using that [OF Some nights_index_less [OF Some]] by simp
qed

text \<open>C19: A chart has one column for each integer of its first data row, in the order of the row: the
  ranges of the groups on the NIGHTS line neither drop nor repeat a value, however the labels are
  laid out.  Where every label is a known room type, each column has the type of the label that
  stands over its value.\<close>

theorem columns_match_row:
  assumes "parseColumns hs l = Inr cols"
    and "length l \<le> 1073741823" and "\<forall>h \<in> set hs. length h \<le> 1073741823"
  shows "length cols = length (data_columns l) \<and>
    ((\<forall>c \<in> set (header_groups hs l). plain_group c) \<longrightarrow>
      map RoomType cols = map (\<lambda>dp. k_name (the (matchRoomType (c_text (group_over (header_groups hs l) (ip_x dp))))))
        (data_columns l))"
proof -
  obtain n where n: "nights_index hs = Some n" "n < length hs" "header_groups hs l \<noteq> []"
    and cols: "cols = concat (map (\<lambda>i. group_columns hs n (view_codes hs) (data_columns l)
       (header_groups hs l ! i) (group_range_at (header_groups hs l) i)) [0..<length (header_groups hs l)])"
    by (rule parseColumns_groups [OF assms(1)])
  let ?g = "header_groups hs l"
  let ?slice = "\<lambda>i. filter (\<lambda>dp. in_group (ip_x dp) (group_range_at ?g i)) (data_columns l)"
  let ?name = "\<lambda>dp. k_name (the (matchRoomType (c_text (group_over ?g (ip_x dp)))))"
  have ok: "cells_ok ?g" using n assms(3) by (simp add: header_groups_def group_cells_ok)
  note slices = slices_of_data [OF ok n(3) assms(2)]
  have "length cols = length (concat (map ?slice [0..<length ?g]))"
    by (simp add: cols length_concat length_group_columns comp_def)
  moreover have "map RoomType cols = map ?name (data_columns l)" if plain: "\<forall>c \<in> set ?g. plain_group c"
  proof -
    have "map RoomType (group_columns hs n (view_codes hs) (data_columns l) (?g ! i) (group_range_at ?g i)) =
        map ?name (?slice i)" if i: "i < length ?g" for i
    proof -
      obtain base where "matchRoomType (c_text (?g ! i)) = Some base" "\<not> hasDuplicateKeyword (c_text (?g ! i))"
        using plain i plain_groupD nth_mem by blast
      then show ?thesis
        using group_over_slice [OF ok plain i] group_columns_plain
        by (auto simp: in_group_def group_range_bounds [OF i])
    qed
    then have "concat (map (\<lambda>i. map RoomType (group_columns hs n (view_codes hs) (data_columns l) (?g ! i)
        (group_range_at ?g i))) [0..<length ?g]) = concat (map (\<lambda>i. map ?name (?slice i)) [0..<length ?g])"
      by (intro arg_cong [of _ _ concat] map_cong refl) simp
    then have "map RoomType cols = concat (map (\<lambda>i. map ?name (?slice i)) [0..<length ?g])"
      by (simp add: cols map_concat comp_def)
    also have "\<dots> = map ?name (data_columns l)" 
      using arg_cong [OF slices, of "map ?name"] by (simp add: map_concat comp_def)
    finally show ?thesis .
  qed
  ultimately show ?thesis by (simp only: slices) blast
qed


theorem columns_match_row_witness:
  "\<exists>cols. parseColumns [''NIGHTS  CABIN  DUO STUDIO''] ''SUN THU 9      12  15'' = Inr cols \<and>
     length cols = length (data_columns ''SUN THU 9      12  15'')"
proof -
  let ?hs = "[''NIGHTS  CABIN  DUO STUDIO'']" and ?l = "''SUN THU 9      12  15''"
  have "parseColumns ?hs ?l = Inr
      [\<lparr>RoomType = ''CABIN'', View = [], Sleeps = 6\<rparr>,
       \<lparr>RoomType = ''DUO STUDIO'', View = [], Sleeps = 2\<rparr>, \<lparr>RoomType = ''DUO STUDIO'', View = [], Sleeps = 2\<rparr>]"
    by code_simp
  then show ?thesis
    by (intro exI conjI, assumption) (rule columns_match_row [THEN conjunct1], assumption, simp_all)
qed


end
