(* ===== verification/ChartParser.thy ===== *)
theory ChartParser
  imports ChartColumns
begin

text \<open>
  \<open>parseSeasons\<close> and \<open>parseLayoutText\<close> of \<open>internal/dvc/parser.go\<close>: the loop over the data
  section as a fold of one step per line over the seasons found and the pending one, and the
  assembly of a chart from the text of a layout.
\<close>

section \<open>Seasons\<close>

record pending_season =
  p_dates :: "date_range list"
  p_sunThu :: "int list"
  p_friSat :: "int list"

definition pending_complete :: "pending_season \<Rightarrow> bool" where
  "pending_complete p \<longleftrightarrow> length (p_sunThu p) > 0 \<and> length (p_friSat p) > 0 \<and> length (p_dates p) > 0"

definition toSeason :: "pending_season \<Rightarrow> season" where
  "toSeason p = \<lparr>Periods = p_dates p, SunThu = p_sunThu p, FriSat = p_friSat p\<rparr>"

definition pending_reset :: pending_season where
  "pending_reset = \<lparr>p_dates = [], p_sunThu = [], p_friSat = []\<rparr>"

type_synonym season_state = "season list \<times> pending_season"

definition flush :: "season_state \<Rightarrow> season_state" where
  "flush st = (if pending_complete (snd st) then fst st @ [toSeason (snd st)] else fst st, pending_reset)"

definition add_dates :: "date_range list \<Rightarrow> season_state \<Rightarrow> season_state" where
  "add_dates dates st = (fst st, (snd st)\<lparr>p_dates := p_dates (snd st) @ dates\<rparr>)"

definition set_sunThu :: "int list \<Rightarrow> season_state \<Rightarrow> season_state" where
  "set_sunThu vals st = (fst st, (snd st)\<lparr>p_sunThu := vals\<rparr>)"

definition set_friSat :: "int list \<Rightarrow> season_state \<Rightarrow> season_state" where
  "set_friSat vals st = (fst st, (snd st)\<lparr>p_friSat := vals\<rparr>)"

definition season_line :: "int \<Rightarrow> string \<Rightarrow> season_state \<Rightarrow> season_state" where
  "season_line year line st =
     (let upper = ToUpper line;
          isSunThu = str_Contains upper ''SUN'' \<and> str_Contains upper ''THU'';
          isFriSat = str_Contains upper ''FRI'' \<and> str_Contains upper ''SAT'';
          isSunSat = str_Contains upper ''SUN'' \<and> str_Contains upper ''SAT''
            \<and> \<not> str_Contains upper ''THU'' \<and> \<not> str_Contains upper ''FRI'';
          isWeekly = str_Contains upper ''WEEKLY'';
          dates = parseDateRangesFromLine line year
      in if isSunThu then add_dates dates (set_sunThu (parseIntsAfterKeyword line ''THU'') (flush st))
         else if isSunSat then
           (let vals = parseIntsAfterKeyword line ''SAT''
            in add_dates dates (set_friSat vals (set_sunThu vals (flush st))))
         else if isFriSat then add_dates dates (set_friSat (parseIntsAfterKeyword line ''SAT'') st)
         else if isWeekly then flush (add_dates dates st)
         else if length dates > 0 then add_dates dates st
         else st)"

definition parseSeasons :: "string list \<Rightarrow> int \<Rightarrow> season list" where
  "parseSeasons dataLines year = fst (flush (fold (season_line year) dataLines ([], pending_reset)))"

section \<open>The chart of a layout\<close>

definition resort_name :: "string list \<Rightarrow> string" where
  "resort_name ls = (case filter (\<lambda>s. s \<noteq> []) (map TrimSpace ls) of s # _ \<Rightarrow> s | [] \<Rightarrow> [])"

definition yearRE :: rx where
  "yearRE = foldr RSeq [RGroup (RRepeat 4 0 (RChar is_digit)), RPlus (RChar rx_space)]
     (RText ''VACATION POINTS PER NIGHT'')"

definition chart_year :: "string list \<Rightarrow> int" where
  "chart_year ls = (case filter (\<lambda>m. m \<noteq> None) (map (FindFirst yearRE) ls) of
     Some m # _ \<Rightarrow> mustAtoi (m_groups m ! 0) | _ \<Rightarrow> 0)"

definition first_index :: "(string \<Rightarrow> bool) \<Rightarrow> string list \<Rightarrow> nat option" where
  "first_index P ls = find (\<lambda>i. P (ls ! i)) [0..<length ls]"

definition split_index :: "string list \<Rightarrow> nat option" where
  "split_index ls =
     (case first_index (\<lambda>l. str_Contains l ''TRAVEL PERIODS'') ls of
        Some i \<Rightarrow> Some i
      | None \<Rightarrow> first_index (\<lambda>l. str_Contains l ''SUN'' \<and> str_Contains l ''THU'') ls)"

definition is_data_row :: "string \<Rightarrow> bool" where
  "is_data_row l \<longleftrightarrow> (let upper = ToUpper l in
     str_Contains upper ''SUN'' \<and> (str_Contains upper ''THU'' \<or> str_Contains upper ''SAT''))"

definition parseLayoutText :: "string \<Rightarrow> string \<Rightarrow> resort_chart result" where
  "parseLayoutText text resortCode =
     (let ls = str_Lines text; year = chart_year ls in
      if year = 0 then Inl (ErrInput ''could not find year in PDF text'')
      else case split_index ls of
        None \<Rightarrow> Inl (ErrInput ''could not find data section start'')
      | Some splitIdx \<Rightarrow>
         (case filter is_data_row (drop splitIdx ls) of
            [] \<Rightarrow> Inl (ErrInput ''could not find first data row'')
          | firstDataLine # _ \<Rightarrow>
              and_then (parseColumns (take splitIdx ls) firstDataLine) (\<lambda>columns.
                Inr \<lparr>ResortName = resort_name ls, ResortCode = resortCode, ChartYear = year,
                     Columns = columns, Seasons = parseSeasons (drop splitIdx ls) year\<rparr>)))"

text \<open>\<open>ParsePDF\<close>, the text \<open>extractText\<close> returns being an argument.\<close>

definition ParsePDF :: "string result \<Rightarrow> string \<Rightarrow> resort_chart result" where
  "ParsePDF extracted base = and_then extracted (\<lambda>text. parseLayoutText text (extractResortCode base))"

end
