(* ===== verification/ChartLayout.thy ===== *)
theory ChartLayout
  imports ChartParser
begin

text \<open>
  The layout of the data section of a point chart, as \<open>pdftotext -layout\<close> prints it, and the proof
  that the parser of \<open>internal/dvc/parser.go\<close> reads it back.  A line has date ranges in front, a
  row label and the values of the row, with any spacing; a season is a block of lines from its
  SUN--THU (or SUN--SAT) row to its WEEKLY row.
\<close>

section \<open>Lines of a layout\<close>

type_synonym layout_date = "string \<times> nat"
type_synonym layout_range = "layout_date \<times> layout_date"

datatype row_label = NoRow | SunThuRow | FriSatRow | SunSatRow | WeeklyRow

record layout_line =
  ln_indent :: nat
  ln_ranges :: "(layout_range \<times> nat) list"
  ln_label :: row_label
  ln_cells :: "(nat \<times> nat) list"

definition row_dash :: string where
  "row_dash = [CHR 0xE2, CHR 0x80, CHR 0x94]"

fun label_text :: "row_label \<Rightarrow> string" where
  "label_text NoRow = []"
| "label_text SunThuRow = ''SUN'' @ row_dash @ ''THU''"
| "label_text FriSatRow = ''FRI'' @ row_dash @ ''SAT''"
| "label_text SunSatRow = ''SUN'' @ row_dash @ ''SAT''"
| "label_text WeeklyRow = ''WEEKLY''"

definition blanks :: "nat \<Rightarrow> string" where
  "blanks n = replicate n (CHR '' '')"

definition date_text :: "layout_date \<Rightarrow> string" where
  "date_text md = fst md @ '' '' @ dec (snd md)"

definition range_text :: "layout_range \<Rightarrow> string" where
  "range_text r = date_text (fst r) @ '' - '' @ date_text (snd r)"

definition ranges_text :: "(layout_range \<times> nat) list \<Rightarrow> string" where
  "ranges_text rs = concat (map (\<lambda>(r, n). range_text r @ blanks (Suc n)) rs)"

definition cells_text :: "(nat \<times> nat) list \<Rightarrow> string" where
  "cells_text cs = concat (map (\<lambda>(n, v). blanks (Suc n) @ dec v) cs)"

definition render_line :: "layout_line \<Rightarrow> string" where
  "render_line ln = blanks (ln_indent ln) @ ranges_text (ln_ranges ln) @ label_text (ln_label ln) @ cells_text (ln_cells ln)"

text \<open>What a line says: its values and, in a year, its periods.\<close>

definition date_ok :: "layout_date \<Rightarrow> bool" where
  "date_ok md \<longleftrightarrow> fst md \<in> set month_abbrevs \<and> snd md < 100"

definition line_ok :: "layout_line \<Rightarrow> bool" where
  "line_ok ln \<longleftrightarrow> (\<forall>r \<in> fst ` set (ln_ranges ln). date_ok (fst r) \<and> date_ok (snd r)) \<and>
     (\<forall>v \<in> snd ` set (ln_cells ln). v < 2 ^ 63) \<and> (ln_label ln = NoRow \<longrightarrow> ln_cells ln = [])"

definition month_number :: "string \<Rightarrow> month" where
  "month_number m = the (map_of (zip month_abbrevs [1, 2, 3, 4, 5, 6, 7, 8, 9, 9, 10, 11, 12]) m)"

definition layout_day :: "int \<Rightarrow> layout_date \<Rightarrow> date" where
  "layout_day year md = go_Date year (month_number (fst md)) (int (snd md))"

definition period_of :: "int \<Rightarrow> layout_range \<Rightarrow> date_range" where
  "period_of year r = \<lparr>Start = format_date (layout_day year (fst r)), End = format_date (layout_day year (snd r))\<rparr>"

definition line_periods :: "int \<Rightarrow> layout_line \<Rightarrow> date_range list" where
  "line_periods year ln = map (\<lambda>r. period_of year (fst r)) (ln_ranges ln)"

definition line_values :: "layout_line \<Rightarrow> int list" where
  "line_values ln = map (\<lambda>c. int (snd c)) (ln_cells ln)"

section \<open>Integers\<close>

lemma digits_skip: "\<not> is_digit c \<Longrightarrow> rx_run digitsRE (p, c # s, gs) = []"
  by (simp add: digitsRE_def RPlus_def)

lemma space_not_digit [simp]: "\<not> is_digit (CHR '' '')"
  by (simp add: is_digit_def digit_val_def)

lemma mustAtoi_dec: "v < 2 ^ 63 \<Longrightarrow> mustAtoi (dec v) = int v"
  using Atoi_fmt_d [of "int v"] by (simp add: mustAtoi_def fmt_d_def in64_def)

lemma list_all_dec: "list_all is_digit (dec n)"
  by (auto simp: list_all_iff dest: dec_digits)

lemma rx_find_skips:
  assumes "\<And>c p s. c \<in> set t \<Longrightarrow> rx_run r (p, c # s, []) = []"
  shows "rx_find r x p (t @ s) = rx_find r (x + length t) (last_byte p t) s"
  using assms by (induction t arbitrary: x p) (simp_all add: rx_find_skip)

lemma length_blanks [simp]: "length (blanks n) = n"
  by (simp add: blanks_def)

lemma find_blanks:
  "(\<And>p s. rx_run r (p, CHR '' '' # s, []) = []) \<Longrightarrow>
     rx_find r x p (blanks n @ s) = rx_find r (x + n) (last_byte p (blanks n)) s"
  using rx_find_skips [of "blanks n" r x p s] by (simp add: blanks_def)

lemma find_digits_cells:
  assumes "\<forall>v \<in> snd ` set cs. v < 2 ^ 63"
  shows "map (\<lambda>m. mustAtoi (m_text m)) (rx_find digitsRE x p (cells_text cs)) = map (\<lambda>c. int (snd c)) cs"
  using assms
proof (induction cs arbitrary: x p)
  case Nil
  show ?case by (simp add: cells_text_def rx_find_Nil digitsRE_def RPlus_def)
next
  case (Cons c cs)
  obtain n v where c: "c = (n, v)" by (cases c)
  have stop: "cells_text cs = [] \<or> \<not> is_digit (hd (cells_text cs))"
    by (cases cs) (auto simp: cells_text_def blanks_def)
  have "rx_find digitsRE x p (cells_text (c # cs)) =
      rx_find digitsRE (x + Suc n) (last_byte p (blanks (Suc n))) (dec v @ cells_text cs)"
    using find_blanks [of digitsRE x p "Suc n" "dec v @ cells_text cs"]
    by (simp add: cells_text_def c digits_skip)
  also have "\<dots> = \<lparr>m_start = x + Suc n, m_end = x + Suc n + length (dec v), m_text = dec v, m_groups = []\<rparr>
      # rx_find digitsRE (x + Suc n + length (dec v)) (last_byte (last_byte p (blanks (Suc n))) (dec v)) (cells_text cs)"
    unfolding digitsRE_def
    by (intro rx_find_match yields_plus) (simp_all add: list_all_dec stop)
  finally show ?case using Cons by (simp add: c mustAtoi_dec)
qed

lemma parseInts_cells:
  "\<forall>v \<in> snd ` set cs. v < 2 ^ 63 \<Longrightarrow> parseInts (cells_text cs) = map (\<lambda>c. int (snd c)) cs"
  by (simp add: parseInts_def FindAll_def find_digits_cells)

section \<open>Date ranges\<close>

lemma month_none: "upper_char c \<notin> set ''JFMASOND'' \<Longrightarrow> rx_run monthRE (p, c # s, gs) = []"
  by (auto simp: monthRE_def RAny_def month_abbrevs_def RFold_def upper_char_def)

lemma dateRange_skip: "upper_char c \<notin> set ''JFMASOND'' \<Longrightarrow> rx_run dateRangeRE (p, c # s, gs) = []"
  using month_none [of c p s gs] by (simp add: dateRangeRE_def del: list.set)

text \<open>A month name before a space: the shorter of two alternatives, \<open>Sep\<close> of \<open>Sept\<close>, does not go on.\<close>

lemma yields_month:
  assumes "m \<in> set month_abbrevs" and "rx_yields b (last_byte p m, CHR '' '' # s, gs @ [m]) st"
    and "\<And>p s gs. rx_run b (p, CHR ''t'' # s, gs) = []"
  shows "rx_yields (RSeq monthRE b) (p, m @ CHR '' '' # s, gs) st"
  using assms
  by (auto simp: month_abbrevs_def rx_yields_def monthRE_def RAny_def RFold_def)

lemma yields_spaces_none: "s = [] \<or> \<not> rx_space (hd s) \<Longrightarrow> rx_yields spacesRE (p, s, gs) (p, s, gs)"
  using yields_star [of rx_space "[]" s p gs] by (simp add: spacesRE_def)

lemma yields_space_one:
  "s = [] \<or> \<not> rx_space (hd s) \<Longrightarrow> rx_yields (RPlus (RChar rx_space)) (p, CHR '' '' # s, gs) (Some (CHR '' ''), s, gs)"
  using yields_plus [of "'' ''" rx_space s p gs] by (simp add: rx_space_def)

lemma dec_two_digits:
  assumes "d < 100"
  shows "(\<exists>a. dec d = [a] \<and> is_digit a) \<or> (\<exists>a b. dec d = [a, b] \<and> is_digit a \<and> is_digit b)"
proof -
  have "length (dec d) \<le> 2" using assms by (intro length_dec) auto
  then have "(\<exists>a. dec d = [a]) \<or> (\<exists>a b. dec d = [a, b])"
    using dec_nonempty [of d] by (cases "dec d"; cases "tl (dec d)") auto
  then show ?thesis using dec_digits [of _ d] by auto
qed

lemma yields_day:
  assumes "d < 100" and "s = [] \<or> \<not> is_digit (hd s)"
  shows "rx_yields dayRE (p, dec d @ s, gs) (last_byte p (dec d), s, gs @ [dec d])"
  unfolding dayRE_def
proof (rule yields_group)
  show "rx_yields (RRepeat 1 1 (RChar is_digit)) (p, dec d @ s, gs) (last_byte p (dec d), s, gs)"
    using dec_two_digits [OF assms(1)] assms(2)
    by (cases s) (auto simp: rx_yields_def RRepeat_def ROpt_def)
qed

lemma dec_hd: "is_digit (hd (dec d @ s))"
  using list_all_dec [of d] by (cases "dec d") auto

lemma digit_not_rx_space: "is_digit c \<Longrightarrow> \<not> rx_space c"
  using is_digit_not_space [of c] by (auto simp: is_space_def rx_space_def)

lemma yields_range:
  assumes "date_ok (fst r)" and "date_ok (snd r)" and "s = [] \<or> \<not> is_digit (hd s)"
  shows "rx_yields dateRangeRE (p, range_text r @ s, [])
    (last_byte p (range_text r), s, [fst (fst r), dec (snd (fst r)), fst (snd r), dec (snd (snd r))])"
proof -
  obtain m d m' d' where r: "r = ((m, d), (m', d'))" by (cases r) auto
  have ok: "m \<in> set month_abbrevs" "d < 100" "m' \<in> set month_abbrevs" "d' < 100"
    using assms by (simp_all add: r date_ok_def)
  have spc: "dec n @ t = [] \<or> \<not> rx_space (hd (dec n @ t))" for n t
    using digit_not_rx_space [OF dec_hd] by simp
  have stop: "rx_run (RSeq (RPlus (RChar rx_space)) c) (q, CHR ''t'' # t, gs) = []" for q t gs c
    by (simp add: RPlus_def rx_space_def)
  have month': "m' @ t = [] \<or> \<not> rx_space (hd (m' @ t))" for t
    using ok(3) by (auto simp: month_abbrevs_def rx_space_def)
  have t: "range_text r @ s = m @ CHR '' '' # dec d @ CHR '' '' # ''-'' @ CHR '' '' # m' @ CHR '' '' # dec d' @ s"
    by (simp add: r range_text_def date_text_def)
  have one: "rx_yields spacesRE (q, CHR '' '' # u, gs) (Some (CHR '' ''), u, gs)"
    if "u = [] \<or> \<not> rx_space (hd u)" for q u gs
    using yields_star [of rx_space "'' ''" u q gs] that by (simp add: spacesRE_def rx_space_def)
  have "rx_yields dateRangeRE (p, m @ CHR '' '' # dec d @ CHR '' '' # ''-'' @ CHR '' '' # m' @ CHR '' '' # dec d' @ s, [])
    (last_byte (Some (CHR '' '')) (dec d'), s, [m, dec d, m', dec d'])"
    unfolding dateRangeRE_def foldr.simps comp_def id_def
    apply (rule yields_month [OF ok(1) _ stop])
    apply (rule yields_seq, rule yields_space_one [OF spc])
    apply (rule yields_seq, rule yields_day [OF ok(2)], simp)
    apply (rule yields_seq, rule one, simp add: rx_space_def)
    apply (rule yields_seq, rule yields_text)
    apply (rule yields_seq, rule one [OF month'])
    apply (rule yields_month [OF ok(3) _ stop])
    apply (rule yields_seq, rule yields_space_one [OF spc])
    using yields_day [OF ok(4) assms(3), of "Some (CHR '' '')" "[m, dec d, m']"] by simp
  then show ?thesis
    unfolding t [symmetric] by (simp add: r range_text_def date_text_def)
qed


definition range_groups :: "layout_range \<Rightarrow> string list" where
  "range_groups r = [fst (fst r), dec (snd (fst r)), fst (snd r), dec (snd (snd r))]"

lemma dateRange_none: "rx_run monthRE (p, s, gs) = [] \<Longrightarrow> rx_run dateRangeRE (p, s, gs) = []"
  by (simp add: dateRangeRE_def)

lemma dateRange_space: "rx_run dateRangeRE (p, CHR '' '' # s, gs) = []"
  by (rule dateRange_skip) (simp add: upper_char_def)

lemma dateRange_digit: "is_digit c \<Longrightarrow> rx_run dateRangeRE (p, c # s, gs) = []"
  by (rule dateRange_skip) (auto simp: upper_char_def is_digit_def digit_val_def Let_def split: if_splits)

lemma find_ranges:
  assumes "\<forall>r \<in> fst ` set rs. date_ok (fst r) \<and> date_ok (snd r)"
  shows "\<exists>x' p'. map m_groups (rx_find dateRangeRE x p (ranges_text rs @ s)) =
    map (\<lambda>r. range_groups (fst r)) rs @ map m_groups (rx_find dateRangeRE x' p' s)"
  using assms
proof (induction rs arbitrary: x p)
  case Nil
  show ?case by (intro exI [of _ x] exI [of _ p]) (simp add: ranges_text_def)
next
  case (Cons a rs)
  obtain r n where a: "a = (r, n)" by (cases a)
  have ok: "date_ok (fst r)" "date_ok (snd r)" using Cons.prems by (auto simp: a)
  let ?rest = "blanks (Suc n) @ ranges_text rs @ s"
  have "rx_find dateRangeRE x p (range_text r @ ?rest) =
      \<lparr>m_start = x, m_end = x + length (range_text r), m_text = range_text r, m_groups = range_groups r\<rparr>
      # rx_find dateRangeRE (x + length (range_text r)) (last_byte p (range_text r)) ?rest"
    unfolding range_groups_def
    by (intro rx_find_match yields_range ok) (simp_all add: blanks_def range_text_def)
  then show ?case
    using Cons.IH [of "x + length (range_text r) + Suc n" "last_byte (last_byte p (range_text r)) (blanks (Suc n))"]
      Cons.prems
      find_blanks [of dateRangeRE "x + length (range_text r)" "last_byte p (range_text r)" "Suc n" "ranges_text rs @ s"]
    by (auto simp: a ranges_text_def dateRange_space)
qed

lemma find_dates_label:
  "rx_find dateRangeRE x p (label_text l @ s) =
     rx_find dateRangeRE (x + length (label_text l)) (last_byte p (label_text l)) s"
  by (cases l) (simp_all add: row_dash_def rx_find_skip dateRange_none monthRE_def RAny_def
      month_abbrevs_def RFold_def)

lemma cells_chars: "c \<in> set (cells_text cs) \<Longrightarrow> c = CHR '' '' \<or> is_digit c"
  by (auto simp: cells_text_def blanks_def dest: dec_digits)

lemma find_dates_cells: "rx_find dateRangeRE x p (cells_text cs) = []"
proof -
  have "rx_run dateRangeRE (q, c # s, []) = []" if "c \<in> set (cells_text cs)" for c q s
    using cells_chars [OF that] by (elim disjE) (simp_all only: dateRange_space dateRange_digit)
  then have "rx_find dateRangeRE x p (cells_text cs @ []) =
      rx_find dateRangeRE (x + length (cells_text cs)) (last_byte p (cells_text cs)) []"
    by (rule rx_find_skips)
  moreover have "rx_find dateRangeRE y q [] = []" for y q
    by (rule rx_find_Nil, rule dateRange_none) (simp add: monthRE_def RAny_def month_abbrevs_def RFold_def)
  ultimately show ?thesis by (simp only: append_Nil2)
qed

lemma parseMonth_name:
  assumes "m \<in> set month_abbrevs"
  shows "parseMonth m = month_number m"
proof -
  have "list_all (\<lambda>m. parseMonth m = month_number m) month_abbrevs" by code_simp
  with assms show ?thesis by (simp only: list_all_iff)
qed

lemma range_of_groups_period:
  "date_ok (fst r) \<Longrightarrow> date_ok (snd r) \<Longrightarrow> range_of_groups year (range_groups r) = period_of year r"
  by (simp add: range_of_groups_def range_groups_def period_of_def layout_day_def date_ok_def parseMonth_name mustAtoi_dec)

lemma parse_line_dates:
  assumes "line_ok ln"
  shows "parseDateRangesFromLine (render_line ln) year = line_periods year ln"
proof -
  have ok: "\<forall>r \<in> fst ` set (ln_ranges ln). date_ok (fst r) \<and> date_ok (snd r)"
    using assms by (simp add: line_ok_def)
  have "map m_groups (FindAll dateRangeRE (render_line ln)) = map (\<lambda>r. range_groups (fst r)) (ln_ranges ln)"
    using find_ranges [OF ok, of "ln_indent ln" "last_byte None (blanks (ln_indent ln))"
        "label_text (ln_label ln) @ cells_text (ln_cells ln)"]
      find_blanks [OF dateRange_space, of 0 None "ln_indent ln"
        "ranges_text (ln_ranges ln) @ label_text (ln_label ln) @ cells_text (ln_cells ln)"]
    by (simp add: FindAll_def render_line_def find_dates_label find_dates_cells)
  then have "map (range_of_groups year) (map m_groups (FindAll dateRangeRE (render_line ln)))
      = map (\<lambda>r. range_of_groups year (range_groups (fst r))) (ln_ranges ln)" by simp
  also have "\<dots> = line_periods year ln"
    unfolding line_periods_def using ok by (intro map_cong refl) (auto simp: range_of_groups_period)
  finally show ?thesis by (simp add: parseDateRangesFromLine_def comp_def)
qed


section \<open>Row labels\<close>

text \<open>The first two letters of each keyword tell it from everything else on a line.\<close>

definition row_keywords :: "string list" where
  "row_keywords = [''SUN'', ''THU'', ''FRI'', ''SAT'', ''WEEKLY'']"

definition keyword_pair :: "char \<Rightarrow> char \<Rightarrow> bool" where
  "keyword_pair a b \<longleftrightarrow> list_ex (\<lambda>k. a = k ! 0 \<and> b = k ! 1) row_keywords"

lemma keyword_letters: "keyword_pair a b \<Longrightarrow> c \<in> {a, b} \<Longrightarrow> \<not> is_digit c \<and> c \<noteq> CHR '' '' \<and> c \<noteq> CHR ''-''"
  by (auto simp: keyword_pair_def row_keywords_def is_digit_def digit_val_def)

lemma pair_sep: "c \<noteq> a \<Longrightarrow> c \<noteq> b \<Longrightarrow> has_pair a b (s @ c # t) \<longleftrightarrow> has_pair a b s \<or> has_pair a b t"
  by (cases t) (auto simp: has_pair_append)

lemma months_pair: "keyword_pair a b \<Longrightarrow> m \<in> set month_abbrevs \<Longrightarrow> \<not> has_pair a b (ToUpper m)"
proof -
  have "list_all (\<lambda>k. list_all (\<lambda>m. \<not> has_pair (k ! 0) (k ! 1) (ToUpper m)) month_abbrevs) row_keywords"
    by code_simp
  then show "keyword_pair a b \<Longrightarrow> m \<in> set month_abbrevs \<Longrightarrow> ?thesis"
    unfolding keyword_pair_def by (auto simp: list_all_iff list_ex_iff)
qed

lemma ToUpper_append [simp]: "ToUpper (s @ t) = ToUpper s @ ToUpper t" "ToUpper [] = []"
  "ToUpper (c # s) = upper_char c # ToUpper s" "length (ToUpper s) = length s"
  by (simp_all add: ToUpper_def)

lemma ToUpper_id: "(\<And>c. c \<in> set s \<Longrightarrow> upper_char c = c) \<Longrightarrow> ToUpper s = s"
  by (simp add: ToUpper_def map_idI)

lemma upper_digit: "is_digit c \<Longrightarrow> upper_char c = c"
  by (auto simp: upper_char_def is_digit_def digit_val_def Let_def split: if_splits)

lemma ToUpper_dec [simp]: "ToUpper (dec n) = dec n"
  by (intro ToUpper_id upper_digit) (rule dec_digits)

lemma ToUpper_blanks [simp]: "ToUpper (blanks n) = blanks n"
  by (intro ToUpper_id) (simp add: blanks_def)

lemma ToUpper_cells [simp]: "ToUpper (cells_text cs) = cells_text cs"
  by (intro ToUpper_id) (auto dest!: cells_chars intro: upper_digit)

lemma ToUpper_label [simp]: "ToUpper (label_text l) = label_text l"
  by (cases l) (simp_all add: row_dash_def)

lemma blanks_pair: "keyword_pair a b \<Longrightarrow> has_pair a b (blanks n @ s) \<longleftrightarrow> has_pair a b s"
  using keyword_letters [of a b a] by (induction n) (auto simp: blanks_def has_pair_Cons)

lemma digits_pair: "keyword_pair a b \<Longrightarrow> \<not> has_pair a b (dec n)"
  using keyword_letters [of a b a] dec_digits [of a n] by (intro has_pair_notin) auto

lemma cells_pair: "keyword_pair a b \<Longrightarrow> \<not> has_pair a b (cells_text cs)"
  using keyword_letters [of a b a] cells_chars [of a cs] by (intro has_pair_notin) auto

lemma range_pair:
  assumes "keyword_pair a b" and "date_ok (fst r)" and "date_ok (snd r)"
  shows "\<not> has_pair a b (ToUpper (range_text r))"
proof -
  have n: "CHR '' '' \<noteq> a" "CHR '' '' \<noteq> b" "CHR ''-'' \<noteq> a" "CHR ''-'' \<noteq> b"
    using keyword_letters [OF assms(1)] by auto
  have t: "ToUpper (range_text r) = ToUpper (fst (fst r)) @ CHR '' '' # dec (snd (fst r)) @ CHR '' '' # [] @ CHR ''-'' # [] @ CHR '' ''
      # ToUpper (fst (snd r)) @ CHR '' '' # dec (snd (snd r))"
    by (simp add: range_text_def date_text_def)
  show ?thesis
    unfolding t using assms months_pair [OF assms(1)] digits_pair [OF assms(1)]
    by (simp only: pair_sep [OF n(1,2)] pair_sep [OF n(3,4)] has_pair.simps date_ok_def) simp
qed

lemma ranges_pair:
  assumes "keyword_pair a b" and "\<forall>r \<in> fst ` set rs. date_ok (fst r) \<and> date_ok (snd r)"
  shows "\<not> has_pair a b (ToUpper (ranges_text rs))"
  using assms(2)
proof (induction rs)
  case Nil
  then show ?case by (simp add: ranges_text_def)
next
  case (Cons x rs)
  have n: "CHR '' '' \<noteq> a" "CHR '' '' \<noteq> b" using keyword_letters [OF assms(1)] by auto
  obtain r k where x: "x = (r, k)" by (cases x)
  have "ToUpper (ranges_text (x # rs)) = ToUpper (range_text r) @ CHR '' '' # blanks k @ ToUpper (ranges_text rs)"
    by (simp add: ranges_text_def x) (simp add: blanks_def)
  moreover have "\<not> has_pair a b (blanks k @ ToUpper (ranges_text rs))"
    using Cons by (simp add: blanks_pair [OF assms(1)])
  ultimately show ?case
    using Cons.prems range_pair [OF assms(1)] by (simp add: pair_sep n x)
qed



lemma Contains_iff: "str_Contains s sub \<longleftrightarrow> (\<exists>a t. s = a @ sub @ t)"
proof
  show "\<exists>a t. s = a @ sub @ t \<Longrightarrow> str_Contains s sub" by (auto simp: Contains_append)
  show "str_Contains s sub \<Longrightarrow> \<exists>a t. s = a @ sub @ t"
  proof (induction s)
    case Nil
    then show ?case by (simp add: str_Contains_def split: if_splits)
  next
    case (Cons c s)
    show ?case
    proof (cases "HasPrefix (c # s) sub")
      case True
      then have "c # s = [] @ sub @ drop (length sub) (c # s)"
        by (metis HasPrefix_def append_Nil append_take_drop_id)
      then show ?thesis by blast
    next
      case False
      then obtain a t where "s = a @ sub @ t" using Cons by (auto simp: str_Contains_def)
      then have "c # s = (c # a) @ sub @ t" by simp
      then show ?thesis by blast
    qed
  qed
qed

lemma ranges_end: "ToUpper (ranges_text rs) = [] \<or> last (ToUpper (ranges_text rs)) = CHR '' ''"
proof (cases rs rule: rev_cases)
  case (snoc ys x)
  obtain r n where "x = (r, n)" by (cases x)
  then have "ToUpper (ranges_text rs) = (ToUpper (ranges_text ys) @ ToUpper (range_text r) @ blanks n) @ '' ''"
    by (simp add: snoc ranges_text_def) (simp add: blanks_def replicate_append_same)
  then show ?thesis by (simp only: last_snoc simp_thms)
qed (simp add: ranges_text_def)

lemma line_pair:
  assumes "keyword_pair a b" and "line_ok ln"
  shows "has_pair a b (ToUpper (render_line ln)) \<longleftrightarrow> has_pair a b (label_text (ln_label ln))"
proof -
  have n: "CHR '' '' \<noteq> a" "CHR '' '' \<noteq> b" using keyword_letters [OF assms(1)] by auto
  have R: "\<not> has_pair a b (ToUpper (ranges_text (ln_ranges ln)))"
    using ranges_pair [OF assms(1)] assms(2) by (simp add: line_ok_def)
  have hd_C: "cells_text cs \<noteq> [] \<Longrightarrow> hd (cells_text cs) = CHR '' ''" for cs
    by (cases cs) (auto simp: cells_text_def blanks_def)
  have "has_pair a b (ToUpper (render_line ln)) \<longleftrightarrow> has_pair a b
      (ToUpper (ranges_text (ln_ranges ln)) @ label_text (ln_label ln) @ cells_text (ln_cells ln))"
    by (simp only: render_line_def ToUpper_append ToUpper_blanks ToUpper_label ToUpper_cells blanks_pair [OF assms(1)])
  then show ?thesis
    using R n ranges_end [of "ln_ranges ln"] hd_C [of "ln_cells ln"] cells_pair [OF assms(1), of "ln_cells ln"]
    by (auto simp: has_pair_append)
qed

lemma label_pairs:
  assumes "k \<in> set row_keywords" and "has_pair (k ! 0) (k ! 1) (label_text l)"
  shows "str_Contains (label_text l) k"
proof -
  have "list_all (\<lambda>k. list_all (\<lambda>l. has_pair (k ! 0) (k ! 1) (label_text l) \<longrightarrow> str_Contains (label_text l) k)
      [NoRow, SunThuRow, FriSatRow, SunSatRow, WeeklyRow]) row_keywords" by code_simp
  moreover have "l \<in> set [NoRow, SunThuRow, FriSatRow, SunSatRow, WeeklyRow]" by (cases l) simp_all
  ultimately show ?thesis using assms unfolding list_all_iff by blast
qed

lemma line_contains:
  assumes "k \<in> set row_keywords" and "line_ok ln"
  shows "str_Contains (ToUpper (render_line ln)) k \<longleftrightarrow> str_Contains (label_text (ln_label ln)) k"
proof
  have kp: "keyword_pair (k ! 0) (k ! 1)" using assms(1) by (auto simp: keyword_pair_def list_ex_iff)
  obtain a b sub where k: "k = a # b # sub" using assms(1) by (auto simp: row_keywords_def)
  assume "str_Contains (ToUpper (render_line ln)) k"
  then have "has_pair (k ! 0) (k ! 1) (ToUpper (render_line ln))" using Contains_pair k by simp
  then show "str_Contains (label_text (ln_label ln)) k"
    using line_pair [OF kp assms(2)] label_pairs [OF assms(1)] by simp
next
  assume "str_Contains (label_text (ln_label ln)) k"
  then obtain a t where l: "label_text (ln_label ln) = a @ k @ t" by (auto simp: Contains_iff)
  have "ToUpper (render_line ln) = blanks (ln_indent ln) @ ToUpper (ranges_text (ln_ranges ln))
      @ label_text (ln_label ln) @ cells_text (ln_cells ln)" by (simp add: render_line_def)
  also have "\<dots> = (blanks (ln_indent ln) @ ToUpper (ranges_text (ln_ranges ln)) @ a) @ k @ (t @ cells_text (ln_cells ln))"
    by (simp add: l)
  finally show "str_Contains (ToUpper (render_line ln)) k" unfolding Contains_iff by blast
qed

lemma line_values_after:
  assumes "line_ok ln" and "k \<in> set row_keywords" and "label_text (ln_label ln) = f @ k"
    and "\<not> has_pair (k ! 0) (k ! 1) (f @ [k ! 0])"
  shows "parseIntsAfterKeyword (render_line ln) k = line_values ln"
proof -
  have kp: "keyword_pair (k ! 0) (k ! 1)" using assms(2) by (auto simp: keyword_pair_def list_ex_iff)
  obtain a b sub where k: "k = a # b # sub" using assms(2) by (auto simp: row_keywords_def)
  have up: "ToUpper k = k" using assms(2) by (auto simp: row_keywords_def)
  have f: "ToUpper f = f"
    using ToUpper_label [of "ln_label ln"] by (simp add: assms(3) up)
  let ?r = "ToUpper (ranges_text (ln_ranges ln))"
  have R: "\<not> has_pair a b ?r"
    using ranges_pair [OF kp] assms(1) by (simp add: line_ok_def k)
  have n: "CHR '' '' \<noteq> a" using keyword_letters [OF kp, of "CHR '' ''"] k by auto
  have "\<not> has_pair a b (?r @ f @ [a])"
    using R n assms(4) ranges_end [of "ln_ranges ln"] by (auto simp: has_pair_append k)
  then have "\<not> has_pair a b ((blanks (ln_indent ln) @ ?r @ f) @ [a])"
    using blanks_pair [OF kp] by (simp add: k)
  from Index_pair [OF this, of sub "cells_text (ln_cells ln)"]
  have "str_Index (ToUpper (render_line ln)) (ToUpper k) = Some (length (blanks (ln_indent ln) @ ?r @ f))"
    unfolding render_line_def ToUpper_append assms(3) f up by (simp add: k)
  then show ?thesis
    using assms(1,3) by (simp add: parseIntsAfterKeyword_def render_line_def line_values_def parseInts_cells line_ok_def)
qed

lemma front_pairs:
  "\<not> has_pair (CHR ''T'') (CHR ''H'') ((''SUN'' @ row_dash) @ ''T'')"
  "\<not> has_pair (CHR ''S'') (CHR ''A'') ((''SUN'' @ row_dash) @ ''S'')"
  "\<not> has_pair (CHR ''S'') (CHR ''A'') ((''FRI'' @ row_dash) @ ''S'')"
  by (simp_all add: row_dash_def)

section \<open>One line\<close>

text \<open>What a line does to the seasons found, by its label.\<close>

fun layout_step :: "int \<Rightarrow> layout_line \<Rightarrow> season_state \<Rightarrow> season_state" where
  "layout_step year ln st =
     (let dates = line_periods year ln; vals = line_values ln in
      case ln_label ln of
        SunThuRow \<Rightarrow> add_dates dates (set_sunThu vals (flush st))
      | SunSatRow \<Rightarrow> add_dates dates (set_friSat vals (set_sunThu vals (flush st)))
      | FriSatRow \<Rightarrow> add_dates dates (set_friSat vals st)
      | WeeklyRow \<Rightarrow> flush (add_dates dates st)
      | NoRow \<Rightarrow> add_dates dates st)"

lemma label_contains:
  "map (\<lambda>l. map (str_Contains (label_text l)) row_keywords) [NoRow, SunThuRow, FriSatRow, SunSatRow, WeeklyRow] =
   [[False, False, False, False, False], [True, True, False, False, False], [False, False, True, True, False],
    [True, False, False, True, False], [False, False, False, False, True]]"
  by code_simp

lemma season_line_step:
  assumes "line_ok ln"
  shows "season_line year (render_line ln) st = layout_step year ln st"
proof -
  note c = line_contains [OF _ assms]
  have k: "''SUN'' \<in> set row_keywords" "''THU'' \<in> set row_keywords" "''FRI'' \<in> set row_keywords"
    "''SAT'' \<in> set row_keywords" "''WEEKLY'' \<in> set row_keywords" by (simp_all add: row_keywords_def)
  note vals = line_values_after [OF assms]
  show ?thesis
  proof (cases "ln_label ln")
    case NoRow
    have "add_dates [] st = st" by (simp add: add_dates_def)
    then show ?thesis
      using NoRow label_contains
      by (simp add: season_line_def Let_def c k parse_line_dates [OF assms] row_keywords_def)
  next
    case SunThuRow
    then show ?thesis
      using label_contains vals [OF k(2), of "''SUN'' @ row_dash"] front_pairs
      by (simp add: season_line_def Let_def c k parse_line_dates [OF assms] row_keywords_def)
  next
    case FriSatRow
    then show ?thesis
      using label_contains vals [OF k(4), of "''FRI'' @ row_dash"] front_pairs
      by (simp add: season_line_def Let_def c k parse_line_dates [OF assms] row_keywords_def)
  next
    case SunSatRow
    then show ?thesis
      using label_contains vals [OF k(4), of "''SUN'' @ row_dash"] front_pairs
      by (simp add: season_line_def Let_def c k parse_line_dates [OF assms] row_keywords_def)
  next
    case WeeklyRow
    then show ?thesis
      using label_contains
      by (simp add: season_line_def Let_def c k parse_line_dates [OF assms] row_keywords_def)
  qed
qed


section \<open>Seasons\<close>

text \<open>The block of a season: its SUN--THU and FRI--SAT rows, or its SUN--SAT row, lines with date ranges
  between them and the WEEKLY row that ends it.\<close>

datatype season_block =
    TwoRates layout_line "layout_line list" layout_line "layout_line list" layout_line
  | OneRate layout_line "layout_line list" layout_line

fun block_lines :: "season_block \<Rightarrow> layout_line list" where
  "block_lines (TwoRates s ms f ns w) = s # ms @ f # ns @ [w]"
| "block_lines (OneRate s ms w) = s # ms @ [w]"

fun block_labels :: "season_block \<Rightarrow> bool" where
  "block_labels (TwoRates s ms f ns w) \<longleftrightarrow> ln_label s = SunThuRow \<and> ln_label f = FriSatRow \<and> ln_label w = WeeklyRow
     \<and> (\<forall>m \<in> set (ms @ ns). ln_label m = NoRow) \<and> ln_cells s \<noteq> [] \<and> ln_cells f \<noteq> []"
| "block_labels (OneRate s ms w) \<longleftrightarrow> ln_label s = SunSatRow \<and> ln_label w = WeeklyRow
     \<and> (\<forall>m \<in> set ms. ln_label m = NoRow) \<and> ln_cells s \<noteq> []"

definition block_ranges :: "season_block \<Rightarrow> layout_range list" where
  "block_ranges b = map fst (concat (map ln_ranges (block_lines b)))"

definition block_ok :: "season_block \<Rightarrow> bool" where
  "block_ok b \<longleftrightarrow> (\<forall>ln \<in> set (block_lines b). line_ok ln) \<and> block_labels b \<and> block_ranges b \<noteq> []"

text \<open>The values of a season for a night from Sunday to Thursday, and for a Friday or Saturday.\<close>

fun block_rates :: "season_block \<Rightarrow> bool \<Rightarrow> int list" where
  "block_rates (TwoRates s ms f ns w) weekend = line_values (if weekend then f else s)"
| "block_rates (OneRate s ms w) weekend = line_values s"

definition block_season :: "int \<Rightarrow> season_block \<Rightarrow> season" where
  "block_season year b =
     \<lparr>Periods = map (period_of year) (block_ranges b), SunThu = block_rates b False, FriSat = block_rates b True\<rparr>"

text \<open>A line the parser has no use for.\<close>

definition noise_line :: "string \<Rightarrow> bool" where
  "noise_line l \<longleftrightarrow> (let upper = ToUpper l in
     \<not> (str_Contains upper ''SUN'' \<and> str_Contains upper ''THU'') \<and>
     \<not> (str_Contains upper ''SUN'' \<and> str_Contains upper ''SAT'' \<and> \<not> str_Contains upper ''THU''
        \<and> \<not> str_Contains upper ''FRI'') \<and>
     \<not> (str_Contains upper ''FRI'' \<and> str_Contains upper ''SAT'') \<and>
     \<not> str_Contains upper ''WEEKLY'' \<and> FindAll dateRangeRE l = [])"

lemma season_line_noise: "noise_line l \<Longrightarrow> season_line year l st = st"
  by (auto simp: noise_line_def season_line_def Let_def parseDateRangesFromLine_def)

lemma fold_noise:
  "fold (season_line year) ls st = fold (season_line year) (filter (\<lambda>l. \<not> noise_line l) ls) st"
  by (induction ls arbitrary: st) (simp_all add: season_line_noise)

lemma fold_rendered:
  "\<forall>ln \<in> set lns. line_ok ln \<Longrightarrow> fold (season_line year) (map render_line lns) st = fold (layout_step year) lns st"
  by (induction lns arbitrary: st) (simp_all add: season_line_step del: layout_step.simps)

lemma fold_dates:
  "\<forall>ln \<in> set lns. ln_label ln = NoRow \<Longrightarrow>
     fold (layout_step year) lns st = add_dates (concat (map (line_periods year) lns)) st"
  by (induction lns arbitrary: st) (simp_all add: add_dates_def Let_def)

lemma flush_reset [simp]: "flush (ss, pending_reset) = (ss, pending_reset)"
  by (simp add: flush_def pending_complete_def pending_reset_def)

lemma block_ranges_periods:
  "map (period_of year) (block_ranges b) = concat (map (line_periods year) (block_lines b))"
  by (simp add: block_ranges_def line_periods_def [abs_def] map_concat comp_def)

lemma fold_block:
  assumes "block_ok b"
  shows "fold (layout_step year) (block_lines b) (ss, pending_reset) = (ss @ [block_season year b], pending_reset)"
proof -
  note defs = add_dates_def set_sunThu_def set_friSat_def flush_def pending_complete_def toSeason_def
    Let_def line_values_def pending_reset_def
  have "concat (map (line_periods year) (block_lines b)) \<noteq> []"
    using assms by (simp only: block_ranges_periods [symmetric] block_ok_def) simp
  then show ?thesis
    using assms block_ranges_periods [of year b]
    by (cases b) (auto simp: block_ok_def block_season_def fold_dates defs)
qed

lemma fold_blocks:
  "\<forall>b \<in> set bs. block_ok b \<Longrightarrow> fold (layout_step year) (concat (map block_lines bs)) (ss, pending_reset) =
     (ss @ map (block_season year) bs, pending_reset)"
  by (induction bs arbitrary: ss) (simp_all add: fold_block)

lemma layout_blocks:
  assumes "\<forall>b \<in> set bs. block_ok b"
    and "filter (\<lambda>l. \<not> noise_line l) ls = map render_line (concat (map block_lines bs))"
  shows "parseSeasons ls year = map (block_season year) bs"
proof -
  have "\<forall>ln \<in> set (concat (map block_lines bs)). line_ok ln" using assms(1) by (auto simp: block_ok_def)
  then have "fold (season_line year) ls ([], pending_reset) = (map (block_season year) bs, pending_reset)"
    using fold_noise [of year ls] fold_rendered [of "concat (map block_lines bs)" year] fold_blocks [OF assms(1), of year "[]"] assms(2)
    by simp
  then show ?thesis by (simp add: parseSeasons_def)
qed

text \<open>C18: The data section of a chart reads back: from a text whose lines, those the parser has no use
  for aside, are the blocks of some seasons with any spacing, the parser recovers exactly these
  seasons, each with all its date ranges in order and the values of both rows.\<close>

theorem layout_roundtrip:
  assumes "\<forall>b \<in> set bs. block_ok b"
    and "filter (\<lambda>l. \<not> noise_line l) ls = map render_line (concat (map block_lines bs))"
  shows "parseSeasons ls year = map (block_season year) bs"
  by (rule layout_blocks [OF assms])


text \<open>A line with a row label or a date range is never noise.\<close>

lemma rendered_not_noise:
  assumes "line_ok ln" and "ln_label ln \<noteq> NoRow \<or> ln_ranges ln \<noteq> []"
  shows "\<not> noise_line (render_line ln)"
proof -
  note c = line_contains [OF _ assms(1)]
  have k: "''SUN'' \<in> set row_keywords" "''THU'' \<in> set row_keywords" "''FRI'' \<in> set row_keywords"
    "''SAT'' \<in> set row_keywords" "''WEEKLY'' \<in> set row_keywords" by (simp_all add: row_keywords_def)
  have "parseDateRangesFromLine (render_line ln) 0 = line_periods 0 ln"
    by (rule parse_line_dates [OF assms(1)])
  then show ?thesis
    using assms(2) label_contains
    by (cases "ln_label ln")
      (auto simp: noise_line_def Let_def c k row_keywords_def parseDateRangesFromLine_def line_periods_def)
qed

definition sample_block :: season_block where
  "sample_block = TwoRates
     \<lparr>ln_indent = 4, ln_ranges = [], ln_label = SunThuRow, ln_cells = [(3, 16), (2, 19)]\<rparr>
     [\<lparr>ln_indent = 0, ln_ranges = [(((''Sept'', 1), (''Sept'', 30)), 1)], ln_label = NoRow, ln_cells = []\<rparr>]
     \<lparr>ln_indent = 0, ln_ranges = [(((''Oct'', 5), (''Nov'', 24)), 6)], ln_label = FriSatRow, ln_cells = [(3, 20), (2, 24)]\<rparr>
     [] \<lparr>ln_indent = 4, ln_ranges = [], ln_label = WeeklyRow, ln_cells = [(3, 120), (2, 143)]\<rparr>"

lemma sample_block_ok: "block_ok sample_block"
  by (simp add: block_ok_def sample_block_def line_ok_def date_ok_def month_abbrevs_def block_ranges_def)

lemma sample_noise: "noise_line ''TRAVEL PERIODS''"
  by (simp add: noise_line_def str_Contains_def HasPrefix_def FindAll_def rx_find_skip rx_find_Nil
      dateRange_none monthRE_def RAny_def month_abbrevs_def RFold_def)

theorem layout_roundtrip_witness:
  "parseSeasons (''TRAVEL PERIODS'' # map render_line (block_lines sample_block)) 2026 =
     [block_season 2026 sample_block]"
proof -
  let ?ls = "''TRAVEL PERIODS'' # map render_line (block_lines sample_block)"
  have "\<forall>ln \<in> set (block_lines sample_block). \<not> noise_line (render_line ln)"
    using sample_block_ok by (intro ballI rendered_not_noise) (auto simp: block_ok_def sample_block_def)
  then have "filter (\<lambda>l. \<not> noise_line l) ?ls = map render_line (block_lines sample_block)"
    using sample_noise by (simp add: filter_id_conv)
  then show ?thesis using layout_roundtrip [of "[sample_block]" ?ls 2026] sample_block_ok by simp
qed

end
