(* ===== verification/ChartPrices.thy ===== *)
theory ChartPrices
  imports ChartLayout
begin

text \<open>
  From the text of a chart to the price of a night: \<open>parseLayoutText\<close> of \<open>internal/dvc/parser.go\<close>
  and \<open>PointsForNight\<close> of \<open>internal/dvc/search.go\<close> together.
\<close>

section \<open>The year of a chart\<close>

primrec no_group :: "rx \<Rightarrow> bool" where
  "no_group REmpty \<longleftrightarrow> True"
| "no_group (RChar P) \<longleftrightarrow> True"
| "no_group (RSeq a b) \<longleftrightarrow> no_group a \<and> no_group b"
| "no_group (RAlt a b) \<longleftrightarrow> no_group a \<and> no_group b"
| "no_group (RStar a) \<longleftrightarrow> no_group a"
| "no_group (RGroup a) \<longleftrightarrow> False"
| "no_group RWordB \<longleftrightarrow> True"
| "no_group RBegin \<longleftrightarrow> True"
| "no_group REnd \<longleftrightarrow> True"

lemma star_groups:
  assumes "\<And>st st'. st' \<in> set (f st) \<Longrightarrow> snd (snd st') = snd (snd st)"
  shows "st' \<in> set (rx_star n f st) \<Longrightarrow> snd (snd st') = snd (snd st)"
proof (induction n arbitrary: st)
  case (Suc n)
  then consider "st' = st" | st1 where "st1 \<in> set (f st)" "st' \<in> set (rx_star n f st1)" by auto
  then show ?case using Suc.IH assms by cases simp_all
qed simp

lemma run_groups: "no_group r \<Longrightarrow> st' \<in> set (rx_run r st) \<Longrightarrow> snd (snd st') = snd (snd st)"
proof (induction r arbitrary: st st')
  case (RSeq a b)
  then obtain st1 where "st1 \<in> set (rx_run a st)" "st' \<in> set (rx_run b st1)" by auto
  then show ?case using RSeq.IH(1) [of st1 st] RSeq.IH(2) [of st' st1] RSeq.prems(1) by simp
next
  case (RStar a)
  have step: "st1' \<in> set (rx_run a st1) \<Longrightarrow> snd (snd st1') = snd (snd st1)" for st1 st1'
    using RStar.IH [of st1' st1] RStar.prems(1) by simp
  show ?case
    using star_groups [of "rx_run a" st' "length (fst (snd st))" st, OF step] RStar.prems(2) by simp
next
  case (RChar P)
  obtain p s gs where "st = (p, s, gs)" by (cases st)
  then show ?case using RChar by (cases s) (auto split: if_splits)
next
  case (RAlt a b)
  then show ?case by (simp add: disj_commute) (elim disjE; simp)
next
  case RWordB
  then show ?case by (cases st) (simp split: if_splits)
qed (simp_all split: if_splits)

lemma run_seq: "st' \<in> set (rx_run (RSeq a b) st) \<longleftrightarrow> (\<exists>st1 \<in> set (rx_run a st). st' \<in> set (rx_run b st1))"
  by simp

definition year_head :: rx where
  "year_head = RGroup (RRepeat 4 0 (RChar is_digit))"

definition year_tail :: rx where
  "year_tail = RSeq (RPlus (RChar rx_space)) (RText ''VACATION POINTS PER NIGHT'')"

lemma yearRE_parts: "yearRE = RSeq year_head year_tail"
  by (simp add: yearRE_def year_head_def year_tail_def)

lemma found_run:
  "m \<in> set (rx_find r x p s) \<Longrightarrow> \<exists>q t p' s'. (p', s', m_groups m) \<in> set (rx_run r (q, t, []))"
proof (induction "length s" arbitrary: x p s rule: less_induct)
  case less
  show ?case
  proof (cases rule: rx_find_cases [of s r x p])
    case stop
    then show ?thesis using less.prems by simp
  next
    case (skip c t)
    then show ?thesis using less.prems less.hyps [of t "x + 1" "Some c"] by simp
  next
    case (match p' s' gs ms)
    then show ?thesis
      using less.prems less.hyps [of s' "x + (length s - length s')" p'] by (auto; metis list.set_intros(1))
  qed
qed

lemma four_digits_group:
  assumes "st' \<in> set (rx_run year_head (q, t, []))"
  shows "\<exists>g. snd (snd st') = [g] \<and> length g = 4 \<and> list_all is_digit g"
  using assms
  by (auto simp: year_head_def RRepeat_def numeral_eq_Suc split: list.splits if_splits prod.splits)

lemma year_group:
  assumes "FindFirst yearRE l = Some m"
  shows "length (m_groups m ! 0) = 4 \<and> list_all is_digit (m_groups m ! 0)"
proof -
  have "m \<in> set (rx_find yearRE 0 None l)"
    using assms by (auto simp: FindFirst_def FindAll_def split: list.splits)
  then obtain q t p' s' where "(p', s', m_groups m) \<in> set (rx_run yearRE (q, t, []))"
    using found_run by blast
  then obtain st where st: "st \<in> set (rx_run year_head (q, t, []))"
      and rest: "(p', s', m_groups m) \<in> set (rx_run year_tail st)"
    unfolding yearRE_parts run_seq by blast
  have "no_group year_tail" by (simp add: year_tail_def RPlus_def RText_def)
  from run_groups [OF this rest] have "m_groups m = snd (snd st)" by simp
  then show ?thesis using four_digits_group [OF st] by auto
qed

lemma mustAtoi_four: "length g = 4 \<Longrightarrow> list_all is_digit g \<Longrightarrow> 0 \<le> mustAtoi g \<and> mustAtoi g \<le> 9999"
  using ParseInt_digits [of g] dec_val_less [of g]
  by (cases g) (auto simp: mustAtoi_def Atoi_def in64_def)

lemma chart_year_bounds: "0 \<le> chart_year ls \<and> chart_year ls \<le> 9999"
proof (cases "filter (\<lambda>m. m \<noteq> None) (map (FindFirst yearRE) ls)")
  case Nil
  then show ?thesis by (simp add: chart_year_def)
next
  case (Cons a xs)
  then have "a \<in> set (filter (\<lambda>m. m \<noteq> None) (map (FindFirst yearRE) ls))" by simp
  then obtain l m where "a = Some m" "FindFirst yearRE l = Some m" by auto
  then show ?thesis using Cons year_group [of l m] mustAtoi_four by (simp add: chart_year_def)
qed

section \<open>The price of a night\<close>

text \<open>A date of the calendar, and a range of a layout that has the date \<open>d\<close>.\<close>

definition date_real :: "int \<Rightarrow> layout_date \<Rightarrow> bool" where
  "date_real year md \<longleftrightarrow> valid_civil year (month_number (fst md)) (int (snd md))"

definition range_covers :: "int \<Rightarrow> date \<Rightarrow> layout_range \<Rightarrow> bool" where
  "range_covers year d r \<longleftrightarrow> layout_day year (fst r) \<le> d \<and> d \<le> layout_day year (snd r)"

definition block_real :: "int \<Rightarrow> season_block \<Rightarrow> bool" where
  "block_real year b \<longleftrightarrow> block_ok b \<and> (\<forall>r \<in> set (block_ranges b). date_real year (fst r) \<and> date_real year (snd r))"

definition block_covers :: "int \<Rightarrow> date \<Rightarrow> season_block \<Rightarrow> bool" where
  "block_covers year d b \<longleftrightarrow> list_ex (range_covers year d) (block_ranges b)"

lemma layout_day_text:
  assumes "date_real year md" and "0 \<le> year" and "year \<le> 9999"
  shows "parse_iso (format_date (layout_day year md)) = Some (layout_day year md)"
proof -
  have v: "valid_civil year (month_number (fst md)) (int (snd md))" using assms(1) by (simp add: date_real_def)
  then have "layout_day year md = days_from_civil year (month_number (fst md)) (int (snd md))"
    by (simp add: layout_day_def valid_civil_def go_Date_in_range)
  then have "date_Year (layout_day year md) = year" using date_parts(1) [OF v] by simp
  then show ?thesis using assms by (intro parse_format_date) simp_all
qed

lemma Contains_period:
  assumes "date_real year (fst r)" and "date_real year (snd r)" and "0 \<le> year" and "year \<le> 9999"
  shows "Contains (period_of year r) d = Inr (range_covers year d r)"
  using assms layout_day_text
  by (auto simp: Contains_def period_of_def range_covers_def not_less)

lemma season_covers_block:
  assumes "\<forall>r \<in> set rs. date_real year (fst r) \<and> date_real year (snd r)" and "0 \<le> year" and "year \<le> 9999"
  shows "season_covers (map (period_of year) rs) d = Inr (list_ex (range_covers year d) rs)"
  using assms(1)
proof (induction rs)
  case (Cons r rs)
  then show ?case by (simp add: Contains_period [OF _ _ assms(2,3)])
qed simp

lemma points_in_blocks:
  assumes "\<forall>b \<in> set bs. block_real year b" and "0 \<le> year" and "year \<le> 9999"
    and "bs = before @ b # after" and "\<forall>b' \<in> set before. \<not> block_covers year d b'" and "block_covers year d b"
    and "colIdx < length (block_rates b (isWeekend d))"
  shows "points_in (map (block_season year) bs) d colIdx = Some (Inr (block_rates b (isWeekend d) ! colIdx))"
proof -
  have covers: "season_covers (Periods (block_season year b')) d = Inr (block_covers year d b')" if "block_real year b'" for b'
    using that season_covers_block [OF _ assms(2,3), of "block_ranges b'" d]
    by (simp add: block_season_def block_real_def block_covers_def)
  have skip: "points_in (map (block_season year) before @ ss) d colIdx = points_in ss d colIdx" for ss
    using assms(1,4,5) by (induction before arbitrary: bs) (simp_all add: covers)
  show ?thesis
    using assms covers [of b]
    by (cases "isWeekend d") (simp_all add: skip block_season_def index_panic_def)
qed

text \<open>C17: From the text of a chart to the price of a night: in the chart parsed from a text whose data
  section is made of the blocks of some seasons, in whatever spacing, a night costs in each column
  what the first block with a date range around it says there, in its FRI--SAT row for a Friday or a
  Saturday and in its SUN--THU row for any other night.\<close>

theorem layout_prices:
  assumes "parseLayoutText text code = Inr chart" and "split_index (str_Lines text) = Some i"
    and "filter (\<lambda>l. \<not> noise_line l) (drop i (str_Lines text)) = map render_line (concat (map block_lines bs))"
    and "\<forall>b \<in> set bs. block_real (ChartYear chart) b"
    and "bs = before @ b # after" and "\<forall>b' \<in> set before. \<not> block_covers (ChartYear chart) d b'"
    and "block_covers (ChartYear chart) d b" and "colIdx < length (block_rates b (isWeekend d))"
  shows "PointsForNight chart d colIdx = Some (Inr (block_rates b (isWeekend d) ! colIdx))"
proof -
  have year: "0 \<le> ChartYear chart" "ChartYear chart \<le> 9999"
    and ss: "Seasons chart = parseSeasons (drop i (str_Lines text)) (ChartYear chart)"
    using assms(1,2) chart_year_bounds [of "str_Lines text"]
    by (auto simp: parseLayoutText_def Let_def and_then_def split: if_splits list.splits sum.splits)
  have "\<forall>b \<in> set bs. block_ok b" using assms(4) by (simp add: block_real_def)
  from layout_blocks [OF this assms(3)] have "Seasons chart = map (block_season (ChartYear chart)) bs"
    by (simp add: ss)
  then show ?thesis
    using points_in_blocks [OF assms(4) year assms(5-8)] by (simp add: PointsForNight_def)
qed


definition sample_lines :: "string list" where
  "sample_lines = [''2026 VACATION POINTS PER NIGHT'', ''NIGHTS         CABIN  DUO STUDIO''] @ map render_line (block_lines sample_block)"

definition join_lines :: "string list \<Rightarrow> string" where
  "join_lines ls = concat (map (\<lambda>l. l @ [CHR 0x0A]) (butlast ls)) @ last ls"

lemma sample_lines_split: "str_Lines (join_lines sample_lines) = sample_lines"
  by code_simp

lemma sample_chart_year: "chart_year sample_lines = 2026"
  by code_simp

lemma sample_split: "split_index sample_lines = Some 2"
  by code_simp

lemma sample_columns: "parseColumns (take 2 sample_lines) (sample_lines ! 2) = Inr
    [\<lparr>RoomType = ''CABIN'', View = [], Sleeps = 6\<rparr>, \<lparr>RoomType = ''DUO STUDIO'', View = [], Sleeps = 2\<rparr>]"
  by code_simp

lemma sample_rows: "is_data_row (sample_lines ! 2)"
  by code_simp

lemma sample_block_real: "block_real 2026 sample_block"
  unfolding block_real_def using sample_block_ok
  by (simp add: sample_block_def block_ranges_def date_real_def valid_civil_def days_in_def month_number_def month_abbrevs_def)

lemma sample_data: "filter (\<lambda>l. \<not> noise_line l) (drop 2 (str_Lines (join_lines sample_lines))) =
    map render_line (concat (map block_lines [sample_block]))"
proof -
  have "\<forall>ln \<in> set (block_lines sample_block). \<not> noise_line (render_line ln)"
    using sample_block_ok by (intro ballI rendered_not_noise) (auto simp: block_ok_def sample_block_def)
  moreover have "drop 2 sample_lines = map render_line (block_lines sample_block)" by (simp add: sample_lines_def)
  ultimately show ?thesis by (simp add: sample_lines_split filter_id_conv)
qed

definition sample_layout_chart :: resort_chart where
  "sample_layout_chart = \<lparr>ResortName = ''2026 VACATION POINTS PER NIGHT'', ResortCode = ''VGF'', ChartYear = 2026,
     Columns = [\<lparr>RoomType = ''CABIN'', View = [], Sleeps = 6\<rparr>, \<lparr>RoomType = ''DUO STUDIO'', View = [], Sleeps = 2\<rparr>],
     Seasons = [block_season 2026 sample_block]\<rparr>"

lemma sample_layout: "parseLayoutText (join_lines sample_lines) ''VGF'' = Inr sample_layout_chart"
proof -
  have first: "drop 2 sample_lines = sample_lines ! 2 # drop 3 sample_lines"
    by (simp add: sample_lines_def sample_block_def)
  have name: "resort_name sample_lines = ''2026 VACATION POINTS PER NIGHT''" by code_simp
  have "parseSeasons (drop 2 sample_lines) 2026 = [block_season 2026 sample_block]"
    using layout_blocks [OF _ sample_data, of 2026] sample_block_ok by (simp add: sample_lines_split)
  then show ?thesis
    using first sample_rows
    by (simp add: parseLayoutText_def sample_lines_split sample_chart_year sample_split sample_columns name
        sample_layout_chart_def)
qed

text \<open>Friday, September 4th, 2026.\<close>

lemma sample_night: "block_covers 2026 20700 sample_block" "isWeekend 20700"
  by code_simp+

theorem layout_prices_witness:
  "parseLayoutText (join_lines sample_lines) ''VGF'' = Inr sample_layout_chart \<and>
    PointsForNight sample_layout_chart 20700 0 = Some (Inr 20)"
proof -
  have "ChartYear sample_layout_chart = 2026" by (simp add: sample_layout_chart_def)
  then have "PointsForNight sample_layout_chart 20700 0 = Some (Inr (block_rates sample_block True ! 0))"
    using layout_prices [OF sample_layout _ sample_data, of "[]" sample_block "[]" 20700 0] sample_night sample_block_real
    by (simp add: sample_lines_split sample_split) (simp add: sample_block_def line_values_def)
  then show ?thesis using sample_layout by (simp add: sample_block_def line_values_def)
qed

section \<open>A row that is too short\<close>

definition short_block :: season_block where
  "short_block = TwoRates
     \<lparr>ln_indent = 4, ln_ranges = [], ln_label = SunThuRow, ln_cells = [(3, 16), (2, 19)]\<rparr>
     [\<lparr>ln_indent = 0, ln_ranges = [(((''Sept'', 1), (''Sept'', 30)), 1)], ln_label = NoRow, ln_cells = []\<rparr>]
     \<lparr>ln_indent = 4, ln_ranges = [], ln_label = FriSatRow, ln_cells = [(3, 20)]\<rparr>
     [] \<lparr>ln_indent = 4, ln_ranges = [], ln_label = WeeklyRow, ln_cells = [(3, 120), (2, 143)]\<rparr>"

text \<open>The parser accepts a data section whose FRI-SAT row has fewer values than the chart has columns; the
  price of a Friday in the last column is then an index out of range.\<close>

lemma layout_short_row:
  "Seasons chart = parseSeasons (map render_line (block_lines short_block)) 2026 \<Longrightarrow> PointsForNight chart 20700 1 = None"
proof -
  have "block_ok short_block"
    by (simp add: block_ok_def short_block_def line_ok_def date_ok_def month_abbrevs_def block_ranges_def)
  moreover from this have "\<forall>ln \<in> set (block_lines short_block). \<not> noise_line (render_line ln)"
    by (intro ballI rendered_not_noise) (auto simp: block_ok_def short_block_def)
  ultimately have "parseSeasons (map render_line (block_lines short_block)) 2026 = [block_season 2026 short_block]"
    using layout_blocks [of "[short_block]" "map render_line (block_lines short_block)" 2026]
    by (simp add: filter_id_conv)
  moreover have "points_in [block_season 2026 short_block] 20700 1 = None" by code_simp
  ultimately show "Seasons chart = parseSeasons (map render_line (block_lines short_block)) 2026 \<Longrightarrow> ?thesis"
    by (simp add: PointsForNight_def)
qed

end
