(* ===== verification/LedgerMigrate.thy ===== *)
theory LedgerMigrate
  imports Database
begin

text \<open>
  \<open>cmd/ledger-migrate/migrate.go\<close>: the one-shot copy of the legacy SQLite ledger into the hosted database.
  The legacy file is its two tables; as everywhere, a date column is the day number its text stands
  for.  An INSERT that overrides the identity column keeps the row's id, and fails when the id is
  taken, the contract is missing or a number does not fit its INTEGER column.  The transaction is
  all-or-nothing: an error leaves the target as it was.  Opening the two databases is not modelled.
\<close>

section \<open>The legacy ledger\<close>

record sqlite_contract =
  sc_ID :: int
  sc_Name :: string
  sc_Number :: string
  sc_HomeResort :: string
  sc_AnnualPoints :: int
  sc_UseYearMonth :: int

record sqlite_entry =
  se_ID :: int
  se_UseYear :: int
  se_Date :: date
  se_Description :: string
  se_Kind :: string
  se_Allotted :: int
  se_Used :: int
  se_Tag :: string
  se_ContractID :: "int option"

record sqlite_db =
  sq_contracts :: "sqlite_contract list"
  sq_entries :: "sqlite_entry list"

definition readSQLiteContracts :: "sqlite_db \<Rightarrow> sqlite_contract list" where
  "readSQLiteContracts sdb = sort_key sc_ID (sq_contracts sdb)"

definition readSQLiteEntries :: "sqlite_db \<Rightarrow> sqlite_entry list" where
  "readSQLiteEntries sdb = sort_key se_ID (sq_entries sdb)"

section \<open>The copy\<close>

record migrate_summary =
  ms_Contracts :: nat
  ms_Entries :: nat

definition ensureTargetEmpty :: "db \<Rightarrow> unit result" where
  "ensureTargetEmpty d =
     (if length (contracts d) > 0 \<or> length (entries d) > 0 then Inl (ErrInput ''refusing to migrate'') else Inr ())"

text \<open>The columns an INSERT does not name take their defaults.\<close>

definition copied_contract :: "sqlite_contract \<Rightarrow> contract" where
  "copied_contract c = \<lparr>c_ID = sc_ID c, c_Name = sc_Name c, c_Number = sc_Number c, c_HomeResort = sc_HomeResort c,
     c_AnnualPoints = sc_AnnualPoints c, c_UseYearMonth = sc_UseYearMonth c, c_TermYears = 0,
     c_PurchasePrice = 0, c_ClosingCosts = 0\<rparr>"

definition copied_entry :: "sqlite_entry \<Rightarrow> entry_row" where
  "copied_entry e = \<lparr>e_ID = se_ID e, e_UseYear = se_UseYear e, e_Date = se_Date e, e_Desc = se_Description e,
     e_Kind = se_Kind e, e_Allotted = se_Allotted e, e_Used = se_Used e, e_Tag = se_Tag e,
     e_ContractID = se_ContractID e\<rparr>"

definition insert_contract_row :: "contract \<Rightarrow> db \<Rightarrow> db result" where
  "insert_contract_row c d =
     (if has_row c_ID (c_ID c) (contracts d) \<or> \<not> contract_width c then Inl ErrConstraint
      else Inr (d\<lparr>contracts := contracts d @ [c]\<rparr>))"

definition insert_entry_row :: "entry_row \<Rightarrow> db \<Rightarrow> db result" where
  "insert_entry_row e d =
     (if has_row e_ID (e_ID e) (entries d) \<or> \<not> entry_width e \<or> \<not> contract_fk (contracts d) (e_ContractID e)
      then Inl ErrConstraint
      else Inr (d\<lparr>entries := entries d @ [e]\<rparr>))"

fun insert_all :: "('r \<Rightarrow> db \<Rightarrow> db result) \<Rightarrow> 'r list \<Rightarrow> db \<Rightarrow> db result" where
  "insert_all ins [] d = Inr d"
| "insert_all ins (r # rs) d = and_then (ins r d) (insert_all ins rs)"

text \<open>\<open>setval(seq, COALESCE(max(id), 1), max(id) IS NOT NULL)\<close>: the last id issued is the largest one, or
  none in an empty table; a sequence does not take a value below 1.\<close>

definition resetIdentitySequence :: "int list \<Rightarrow> int result" where
  "resetIdentitySequence ids =
     (if ids = [] then Inr 0 else if Max (set ids) < 1 then Inl ErrConstraint else Inr (Max (set ids)))"

definition copyAll :: "sqlite_contract list \<Rightarrow> sqlite_entry list \<Rightarrow> db \<Rightarrow> db result" where
  "copyAll cs es d =
     and_then (insert_all insert_contract_row (map copied_contract cs) d) (\<lambda>d1.
     and_then (insert_all insert_entry_row (map copied_entry es) d1) (\<lambda>d2.
     and_then (resetIdentitySequence (map c_ID (contracts d2))) (\<lambda>cseq.
     and_then (resetIdentitySequence (map e_ID (entries d2))) (\<lambda>eseq.
       Inr (d2\<lparr>contract_seq := cseq, entry_seq := eseq\<rparr>)))))"

definition Migrate :: "sqlite_db \<Rightarrow> db \<Rightarrow> (migrate_summary \<times> db) result" where
  "Migrate sdb d =
     (let cs = readSQLiteContracts sdb; es = readSQLiteEntries sdb in
      and_then (ensureTargetEmpty d) (\<lambda>_.
      and_then (copyAll cs es d) (\<lambda>d'.
        Inr (\<lparr>ms_Contracts = length cs, ms_Entries = length es\<rparr>, d'))))"

section \<open>What the copy does\<close>

text \<open>A legacy ledger the target can hold: ids are unique and positive, numbers fit, contracts exist.\<close>

definition legacy_ok :: "sqlite_db \<Rightarrow> bool" where
  "legacy_ok sdb \<longleftrightarrow>
     distinct (map sc_ID (sq_contracts sdb)) \<and> (\<forall>c \<in> set (sq_contracts sdb). 0 < sc_ID c \<and>
        in32 (sc_AnnualPoints c) \<and> in32 (sc_UseYearMonth c)) \<and>
     distinct (map se_ID (sq_entries sdb)) \<and> (\<forall>e \<in> set (sq_entries sdb). 0 < se_ID e \<and>
        in32 (se_UseYear e) \<and> in32 (se_Allotted e) \<and> in32 (se_Used e) \<and>
        (\<forall>c \<in> set_option (se_ContractID e). c \<in> sc_ID ` set (sq_contracts sdb)))"

lemma insert_contracts:
  assumes "distinct (map c_ID (contracts d @ cs))" and "\<forall>c \<in> set cs. contract_width c"
  shows "insert_all insert_contract_row cs d = Inr (d\<lparr>contracts := contracts d @ cs\<rparr>)"
  using assms
  by (induction cs arbitrary: d) (auto simp: insert_contract_row_def has_row_iff)

lemma insert_entries:
  assumes "distinct (map e_ID (entries d @ es))"
    and "\<forall>e \<in> set es. entry_width e \<and> contract_fk (contracts d) (e_ContractID e)"
  shows "insert_all insert_entry_row es d = Inr (d\<lparr>entries := entries d @ es\<rparr>)"
  using assms
  by (induction es arbitrary: d) (auto simp: insert_entry_row_def has_row_iff)

definition last_id :: "int list \<Rightarrow> int" where
  "last_id ids = (if ids = [] then 0 else Max (set ids))"

lemma reset_positive: "\<forall>i \<in> set ids. 0 < i \<Longrightarrow> resetIdentitySequence ids = Inr (last_id ids)"
proof -
  assume p: "\<forall>i \<in> set ids. 0 < i"
  have "0 < Max (set ids)" if "ids \<noteq> []" using p that Max_in [of "set ids"] by simp
  then have "ids = [] \<or> \<not> Max (set ids) < 1" by linarith
  then show ?thesis by (auto simp: resetIdentitySequence_def last_id_def simp del: Max_less_iff)
qed

definition migrated :: "sqlite_db \<Rightarrow> db \<Rightarrow> db" where
  "migrated sdb d = d\<lparr>
     contracts := map copied_contract (readSQLiteContracts sdb),
     entries := map copied_entry (readSQLiteEntries sdb),
     contract_seq := last_id (map sc_ID (readSQLiteContracts sdb)),
     entry_seq := last_id (map se_ID (readSQLiteEntries sdb))\<rparr>"

lemma copied_ids [simp]: "map c_ID (map copied_contract cs) = map sc_ID cs" "map e_ID (map copied_entry es) = map se_ID es"
  by (simp_all add: copied_contract_def copied_entry_def comp_def)

lemma distinct_sorted: "distinct (map f xs) \<Longrightarrow> distinct (map f (sort_key f xs))"
  by (simp add: distinct_map)

lemma Migrate_ok:
  assumes "legacy_ok sdb" and "contracts d = []" and "entries d = []"
  shows "Migrate sdb d = Inr (\<lparr>ms_Contracts = length (sq_contracts sdb), ms_Entries = length (sq_entries sdb)\<rparr>, migrated sdb d)"
proof -
  let ?cs = "map copied_contract (readSQLiteContracts sdb)" and ?es = "map copied_entry (readSQLiteEntries sdb)"
  have dc: "distinct (map c_ID ?cs)" and de: "distinct (map e_ID ?es)"
    unfolding copied_ids readSQLiteContracts_def readSQLiteEntries_def
    using assms(1) by (auto simp: legacy_ok_def intro!: distinct_sorted)
  have cs: "insert_all insert_contract_row ?cs d = Inr (d\<lparr>contracts := ?cs\<rparr>)"
    using insert_contracts [of d ?cs] dc assms
    by (simp add: legacy_ok_def readSQLiteContracts_def copied_contract_def contract_width_def in32_def)
  have fk: "contract_fk ?cs (e_ContractID e)" if "e \<in> set ?es" for e
    using that assms(1)
    by (auto simp: legacy_ok_def readSQLiteContracts_def readSQLiteEntries_def copied_contract_def copied_entry_def
        contract_fk_def has_row_iff image_iff split: option.splits)
  have es: "insert_all insert_entry_row ?es (d\<lparr>contracts := ?cs\<rparr>) = Inr (d\<lparr>contracts := ?cs, entries := ?es\<rparr>)"
    using insert_entries [of "d\<lparr>contracts := ?cs\<rparr>" ?es] de fk assms
    by (auto simp: legacy_ok_def readSQLiteEntries_def copied_entry_def entry_width_def)
  have "\<forall>i \<in> set (map sc_ID (readSQLiteContracts sdb)). 0 < i" "\<forall>i \<in> set (map se_ID (readSQLiteEntries sdb)). 0 < i"
    using assms(1) by (auto simp: legacy_ok_def readSQLiteContracts_def readSQLiteEntries_def)
  then show ?thesis
    using assms(2,3) cs es reset_positive copied_ids
    by (simp add: Migrate_def copyAll_def ensureTargetEmpty_def Let_def migrated_def del: list.map_comp map_map)
       (simp add: readSQLiteContracts_def readSQLiteEntries_def)
qed

lemma last_id_bound: "i \<in> set ids \<Longrightarrow> i \<le> last_id ids"
  by (auto simp: last_id_def)

lemma strict_sorted_keys: "distinct (map f xs) \<Longrightarrow> sorted_wrt (<) (map f (sort_key f xs))"
  using distinct_sorted [of f xs] by (simp add: strict_sorted_iff)

lemma table_ok_copied:
  assumes "sorted_wrt (<) (map f rs)" and "\<forall>r \<in> set rs. 0 < f r" and "map key rows = map f rs"
  shows "table_ok key (last_id (map f rs)) rows"
proof -
  have "\<forall>i \<in> set (map key rows). 0 < i \<and> i \<le> last_id (map f rs)"
    unfolding assms(3) using assms(2) last_id_bound by auto
  then have "\<forall>r \<in> set rows. 0 < key r \<and> key r \<le> last_id (map f rs)" by simp
  moreover have "0 \<le> last_id (map f rs)"
  proof (cases rs)
    case (Cons r rs')
    then have "f r \<le> last_id (map f rs)" by (intro last_id_bound) simp
    moreover have "0 < f r" using assms(2) Cons by simp
    ultimately show ?thesis by simp
  qed (simp add: last_id_def)
  ultimately show ?thesis using assms(1,3) by (simp add: table_ok_def)
qed

lemma migrated_ok:
  assumes "legacy_ok sdb" and "contracts d = []" and "entries d = []" and "db_ok d"
  shows "db_ok (migrated sdb d)"
proof -
  have links: "links d = []" and stays: "\<forall>st \<in> set (stays d). has_row t_ID (st_TripID st) (trips d)"
    using assms(3,4) by (auto simp: db_ok_defs has_row_iff neq_Nil_conv)
  have tc: "table_ok c_ID (last_id (map sc_ID (readSQLiteContracts sdb))) (map copied_contract (readSQLiteContracts sdb))"
    using assms(1) by (intro table_ok_copied) (auto simp: legacy_ok_def readSQLiteContracts_def copied_contract_def intro!: strict_sorted_keys)
  have te: "table_ok e_ID (last_id (map se_ID (readSQLiteEntries sdb))) (map copied_entry (readSQLiteEntries sdb))"
    using assms(1) by (intro table_ok_copied) (auto simp: legacy_ok_def readSQLiteEntries_def copied_entry_def intro!: strict_sorted_keys)
  have "\<forall>e \<in> set (map copied_entry (readSQLiteEntries sdb)). entry_width e \<and>
      contract_fk (map copied_contract (readSQLiteContracts sdb)) (e_ContractID e)"
    using assms(1)
    by (auto simp: legacy_ok_def readSQLiteContracts_def readSQLiteEntries_def copied_contract_def copied_entry_def
        entry_width_def contract_fk_def has_row_iff image_iff split: option.splits)
  moreover have "\<forall>c \<in> set (map copied_contract (readSQLiteContracts sdb)). contract_width c"
    using assms(1) by (auto simp: legacy_ok_def readSQLiteContracts_def copied_contract_def contract_width_def in32_def)
  ultimately show ?thesis
    using assms(4) links tc te by (simp add: db_ok_defs migrated_def)
qed


definition legacy_sample :: sqlite_db where
  "legacy_sample = \<lparr>sq_contracts = [\<lparr>sc_ID = 7, sc_Name = ''VGF'', sc_Number = ''1'', sc_HomeResort = ''VGF'',
       sc_AnnualPoints = 160, sc_UseYearMonth = 4\<rparr>],
     sq_entries = [\<lparr>se_ID = 12, se_UseYear = 2025, se_Date = 20180, se_Description = ''2025 points'',
       se_Kind = ''allocation'', se_Allotted = 160, se_Used = 0, se_Tag = [], se_ContractID = Some 7\<rparr>]\<rparr>"


end
