(* ===== verification/Json.thy ===== *)
theory Json
  imports Strconv
begin

text \<open>
  What the code uses of \<open>encoding/json\<close>: the text of a value, as \<open>Marshal\<close> and \<open>MarshalIndent\<close> write it,
  and the parser of such a text.  A string is its bytes: runes of valid UTF-8 are kept, other bytes become
  the replacement rune, in both directions.  A number is kept as its literal.
\<close>

section \<open>Runes\<close>

abbreviation ord :: "char \<Rightarrow> nat" where "ord c \<equiv> of_char c"
abbreviation quote :: char where "quote \<equiv> CHR 0x22"
abbreviation backslash :: char where "backslash \<equiv> CHR 0x5C"

definition byte_in :: "string \<Rightarrow> nat \<Rightarrow> nat \<Rightarrow> nat \<Rightarrow> bool" where
  "byte_in s i lo hi \<longleftrightarrow> i < length s \<and> lo \<le> ord (s ! i) \<and> ord (s ! i) \<le> hi"

abbreviation cont :: "string \<Rightarrow> nat \<Rightarrow> bool" where "cont s i \<equiv> byte_in s i 0x80 0xBF"

definition rune2 :: "string \<Rightarrow> bool" where
  "rune2 s \<longleftrightarrow> byte_in s 0 0xC2 0xDF \<and> cont s 1"

definition rune3 :: "string \<Rightarrow> bool" where
  "rune3 s \<longleftrightarrow> (byte_in s 0 0xE0 0xE0 \<and> byte_in s 1 0xA0 0xBF \<or> byte_in s 0 0xE1 0xEC \<and> cont s 1
     \<or> byte_in s 0 0xED 0xED \<and> byte_in s 1 0x80 0x9F \<or> byte_in s 0 0xEE 0xEF \<and> cont s 1) \<and> cont s 2"

definition rune4 :: "string \<Rightarrow> bool" where
  "rune4 s \<longleftrightarrow> (byte_in s 0 0xF0 0xF0 \<and> byte_in s 1 0x90 0xBF \<or> byte_in s 0 0xF1 0xF3 \<and> cont s 1
     \<or> byte_in s 0 0xF4 0xF4 \<and> byte_in s 1 0x80 0x8F) \<and> cont s 2 \<and> cont s 3"

text \<open>The number of bytes of the first rune, 0 if it is not well-formed UTF-8.\<close>

definition rune_len :: "string \<Rightarrow> nat" where
  "rune_len s =
     (if byte_in s 0 0 127 then 1 else if rune2 s then 2 else if rune3 s then 3 else if rune4 s then 4 else 0)"

definition replacement :: string where
  "replacement = [CHR 0xEF, CHR 0xBF, CHR 0xBD]"

definition next_rune :: "string \<Rightarrow> string \<times> string" where
  "next_rune s = (if rune_len s = 0 then (replacement, tl s) else (take (rune_len s) s, drop (rune_len s) s))"

definition utf8_of :: "nat \<Rightarrow> string" where
  "utf8_of r =
     (if r < 0x80 then [char_of r]
      else if r < 0x800 then [char_of (0xC0 + r div 64), char_of (0x80 + r mod 64)]
      else if 0xD800 \<le> r \<and> r < 0xE000 \<or> r > 0x10FFFF then replacement
      else if r < 0x10000 then [char_of (0xE0 + r div 4096), char_of (0x80 + r div 64 mod 64), char_of (0x80 + r mod 64)]
      else [char_of (0xF0 + r div 262144), char_of (0x80 + r div 4096 mod 64), char_of (0x80 + r div 64 mod 64),
        char_of (0x80 + r mod 64)])"

lemma byte_in_less: "byte_in s i lo hi \<Longrightarrow> i < length s"
  by (simp add: byte_in_def)

lemma rune_lengths: "rune2 s \<Longrightarrow> 2 \<le> length s" "rune3 s \<Longrightarrow> 3 \<le> length s" "rune4 s \<Longrightarrow> 4 \<le> length s"
proof -
  show "rune2 s \<Longrightarrow> 2 \<le> length s" using byte_in_less [of s 1 "0x80" "0xBF"] by (simp add: rune2_def)
  show "rune3 s \<Longrightarrow> 3 \<le> length s" using byte_in_less [of s 2 "0x80" "0xBF"] by (simp add: rune3_def)
  show "rune4 s \<Longrightarrow> 4 \<le> length s" using byte_in_less [of s 3 "0x80" "0xBF"] by (simp add: rune4_def)
qed

lemma rune_len_length: "rune_len s \<le> length s"
  using rune_lengths [of s] byte_in_less [of s 0 0 127] by (simp add: rune_len_def Suc_le_eq)

lemma next_rune_shorter: "s \<noteq> [] \<Longrightarrow> length (snd (next_rune s)) < length s"
  using rune_len_length [of s] by (cases s) (auto simp: next_rune_def)

section \<open>Strings\<close>

definition hex_char :: "nat \<Rightarrow> char" where
  "hex_char n = ''0123456789abcdef'' ! n"

definition hex_val :: "char \<Rightarrow> nat option" where
  "hex_val c = (let n = ord c in
     if 48 \<le> n \<and> n \<le> 57 then Some (n - 48) else if 97 \<le> n \<and> n \<le> 102 then Some (n - 87)
     else if 65 \<le> n \<and> n \<le> 70 then Some (n - 55) else None)"

definition enc_byte :: "char \<Rightarrow> string" where
  "enc_byte c =
     (if c = backslash \<or> c = quote then [backslash, c]
      else if c = CHR 0x08 then (backslash # ''b'') else if c = CHR 0x0C then (backslash # ''f'') else if c = CHR 0x0A then (backslash # ''n'')
      else if c = CHR 0x0D then (backslash # ''r'') else if c = CHR 0x09 then (backslash # ''t'')
      else if ord c < 32 \<or> c \<in> {CHR ''<'', CHR ''>'', CHR ''&''}
        then (backslash # ''u00'') @ [hex_char (ord c div 16), hex_char (ord c mod 16)]
      else [c])"

definition enc_rune :: "string \<Rightarrow> string" where
  "enc_rune r =
     (if length r = 1 then enc_byte (hd r)
      else if r = [CHR 0xE2, CHR 0x80, CHR 0xA8] then (backslash # ''u2028'')
      else if r = [CHR 0xE2, CHR 0x80, CHR 0xA9] then (backslash # ''u2029'')
      else r)"

function enc_chars :: "string \<Rightarrow> string" where
  "enc_chars s =
     (if s = [] then []
      else if rune_len s = 0 then (backslash # ''ufffd'') @ enc_chars (tl s)
      else enc_rune (take (rune_len s) s) @ enc_chars (drop (rune_len s) s))"
  by pat_completeness auto
termination by (relation "measure length") auto

declare enc_chars.simps [simp del]

definition enc_string :: "string \<Rightarrow> string" where
  "enc_string s = quote # enc_chars s @ [quote]"

text \<open>Four hexadecimal digits.\<close>

fun getu4 :: "string \<Rightarrow> (nat \<times> string) option" where
  "getu4 (a # b # c # d # s) =
     (case (hex_val a, hex_val b, hex_val c, hex_val d) of
        (Some w, Some x, Some y, Some z) \<Rightarrow> Some (((w * 16 + x) * 16 + y) * 16 + z, s)
      | _ \<Rightarrow> None)"
| "getu4 _ = None"

text \<open>What follows a backslash.  A surrogate stands for a rune only as the first half of a pair.\<close>

definition dec_unicode :: "string \<Rightarrow> (string \<times> string) option" where
  "dec_unicode s = (case getu4 s of None \<Rightarrow> None
    | Some (r, u) \<Rightarrow>
        if 0xD800 \<le> r \<and> r < 0xE000 then
          (case u of x # y # v \<Rightarrow>
             (if x = backslash \<and> y = CHR ''u'' then
                (case getu4 v of None \<Rightarrow> None
                 | Some (r', v') \<Rightarrow>
                     if r < 0xDC00 \<and> 0xDC00 \<le> r' \<and> r' < 0xE000
                     then Some (utf8_of (0x10000 + (r - 0xD800) * 1024 + (r' - 0xDC00)), v')
                     else Some (replacement, u))
              else Some (replacement, u))
           | _ \<Rightarrow> Some (replacement, u))
        else Some (utf8_of r, u))"

definition dec_escape :: "string \<Rightarrow> (string \<times> string) option" where
  "dec_escape s = (case s of [] \<Rightarrow> None
    | c # t \<Rightarrow>
        if c \<in> {quote, backslash, CHR ''/''} then Some ([c], t)
        else if c = CHR ''b'' then Some ([CHR 0x08], t) else if c = CHR ''f'' then Some ([CHR 0x0C], t)
        else if c = CHR ''n'' then Some ([CHR 0x0A], t) else if c = CHR ''r'' then Some ([CHR 0x0D], t)
        else if c = CHR ''t'' then Some ([CHR 0x09], t)
        else if c = CHR ''u'' then dec_unicode t else None)"

lemma getu4_length: "getu4 s = Some (r, u) \<Longrightarrow> length u < length s"
  by (cases s rule: getu4.cases) (auto split: option.splits)

lemma dec_escape_length: "dec_escape s = Some (t, u) \<Longrightarrow> length u < length s"
  by (auto simp: dec_escape_def dec_unicode_def split: list.splits if_splits option.splits prod.splits dest!: getu4_length)

definition prepend :: "string \<Rightarrow> (string \<times> string) option \<Rightarrow> (string \<times> string) option" where
  "prepend t r = map_option (map_prod (\<lambda>v. t @ v) (\<lambda>x. x)) r"

text \<open>The rest of a string after its opening quote.\<close>

function dec_chars :: "string \<Rightarrow> (string \<times> string) option" where
  "dec_chars s =
     (if s = [] then None
      else if hd s = quote then Some ([], tl s)
      else if hd s = backslash then
        (case dec_escape (tl s) of None \<Rightarrow> None
         | Some (t, u) \<Rightarrow> prepend t (dec_chars u))
      else if ord (hd s) < 32 then None
      else prepend (fst (next_rune s)) (dec_chars (snd (next_rune s))))"
  by pat_completeness auto
termination
  by (relation "measure length") (auto simp: next_rune_shorter dest!: dec_escape_length)

declare dec_chars.simps [simp del]

section \<open>Strings read back\<close>

function valid_utf8 :: "string \<Rightarrow> bool" where
  "valid_utf8 s \<longleftrightarrow> (if s = [] then True else if rune_len s = 0 then False else valid_utf8 (drop (rune_len s) s))"
  by pat_completeness auto
termination by (relation "measure length") auto

declare valid_utf8.simps [simp del]

lemma byte_in_take: "i < n \<Longrightarrow> n \<le> length s \<Longrightarrow> byte_in (take n s @ t) i lo hi \<longleftrightarrow> byte_in s i lo hi"
  by (simp add: byte_in_def nth_append)

lemma rune_len_take:
  assumes "rune_len s = n" and "0 < n"
  shows "rune_len (take n s @ t) = n"
proof -
  note t = byte_in_take [OF _ rune_len_length [of s, unfolded assms(1)], of _ t]
  consider "n = 1" "byte_in s 0 0 127" | "n = 2" "\<not> byte_in s 0 0 127" "rune2 s"
    | "n = 3" "\<not> byte_in s 0 0 127" "\<not> rune2 s" "rune3 s"
    | "n = 4" "\<not> byte_in s 0 0 127" "\<not> rune2 s" "\<not> rune3 s" "rune4 s"
    using assms by (auto simp: rune_len_def split: if_splits)
  then show ?thesis
  proof cases
    case 1 then show ?thesis using t by (simp add: rune_len_def)
  next
    case 2 then show ?thesis using t by (simp add: rune_len_def rune2_def)
  next
    case 3 then show ?thesis using t by (simp add: rune_len_def rune2_def rune3_def)
  next
    case 4 then show ?thesis using t by (simp add: rune_len_def rune2_def rune3_def rune4_def)
  qed
qed

lemma hex_chars: "n < 16 \<Longrightarrow> hex_val (hex_char n) = Some n"
proof -
  have "\<forall>n \<in> set [0..<16]. hex_val (hex_char n) = Some n" by code_simp
  then show "n < 16 \<Longrightarrow> ?thesis" by simp
qed

lemma dec_plain:
  assumes "c \<noteq> quote" and "c \<noteq> backslash" and "32 \<le> ord c" and "ord c < 128"
  shows "dec_chars (c # t) = prepend [c] (dec_chars t)"
proof -
  have "rune_len (c # t) = 1" using assms(4) by (simp add: rune_len_def byte_in_def)
  then show ?thesis using assms by (subst dec_chars.simps) (simp add: next_rune_def)
qed

lemma dec_unicode_byte:
  assumes "ord c < 128"
  shows "dec_unicode (CHR ''0'' # CHR ''0'' # hex_char (ord c div 16) # hex_char (ord c mod 16) # t) = Some ([c], t)"
proof -
  have "ord c div 16 < 16" using assms by simp
  moreover have "hex_val (CHR ''0'') = Some 0" by (simp add: hex_val_def)
  ultimately show ?thesis using assms by (simp add: dec_unicode_def hex_chars utf8_of_def)
qed

lemma dec_enc_byte:
  assumes "ord c < 128"
  shows "dec_chars (enc_byte c @ t) = prepend [c] (dec_chars t)"
proof -
  have escape: "dec_chars (backslash # u) = (case dec_escape u of None \<Rightarrow> None | Some (x, w) \<Rightarrow> prepend x (dec_chars w))" for u
    by (subst dec_chars.simps) simp
  show ?thesis
  proof (cases "c \<in> {backslash, quote, CHR 0x08, CHR 0x0C, CHR 0x0A, CHR 0x0D, CHR 0x09}")
    case True then show ?thesis by (auto simp: enc_byte_def escape dec_escape_def)
  next
    case other: False
    show ?thesis
    proof (cases "ord c < 32 \<or> c \<in> {CHR ''<'', CHR ''>'', CHR ''&''}")
    case True
    then have "enc_byte c = (backslash # ''u00'') @ [hex_char (ord c div 16), hex_char (ord c mod 16)]"
      using other by (simp add: enc_byte_def)
    then show ?thesis using dec_unicode_byte [OF assms] by (simp add: escape dec_escape_def)
  next
    case False
    then have "enc_byte c = [c]" using other by (simp add: enc_byte_def)
    then show ?thesis using dec_plain assms other False by simp
    qed
  qed
qed

lemma dec_separators:
  "dec_unicode (''2028'' @ t) = Some ([CHR 0xE2, CHR 0x80, CHR 0xA8], t)"
  "dec_unicode (''2029'' @ t) = Some ([CHR 0xE2, CHR 0x80, CHR 0xA9], t)"
proof -
  have "hex_val (CHR ''2'') = Some 2" "hex_val (CHR ''0'') = Some 0" "hex_val (CHR ''8'') = Some 8" "hex_val (CHR ''9'') = Some 9"
    by (simp_all add: hex_val_def)
  moreover have "utf8_of 0x2028 = [CHR 0xE2, CHR 0x80, CHR 0xA8]" "utf8_of 0x2029 = [CHR 0xE2, CHR 0x80, CHR 0xA9]"
    by (simp_all add: utf8_of_def char_of_def bit_0)
  ultimately show "dec_unicode (''2028'' @ t) = Some ([CHR 0xE2, CHR 0x80, CHR 0xA8], t)"
    "dec_unicode (''2029'' @ t) = Some ([CHR 0xE2, CHR 0x80, CHR 0xA9], t)"
    by (simp_all add: dec_unicode_def)
qed

lemma long_rune_first:
  assumes "1 < rune_len s"
  shows "0xC2 \<le> ord (hd s) \<and> s \<noteq> []"
proof -
  have "\<not> byte_in s 0 0 127 \<and> (rune2 s \<or> rune3 s \<or> rune4 s)" using assms by (auto simp: rune_len_def split: if_splits)
  then show ?thesis by (auto simp: rune2_def rune3_def rune4_def byte_in_def hd_conv_nth)
qed

lemma dec_enc_rune:
  assumes "rune_len s = n" and "0 < n"
  shows "dec_chars (enc_rune (take n s) @ t) = prepend (take n s) (dec_chars t)"
proof (cases "n = 1")
  case True
  then have "byte_in s 0 0 127"
    using assms(1) by (cases "byte_in s 0 0 127"; cases "rune2 s"; cases "rune3 s"; cases "rune4 s") (simp_all add: rune_len_def)
  then have "ord (hd s) < 128" "s \<noteq> []" by (cases s; simp add: byte_in_def)+
  moreover from this have "take n s = [hd s]" using True by (simp add: take_Suc)
  ultimately show ?thesis using dec_enc_byte by (simp add: enc_rune_def)
next
  case False
  let ?r = "take n s"
  have first: "0xC2 \<le> ord (hd s)" "s \<noteq> []" using long_rune_first [of s] assms False by auto
  have len: "length ?r = n" using rune_len_length [of s] assms(1) by simp
  have raw: "dec_chars (?r @ t) = prepend ?r (dec_chars t)"
  proof -
    have "hd (?r @ t) = hd s" "\<not> (?r @ t = [])" using first assms(2) by (auto simp: hd_append)
    moreover have "hd s \<noteq> quote" "hd s \<noteq> backslash" using first(1) by auto
    moreover have "next_rune (?r @ t) = (?r, t)"
      using rune_len_take [OF assms, of t] assms(2) len by (simp add: next_rune_def)
    ultimately show ?thesis using first(1) by (subst dec_chars.simps) (simp only: if_False if_True fst_conv snd_conv, simp)
  qed
  have escape: "dec_chars (backslash # u) = (case dec_escape u of None \<Rightarrow> None | Some (x, w) \<Rightarrow> prepend x (dec_chars w))" for u
    by (subst dec_chars.simps) simp
  show ?thesis
    using raw len False dec_separators [of t] by (auto simp: enc_rune_def escape dec_escape_def)
qed

text \<open>A string of well-formed UTF-8 reads back.\<close>

lemma dec_enc_chars: "valid_utf8 s \<Longrightarrow> dec_chars (enc_chars s @ quote # t) = Some (s, t)"
proof (induction s rule: enc_chars.induct)
  case (1 s)
  show ?case
  proof (cases "s = []")
    case True
    then show ?thesis by (simp add: enc_chars.simps dec_chars.simps [of "quote # t"])
  next
    case False
    then have pos: "0 < rune_len s" and rest: "valid_utf8 (drop (rune_len s) s)"
      using "1.prems" by (simp_all add: valid_utf8.simps [of s] split: if_split_asm)
    then have "dec_chars (enc_chars (drop (rune_len s) s) @ quote # t) = Some (drop (rune_len s) s, t)"
      using "1.IH"(2) False by simp
    then show ?thesis
      using dec_enc_rune [OF refl pos] False pos by (simp add: enc_chars.simps [of s] prepend_def)
  qed
qed

section \<open>Values\<close>

datatype json =
    JNull
  | JBool bool
  | JNum string
  | JStr string
  | JArr "json list"
  | JObj "(string \<times> json) list"

fun join_sep :: "string \<Rightarrow> string list \<Rightarrow> string" where
  "join_sep sep [] = []"
| "join_sep sep [x] = x"
| "join_sep sep (x # xs) = x @ sep @ join_sep sep xs"

text \<open>\<open>nl d\<close> is the line break and indentation at depth \<open>d\<close>, \<open>colon\<close> what stands after a key.\<close>

fun print_json :: "(nat \<Rightarrow> string) \<Rightarrow> string \<Rightarrow> nat \<Rightarrow> json \<Rightarrow> string" where
  "print_json nl colon d JNull = ''null''"
| "print_json nl colon d (JBool b) = (if b then ''true'' else ''false'')"
| "print_json nl colon d (JNum l) = l"
| "print_json nl colon d (JStr s) = enc_string s"
| "print_json nl colon d (JArr vs) =
     (if vs = [] then ''[]''
      else ''['' @ join_sep '','' (map (\<lambda>v. nl (Suc d) @ print_json nl colon (Suc d) v) vs) @ nl d @ '']'')"
| "print_json nl colon d (JObj kvs) =
     (if kvs = [] then ''{}''
      else ''{'' @ join_sep '','' (map (\<lambda>(k, v). nl (Suc d) @ enc_string k @ colon @ print_json nl colon (Suc d) v) kvs)
        @ nl d @ ''}'')"

definition Marshal :: "json \<Rightarrow> string" where
  "Marshal = print_json (\<lambda>d. []) '':'' 0"

text \<open>\<open>MarshalIndent\<close> with an empty prefix and two spaces.\<close>

definition MarshalIndent :: "json \<Rightarrow> string" where
  "MarshalIndent = print_json (\<lambda>d. CHR 0x0A # replicate (2 * d) (CHR '' '')) '': '' 0"

definition json_space :: "char \<Rightarrow> bool" where
  "json_space c \<longleftrightarrow> c \<in> {CHR '' '', CHR 0x09, CHR 0x0A, CHR 0x0D}"

abbreviation skip_ws :: "string \<Rightarrow> string" where "skip_ws \<equiv> dropWhile json_space"

definition some_digits :: "string \<Rightarrow> (string \<times> string) option" where
  "some_digits s = (if takeWhile is_digit s = [] then None else Some (takeWhile is_digit s, dropWhile is_digit s))"

definition parse_int_part :: "string \<Rightarrow> (string \<times> string) option" where
  "parse_int_part s = (case s of [] \<Rightarrow> None | c # t \<Rightarrow> if c = CHR ''0'' then Some (''0'', t) else some_digits s)"

definition parse_fraction :: "string \<Rightarrow> (string \<times> string) option" where
  "parse_fraction s = (case s of c # t \<Rightarrow>
     if c = CHR ''.'' then prepend [c] (some_digits t) else Some ([], s) | [] \<Rightarrow> Some ([], []))"

definition parse_exponent :: "string \<Rightarrow> (string \<times> string) option" where
  "parse_exponent s = (case s of c # t \<Rightarrow>
     if c = CHR ''e'' \<or> c = CHR ''E'' then
       (case t of x # u \<Rightarrow> if x = CHR ''+'' \<or> x = CHR ''-'' then prepend [c, x] (some_digits u) else prepend [c] (some_digits t)
        | [] \<Rightarrow> None)
     else Some ([], s) | [] \<Rightarrow> Some ([], []))"

definition then_parse :: "(string \<times> string) option \<Rightarrow> (string \<Rightarrow> (string \<times> string) option) \<Rightarrow> (string \<times> string) option" where
  "then_parse r f = (case r of None \<Rightarrow> None | Some (t, u) \<Rightarrow> prepend t (f u))"

definition parse_number :: "string \<Rightarrow> (string \<times> string) option" where
  "parse_number s =
     (let unsigned = (\<lambda>u. then_parse (parse_int_part u) (\<lambda>u. then_parse (parse_fraction u) parse_exponent)) in
      case s of c # t \<Rightarrow> if c = CHR ''-'' then prepend [c] (unsigned t) else unsigned s | [] \<Rightarrow> None)"

definition parsed_as :: "('a \<Rightarrow> 'b) \<Rightarrow> ('a \<times> string) option \<Rightarrow> ('b \<times> string) option" where
  "parsed_as f r = map_option (map_prod f (\<lambda>x. x)) r"

text \<open>The grammar of a value, its elements and its members; every call uses up fuel.\<close>

fun parse_value :: "nat \<Rightarrow> string \<Rightarrow> (json \<times> string) option"
  and parse_elems :: "nat \<Rightarrow> string \<Rightarrow> (json list \<times> string) option"
  and parse_members :: "nat \<Rightarrow> string \<Rightarrow> ((string \<times> json) list \<times> string) option" where
  "parse_value 0 s = None"
| "parse_value (Suc n) s = (case skip_ws s of [] \<Rightarrow> None
    | c # t \<Rightarrow>
        if c = quote then parsed_as JStr (dec_chars t)
        else if c = CHR ''['' then
          (if skip_ws t \<noteq> [] \<and> hd (skip_ws t) = CHR '']'' then Some (JArr [], tl (skip_ws t))
           else parsed_as JArr (parse_elems n t))
        else if c = CHR ''{'' then
          (if skip_ws t \<noteq> [] \<and> hd (skip_ws t) = CHR ''}'' then Some (JObj [], tl (skip_ws t))
           else parsed_as JObj (parse_members n t))
        else if HasPrefix (c # t) ''null'' then Some (JNull, drop 4 (c # t))
        else if HasPrefix (c # t) ''true'' then Some (JBool True, drop 4 (c # t))
        else if HasPrefix (c # t) ''false'' then Some (JBool False, drop 5 (c # t))
        else parsed_as JNum (parse_number (c # t)))"
| "parse_elems 0 s = None"
| "parse_elems (Suc n) s = (case parse_value n s of None \<Rightarrow> None
    | Some (v, u) \<Rightarrow> (case skip_ws u of [] \<Rightarrow> None
      | c # w \<Rightarrow> if c = CHR '','' then parsed_as (\<lambda>vs. v # vs) (parse_elems n w)
          else if c = CHR '']'' then Some ([v], w) else None))"
| "parse_members 0 s = None"
| "parse_members (Suc n) s = (case skip_ws s of [] \<Rightarrow> None
    | q # t \<Rightarrow> if q \<noteq> quote then None else (case dec_chars t of None \<Rightarrow> None
    | Some (k, t1) \<Rightarrow> (case skip_ws t1 of [] \<Rightarrow> None
    | c1 # t2 \<Rightarrow> if c1 \<noteq> CHR '':'' then None else (case parse_value n t2 of None \<Rightarrow> None
    | Some (v, u) \<Rightarrow> (case skip_ws u of [] \<Rightarrow> None
      | c # w \<Rightarrow> if c = CHR '','' then parsed_as (\<lambda>kvs. (k, v) # kvs) (parse_members n w)
          else if c = CHR ''}'' then Some ([(k, v)], w) else None)))))"

definition Unmarshal :: "string \<Rightarrow> json option" where
  "Unmarshal s = (case parse_value (length s) s of
      None \<Rightarrow> None | Some (v, rest) \<Rightarrow> if skip_ws rest = [] then Some v else None)"

section \<open>Numbers read back\<close>

text \<open>What may stand behind a value inside a text.\<close>

definition delim :: "string \<Rightarrow> bool" where
  "delim s \<longleftrightarrow> s = [] \<or> hd s \<in> {CHR '','', CHR '']'', CHR ''}''} \<or> json_space (hd s)"

lemma delim_not_digit: "delim (c # s) \<Longrightarrow> \<not> is_digit c \<and> c \<notin> {CHR ''.'', CHR ''e'', CHR ''E''}"
  by (auto simp: delim_def json_space_def is_digit_def digit_val_def)

lemma takeWhile_digits: "list_all is_digit s \<Longrightarrow> delim t \<Longrightarrow> takeWhile is_digit (s @ t) = s \<and> dropWhile is_digit (s @ t) = t"
  by (induction s) (cases t; auto dest: delim_not_digit)+

lemma dec_leading: "hd (dec n) = CHR ''0'' \<Longrightarrow> dec n = ''0''"
proof (induction n rule: dec.induct)
  case (1 n)
  show ?case
  proof (cases "n < 10")
    case True
    with "1.prems" show ?thesis by (simp add: dec.simps [of n])
  next
    case False
    then have "hd (dec (n div 10)) = CHR ''0''" using "1.prems" by (simp add: dec.simps [of n])
    from "1.IH" [OF False this] have "dec_val (dec (n div 10)) = dec_val ''0''" by (rule arg_cong)
    then show ?thesis using False by (simp add: dec_val_def [of "''0''"] digit_val_def)
  qed
qed

lemma delim_after_digits:
  assumes "delim t"
  shows "parse_fraction t = Some ([], t)" and "parse_exponent t = Some ([], t)"
  using assms by (cases t; auto simp: parse_fraction_def parse_exponent_def dest: delim_not_digit)+

lemma parse_int_part_dec:
  assumes "delim t"
  shows "parse_int_part (dec n @ t) = Some (dec n, t)"
proof (cases "dec n")
  case (Cons c s)
  have "c = CHR ''0'' \<Longrightarrow> s = []" using dec_leading [of n] Cons by simp
  moreover have "some_digits (c # s @ t) = Some (c # s, t)"
    using takeWhile_digits [OF dec_all_digits [of n] assms] Cons unfolding some_digits_def by simp
  ultimately show ?thesis using Cons by (simp add: parse_int_part_def)
qed simp

lemma parse_number_fmt_d:
  assumes "delim t"
  shows "parse_number (fmt_d x @ t) = Some (fmt_d x, t)"
proof -
  have "then_parse (parse_int_part (dec n @ t)) (\<lambda>u. then_parse (parse_fraction u) parse_exponent) = Some (dec n, t)" for n
    by (simp add: then_parse_def parse_int_part_dec assms delim_after_digits prepend_def)
  moreover obtain c s where "dec (nat x) = c # s" by (cases "dec (nat x)") simp
  moreover from this have "c \<noteq> CHR ''-''" using is_digit_not_sign [OF dec_digits [of c "nat x"]] by simp
  ultimately show ?thesis by (simp add: parse_number_def Let_def fmt_d_def prepend_def) (metis append_Cons)
qed

section \<open>Fuel\<close>

text \<open>A text of \<open>k\<close> bytes that is a value is parsed with any fuel of at least \<open>k\<close>, and always with the same result.\<close>

lemma prepend_Some: "prepend t r = Some (v, u) \<longleftrightarrow> (\<exists>w. r = Some (w, u) \<and> v = t @ w)"
  by (cases r) (auto simp: prepend_def)

lemma parsed_as_Some: "parsed_as f r = Some (v, u) \<longleftrightarrow> (\<exists>w. r = Some (w, u) \<and> v = f w)"
  by (cases r) (auto simp: parsed_as_def)

lemma dec_chars_shorter: "dec_chars s = Some (v, u) \<Longrightarrow> length u < length s"
proof (induction s arbitrary: v u rule: dec_chars.induct)
  case (1 s)
  show ?case
  proof (cases "s = [] \<or> hd s = quote")
    case True
    then show ?thesis using "1.prems" by (cases s) (auto simp: dec_chars.simps)
  next
    case False
    show ?thesis
    proof (cases "hd s = backslash")
      case True
      then obtain t w v' where e: "dec_escape (tl s) = Some (t, w)" and "dec_chars w = Some (v', u)"
        using "1.prems" False by (auto simp: dec_chars.simps [of s] prepend_Some split: option.splits)
      note this(2)
      from "1.IH"(1) [OF _ _ True e refl this] False dec_escape_length [OF e] show ?thesis by (cases s) auto
    next
      case plain: False
      then have "prepend (fst (next_rune s)) (dec_chars (snd (next_rune s))) = Some (v, u)" and "\<not> ord (hd s) < 32"
        using "1.prems" False by (simp_all add: dec_chars.simps [of s] split: if_splits)
      then obtain v' where "dec_chars (snd (next_rune s)) = Some (v', u)" by (auto simp: prepend_Some)
      from "1.IH"(2) [OF _ _ plain _ this] False \<open>\<not> ord (hd s) < 32\<close> next_rune_shorter [of s] show ?thesis by simp
    qed
  qed
qed


lemma skip_ws_length: "length (skip_ws s) \<le> length s"
  by (rule length_dropWhile_le)

lemma skip_ws_Cons: "skip_ws s = c # t \<Longrightarrow> length t < length s"
  using skip_ws_length [of s] by simp

lemma some_digits_shorter: "some_digits s = Some (v, u) \<Longrightarrow> length u < length s"
proof -
  assume "some_digits s = Some (v, u)"
  moreover have "length s = length (takeWhile is_digit s) + length (dropWhile is_digit s)"
    by (metis length_append takeWhile_dropWhile_id)
  ultimately show ?thesis by (auto simp: some_digits_def split: if_splits)
qed

lemma parse_number_shorter:
  assumes "parse_number s = Some (v, u)"
  shows "length u < length s"
proof -
  have int: "parse_int_part s = Some (v, u) \<Longrightarrow> length u < length s" for s v u
    by (auto simp: parse_int_part_def split: list.splits if_splits dest!: some_digits_shorter)
  have frac: "parse_fraction s = Some (v, u) \<Longrightarrow> length u \<le> length s" for s v u
    by (auto simp: parse_fraction_def prepend_Some split: list.splits if_splits dest!: some_digits_shorter)
  have exp: "parse_exponent s = Some (v, u) \<Longrightarrow> length u \<le> length s" for s v u
    by (auto simp: parse_exponent_def prepend_Some split: list.splits if_splits dest!: some_digits_shorter)
  have "then_parse (parse_int_part s) (\<lambda>u. then_parse (parse_fraction u) parse_exponent) = Some (v, u) \<Longrightarrow> length u < length s" for s v u
    by (auto simp: then_parse_def prepend_Some split: option.splits dest!: int frac exp)
  then show ?thesis using assms by (force simp: parse_number_def Let_def prepend_Some split: list.splits if_splits)
qed


lemma parse_shorter:
  "parse_value n s = Some (v, u) \<Longrightarrow> length u < length s"
  "parse_elems n s = Some (vs, u) \<Longrightarrow> length u < length s"
  "parse_members n s = Some (kvs, u) \<Longrightarrow> length u < length s"
proof (induction n s and n s and n s arbitrary: v u and vs u and kvs u rule: parse_value_parse_elems_parse_members.induct)
  case (2 n s)
  from "2.prems" obtain c t where s: "skip_ws s = c # t" by (auto split: list.splits)
  have t: "length (c # t) \<le> length s" using skip_ws_length [of s] s by simp
  have tl: "length (tl (skip_ws t)) \<le> length t" using skip_ws_length [of t] by simp
  have drop: "length (drop k (c # t)) < length s" if "0 < k" for k using t that by simp
  show ?case
    using "2.prems" s t tl drop [of 4] drop [of 5] "2.IH" [OF s]
    by (auto simp: parsed_as_Some split: if_splits dest!: dec_chars_shorter parse_number_shorter)
next
  case (4 n s)
  then show ?case
    by (auto simp: parsed_as_Some split: option.splits list.splits if_splits dest!: skip_ws_Cons)
      (meson less_trans)+
next
  case (6 n s)
  then show ?case
    by (auto simp: parsed_as_Some split: option.splits list.splits if_splits dest!: skip_ws_Cons dec_chars_shorter)
      (meson less_trans)+
qed simp_all


lemma parse_elems_elim:
  assumes "parse_elems (Suc m) s = Some (vs, u)"
  obtains v1 u1 c w where "parse_value m s = Some (v1, u1)" "skip_ws u1 = c # w"
    "if c = CHR '','' then parsed_as (\<lambda>vs. v1 # vs) (parse_elems m w) = Some (vs, u)
     else c = CHR '']'' \<and> vs = [v1] \<and> u = w"
proof -
  from assms obtain v1 u1 where v: "parse_value m s = Some (v1, u1)" by (cases "parse_value m s") auto
  with assms obtain c w where c: "skip_ws u1 = c # w" by (cases "skip_ws u1") simp_all
  have "if c = CHR '','' then parsed_as (\<lambda>vs. v1 # vs) (parse_elems m w) = Some (vs, u)
     else c = CHR '']'' \<and> vs = [v1] \<and> u = w"
    using assms v c by (simp split: if_split_asm)
  with that v c show ?thesis by blast
qed

lemma parse_members_elim:
  assumes "parse_members (Suc m) s = Some (kvs, u)"
  obtains t k1 t1 t2 v1 u1 c w where "skip_ws s = quote # t" "dec_chars t = Some (k1, t1)" "skip_ws t1 = CHR '':'' # t2"
    "parse_value m t2 = Some (v1, u1)" "skip_ws u1 = c # w"
    "if c = CHR '','' then parsed_as (\<lambda>kvs. (k1, v1) # kvs) (parse_members m w) = Some (kvs, u)
     else c = CHR ''}'' \<and> kvs = [(k1, v1)] \<and> u = w"
proof -
  from assms obtain q t where q: "skip_ws s = q # t" by (cases "skip_ws s") simp_all
  with assms have "q = quote" by (simp split: if_split_asm)
  with assms q obtain k1 t1 where k: "dec_chars t = Some (k1, t1)" by (cases "dec_chars t") auto
  with assms q \<open>q = quote\<close> obtain c1 t2 where c1: "skip_ws t1 = c1 # t2" by (cases "skip_ws t1") simp_all
  with assms q \<open>q = quote\<close> k have "c1 = CHR '':''" by (simp split: if_split_asm)
  with assms q \<open>q = quote\<close> k c1 obtain v1 u1 where v: "parse_value m t2 = Some (v1, u1)" by (cases "parse_value m t2") auto
  with assms q \<open>q = quote\<close> k c1 \<open>c1 = CHR '':''\<close> obtain c w where c: "skip_ws u1 = c # w" by (cases "skip_ws u1") simp_all
  have "if c = CHR '','' then parsed_as (\<lambda>kvs. (k1, v1) # kvs) (parse_members m w) = Some (kvs, u)
     else c = CHR ''}'' \<and> kvs = [(k1, v1)] \<and> u = w"
    using assms q \<open>q = quote\<close> k c1 \<open>c1 = CHR '':''\<close> v c by (simp split: if_split_asm)
  then show ?thesis using that q \<open>q = quote\<close> k c1 \<open>c1 = CHR '':''\<close> v c by blast
qed

lemma parse_fuel:
  "parse_value m s = Some (v, u) \<Longrightarrow> length s - length u \<le> n \<Longrightarrow> parse_value n s = Some (v, u)"
  "parse_elems m s = Some (vs, u) \<Longrightarrow> length s - length u \<le> n \<Longrightarrow> parse_elems n s = Some (vs, u)"
  "parse_members m s = Some (kvs, u) \<Longrightarrow> length s - length u \<le> n \<Longrightarrow> parse_members n s = Some (kvs, u)"
proof (induction m s and m s and m s arbitrary: n v u and n vs u and n kvs u rule: parse_value_parse_elems_parse_members.induct)
  case (2 m s)
  from "2.prems" obtain c t where s: "skip_ws s = c # t" by (auto split: list.splits)
  obtain k where n: "n = Suc k" using parse_shorter(1) [OF "2.prems"(1)] "2.prems"(2) by (cases n) simp_all
  have t: "length t - length u \<le> k" using skip_ws_Cons [OF s] "2.prems"(2) n by simp
  let ?empty = "\<lambda>e. skip_ws t \<noteq> [] \<and> hd (skip_ws t) = e"
  consider (arr) "c = CHR ''[''" "\<not> ?empty (CHR '']'')" | (obj) "c = CHR ''{''" "\<not> ?empty (CHR ''}'')"
    | (flat) "c = CHR ''['' \<longrightarrow> ?empty (CHR '']'')" "c = CHR ''{'' \<longrightarrow> ?empty (CHR ''}'')"
    by blast
  then show ?case
  proof cases
    case arr
    then obtain vs where "parse_elems m t = Some (vs, u)" "v = JArr vs" using "2.prems"(1) s by (auto simp: parsed_as_Some)
    then show ?thesis using "2.IH"(1) [OF s _ arr _ t] arr by (auto simp: n s parsed_as_Some)
  next
    case obj
    then obtain vs where "parse_members m t = Some (vs, u)" "v = JObj vs" using "2.prems"(1) s by (auto simp: parsed_as_Some)
    then show ?thesis using "2.IH"(2) [OF s _ _ obj _ t] obj by (auto simp: n s parsed_as_Some)
  next
    case flat
    have "parse_value (Suc m) s = parse_value (Suc k) s"
      using flat by (cases "c = CHR ''[''"; cases "c = CHR ''{''") (simp_all add: s)
    then show ?thesis using "2.prems"(1) n by simp
  qed
next
  case (4 m s)
  from "4.prems"(1) obtain v1 u1 c w where v: "parse_value m s = Some (v1, u1)" and c: "skip_ws u1 = c # w"
    and rest: "if c = CHR '','' then parsed_as (\<lambda>vs. v1 # vs) (parse_elems m w) = Some (vs, u)
      else c = CHR '']'' \<and> vs = [v1] \<and> u = w"
    by (rule parse_elems_elim)
  obtain k where n: "n = Suc k" using parse_shorter(2) [OF "4.prems"(1)] "4.prems"(2) by (cases n) simp_all
  have u: "length u \<le> length w"
    using rest by (auto simp: parsed_as_Some split: if_split_asm dest!: parse_shorter)
  have "parse_value k s = Some (v1, u1)"
    using "4.IH"(1) [OF v] "4.prems"(2) n u skip_ws_Cons [OF c] by simp
  note v' = this
  have w: "length w - length u \<le> k"
    using "4.prems"(2) n skip_ws_Cons [OF c] parse_shorter(1) [OF v] by simp
  show ?case
  proof (cases "c = CHR '',''")
    case True
    with rest obtain vs' where "parse_elems m w = Some (vs', u)" "vs = v1 # vs'" by (auto simp: parsed_as_Some)
    with "4.IH"(2) [OF v refl c True _ w] show ?thesis using v' c True by (simp add: n parsed_as_Some)
  next
    case False
    with rest v' c show ?thesis by (simp add: n)
  qed
next
  case (6 m s)
  from "6.prems"(1) obtain t k1 t1 t2 v1 u1 c w where v: "skip_ws s = quote # t" "dec_chars t = Some (k1, t1)"
      "skip_ws t1 = CHR '':'' # t2" "parse_value m t2 = Some (v1, u1)" and c: "skip_ws u1 = c # w"
    and rest: "if c = CHR '','' then parsed_as (\<lambda>kvs. (k1, v1) # kvs) (parse_members m w) = Some (kvs, u)
      else c = CHR ''}'' \<and> kvs = [(k1, v1)] \<and> u = w"
    by (rule parse_members_elim)
  obtain k where n: "n = Suc k" using parse_shorter(3) [OF "6.prems"(1)] "6.prems"(2) by (cases n) simp_all
  have u: "length u \<le> length w"
    using rest by (auto simp: parsed_as_Some split: if_split_asm dest!: parse_shorter)
  have less: "length t2 < length s"
    using skip_ws_Cons [OF v(1)] dec_chars_shorter [OF v(2)] skip_ws_Cons [OF v(3)] by simp
  have "parse_value k t2 = Some (v1, u1)"
    using "6.IH"(1) [OF v(1) _ v(2) refl v(3) _ v(4)] "6.prems"(2) n u less skip_ws_Cons [OF c] by simp
  note v' = this
  have w: "length w - length u \<le> k"
    using "6.prems"(2) n less skip_ws_Cons [OF c] parse_shorter(1) [OF v(4)] by simp
  show ?case
  proof (cases "c = CHR '',''")
    case True
    with rest obtain kvs' where "parse_members m w = Some (kvs', u)" "kvs = (k1, v1) # kvs'" by (auto simp: parsed_as_Some)
    with "6.IH"(2) [OF v(1) _ v(2) refl v(3) _ v(4) refl c True _ w] show ?thesis
      using v(1-3) v' c True by (simp add: n parsed_as_Some)
  next
    case False
    with rest v(1-3) v' c show ?thesis by (simp add: n)
  qed
qed simp_all


text \<open>So the fuel of \<open>Unmarshal\<close> is enough.\<close>

lemma Unmarshal_fuel: "parse_value m s = Some (v, u) \<Longrightarrow> skip_ws u = [] \<Longrightarrow> Unmarshal s = Some v"
  by (drule parse_fuel(1) [where n = "length s"]) (auto simp: Unmarshal_def)

section \<open>Values read back\<close>

fun json_ok :: "json \<Rightarrow> bool" where
  "json_ok JNull \<longleftrightarrow> True"
| "json_ok (JBool b) \<longleftrightarrow> True"
| "json_ok (JNum l) \<longleftrightarrow> (\<exists>x. l = fmt_d x)"
| "json_ok (JStr s) \<longleftrightarrow> valid_utf8 s"
| "json_ok (JArr vs) \<longleftrightarrow> (\<forall>v \<in> set vs. json_ok v)"
| "json_ok (JObj kvs) \<longleftrightarrow> (\<forall>kv \<in> set kvs. valid_utf8 (fst kv) \<and> json_ok (snd kv))"

lemma skip_ws_append: "list_all json_space sp \<Longrightarrow> skip_ws (sp @ s) = skip_ws s"
  by (simp add: list_all_iff dropWhile_append2)

lemma parse_value_ws: "list_all json_space sp \<Longrightarrow> parse_value n (sp @ s) = parse_value n s"
  by (cases n) (simp_all add: skip_ws_append)

lemma parse_members_ws: "list_all json_space sp \<Longrightarrow> parse_members n (sp @ s) = parse_members n s"
  by (cases n) (simp_all add: skip_ws_append)

lemma parse_elems_ws: "list_all json_space sp \<Longrightarrow> parse_elems n (sp @ s) = parse_elems n s"
  by (cases n) (simp_all add: parse_value_ws)

lemma skip_ws_here: "\<not> json_space c \<Longrightarrow> skip_ws (c # s) = c # s"
  by simp

lemma fmt_d_head: "\<exists>c s. fmt_d x = c # s \<and> (is_digit c \<or> c = CHR ''-'')"
proof -
  obtain c s where "dec (nat x) = c # s" by (cases "dec (nat x)") simp
  then show ?thesis using dec_digits [of c "nat x"] by (simp add: fmt_d_def)
qed

lemma parse_value_number:
  assumes "delim u"
  shows "parse_value (Suc n) (fmt_d x @ u) = Some (JNum (fmt_d x), u)"
proof -
  obtain c s where c: "fmt_d x = c # s" and d: "is_digit c \<or> c = CHR ''-''" using fmt_d_head by blast
  from d have "\<not> json_space c" "c \<notin> {quote, CHR ''['', CHR ''{'', CHR ''n'', CHR ''t'', CHR ''f''}"
    by (auto simp: is_digit_def digit_val_def json_space_def)
  then have "parse_value (Suc n) (c # s @ u) = parsed_as JNum (parse_number (c # s @ u))"
    by (simp add: HasPrefix_def)
  then show ?thesis using parse_number_fmt_d [OF assms, of x] c by (simp add: parsed_as_def)
qed

lemma parse_value_array:
  "parse_elems n t = Some (vs, u) \<Longrightarrow> skip_ws t = c # t' \<Longrightarrow> c \<noteq> CHR '']'' \<Longrightarrow>
     parse_value (Suc n) (CHR ''['' # t) = Some (JArr vs, u)"
  by (simp add: json_space_def parsed_as_def del: dropWhile_eq_Nil_conv)

lemma parse_value_object:
  "parse_members n t = Some (kvs, u) \<Longrightarrow> skip_ws t = c # t' \<Longrightarrow> c \<noteq> CHR ''}'' \<Longrightarrow>
     parse_value (Suc n) (CHR ''{'' # t) = Some (JObj kvs, u)"
  by (simp add: json_space_def parsed_as_def del: dropWhile_eq_Nil_conv)

lemma map_nonempty: "xs \<noteq> [] \<Longrightarrow> map f xs \<noteq> []"
  by simp

lemma join_sep_Cons: "xs \<noteq> [] \<Longrightarrow> join_sep sep (x # xs) = x @ sep @ join_sep sep xs"
  by (cases xs) simp_all

locale json_layout =
  fixes nl :: "nat \<Rightarrow> string" and colon sp :: string
  assumes nl_spaces: "list_all json_space (nl d)"
    and colon: "colon = CHR '':'' # sp" and sp_spaces: "list_all json_space sp"
begin

abbreviation text_of :: "nat \<Rightarrow> json \<Rightarrow> string" where "text_of \<equiv> print_json nl colon"

lemma text_head: "json_ok v \<Longrightarrow> \<exists>c t. text_of d v = c # t \<and> \<not> json_space c \<and> c \<notin> {CHR '']'', CHR ''}''}"
proof (cases v)
  case (JNum l)
  moreover assume "json_ok v"
  ultimately obtain x where "l = fmt_d x" by auto
  then obtain c s where "l = c # s" "is_digit c \<or> c = CHR ''-''" using fmt_d_head [of x] by auto
  then show ?thesis using JNum by (auto simp: is_digit_def digit_val_def json_space_def)
qed (auto simp: enc_string_def json_space_def)

lemma delim_nl: "delim (nl d @ c # u)" if "c \<in> {CHR '','', CHR '']'', CHR ''}''}"
  using nl_spaces [of d] that by (cases "nl d") (auto simp: delim_def)

definition reads :: "json \<Rightarrow> bool" where
  "reads v \<longleftrightarrow> (\<forall>d u. delim u \<longrightarrow> (\<exists>n. parse_value n (text_of d v @ u) = Some (v, u)))"

lemma readsD: "reads v \<Longrightarrow> delim u \<Longrightarrow> length (text_of d v) \<le> n \<Longrightarrow> parse_value n (text_of d v @ u) = Some (v, u)"
  unfolding reads_def by (metis parse_fuel(1) length_append add_diff_cancel_right')

lemma reads_elems:
  assumes "vs \<noteq> []" and "\<forall>v \<in> set vs. reads v \<and> json_ok v"
  shows "\<exists>n. parse_elems n (join_sep '','' (map (\<lambda>v. nl (Suc d) @ text_of (Suc d) v) vs) @ nl d @ CHR '']'' # u) = Some (vs, u)"
  using assms
proof (induction vs rule: list_nonempty_induct)
  case (single v)
  let ?n = "length (text_of (Suc d) v)"
  have "parse_value ?n (text_of (Suc d) v @ nl d @ CHR '']'' # u) = Some (v, nl d @ CHR '']'' # u)"
    using single readsD delim_nl by simp
  moreover have "skip_ws (nl d @ CHR '']'' # u) = CHR '']'' # u"
    using nl_spaces by (subst skip_ws_append) (simp_all add: json_space_def)
  ultimately have "parse_elems (Suc ?n) (text_of (Suc d) v @ nl d @ CHR '']'' # u) = Some ([v], u)" by simp
  then show ?case unfolding list.map join_sep.simps append_assoc parse_elems_ws [OF nl_spaces] by blast
next
  case (cons v vs)
  let ?tail = "join_sep '','' (map (\<lambda>v. nl (Suc d) @ text_of (Suc d) v) vs) @ nl d @ CHR '']'' # u"
  from cons obtain m where m: "parse_elems m ?tail = Some (vs, u)" by auto
  let ?n = "max (length (text_of (Suc d) v)) (length ?tail)"
  have "parse_value ?n (text_of (Suc d) v @ CHR '','' # ?tail) = Some (v, CHR '','' # ?tail)"
    using cons readsD [of v "CHR '','' # ?tail"] by (simp add: delim_def)
  moreover have "parse_elems ?n ?tail = Some (vs, u)" using m by (rule parse_fuel(2)) simp
  ultimately have "parse_elems (Suc ?n) (text_of (Suc d) v @ CHR '','' # ?tail) = Some (v # vs, u)"
    by (simp add: json_space_def parsed_as_def)
  then show ?case
    unfolding list.map join_sep_Cons [OF map_nonempty [OF cons.hyps(1)]] append_assoc append_Cons append_Nil parse_elems_ws [OF nl_spaces]
    by blast
qed

abbreviation member :: "nat \<Rightarrow> string \<times> json \<Rightarrow> string" where
  "member d kv \<equiv> nl d @ enc_string (fst kv) @ colon @ text_of d (snd kv)"

lemma members_head:
  assumes "valid_utf8 k" and "reads v" and "delim w" and "length (text_of d v) \<le> n" and "skip_ws w = c # t"
  shows "parse_members (Suc n) (nl d @ enc_string k @ colon @ text_of d v @ w) =
    (if c = CHR '','' then parsed_as (\<lambda>kvs. (k, v) # kvs) (parse_members n t)
     else if c = CHR ''}'' then Some ([(k, v)], t) else None)"
proof -
  have "parse_value n (sp @ text_of d v @ w) = Some (v, w)"
    using readsD [OF assms(2,3,4)] by (simp add: parse_value_ws [OF sp_spaces])
  then show ?thesis
    using dec_enc_chars [OF assms(1)] assms(5)
    by (simp add: skip_ws_append [OF nl_spaces] enc_string_def colon json_space_def)
qed

lemma reads_members:
  assumes "kvs \<noteq> []" and "\<forall>kv \<in> set kvs. valid_utf8 (fst kv) \<and> reads (snd kv)"
  shows "\<exists>n. parse_members n (join_sep '','' (map (member (Suc d)) kvs) @ nl d @ CHR ''}'' # u) = Some (kvs, u)"
  using assms
proof (induction kvs rule: list_nonempty_induct)
  case (single kv)
  obtain k v where kv: "kv = (k, v)" by (cases kv)
  have "skip_ws (nl d @ CHR ''}'' # u) = CHR ''}'' # u"
    using nl_spaces by (subst skip_ws_append) (simp_all add: json_space_def)
  from members_head [OF _ _ delim_nl order_refl this, of k v "Suc d"] single kv
  have "parse_members (Suc (length (text_of (Suc d) v))) (nl (Suc d) @ enc_string k @ colon @ text_of (Suc d) v @ nl d @ CHR ''}'' # u)
      = Some ([kv], u)" by simp
  then show ?case unfolding list.map join_sep.simps append_assoc kv fst_conv snd_conv by blast
next
  case (cons kv kvs)
  obtain k v where kv: "kv = (k, v)" by (cases kv)
  let ?tail = "join_sep '','' (map (member (Suc d)) kvs) @ nl d @ CHR ''}'' # u"
  from cons obtain m where m: "parse_members m ?tail = Some (kvs, u)" by auto
  let ?n = "max (length (text_of (Suc d) v)) (length ?tail)"
  have tail: "parse_members ?n ?tail = Some (kvs, u)" using m by (rule parse_fuel(3)) simp
  have "delim (CHR '','' # ?tail)" "skip_ws (CHR '','' # ?tail) = CHR '','' # ?tail"
    by (simp_all add: delim_def json_space_def)
  from members_head [OF _ _ this(1) _ this(2), of k v "Suc d" ?n] cons.prems kv tail
  have "parse_members (Suc ?n) (nl (Suc d) @ enc_string k @ colon @ text_of (Suc d) v @ CHR '','' # ?tail) = Some (kv # kvs, u)"
    by (simp add: parsed_as_def)
  then show ?case
    unfolding list.map join_sep_Cons [OF map_nonempty [OF cons.hyps(1)]] append_assoc append_Cons append_Nil kv fst_conv snd_conv
    by blast
qed

lemma skip_open: "\<exists>c t. skip_ws (nl d @ text_of d v @ u) = c # t \<and> c \<noteq> CHR '']''" if "json_ok v"
  using text_head [OF that, of d] by (auto simp: skip_ws_append [OF nl_spaces])

lemma text_array: "vs \<noteq> [] \<Longrightarrow> text_of d (JArr vs) =
    CHR ''['' # join_sep '','' (map (\<lambda>v. nl (Suc d) @ text_of (Suc d) v) vs) @ nl d @ '']''"
  by simp

lemma text_object: "kvs \<noteq> [] \<Longrightarrow> text_of d (JObj kvs) =
    CHR ''{'' # join_sep '','' (map (member (Suc d)) kvs) @ nl d @ ''}''"
  by (simp add: case_prod_unfold)

lemma reads_value: "json_ok v \<Longrightarrow> reads v"
proof (induction v)
  case JNull
  have "parse_value (Suc 0) (text_of d JNull @ u) = Some (JNull, u)" for d u by (simp add: HasPrefix_def json_space_def)
  then show ?case unfolding reads_def by blast
next
  case (JBool b)
  have "parse_value (Suc 0) (text_of d (JBool b) @ u) = Some (JBool b, u)" for d u
    by (cases b) (simp_all add: HasPrefix_def json_space_def)
  then show ?case unfolding reads_def by blast
next
  case (JNum l)
  then obtain x where "l = fmt_d x" by auto
  then have "delim u \<Longrightarrow> parse_value (Suc 0) (text_of d (JNum l) @ u) = Some (JNum l, u)" for d u
    using parse_value_number by simp
  then show ?case unfolding reads_def by blast
next
  case (JStr s)
  then have "parse_value (Suc 0) (text_of d (JStr s) @ u) = Some (JStr s, u)" for d u
    using dec_enc_chars by (simp add: enc_string_def json_space_def parsed_as_def)
  then show ?case unfolding reads_def by blast
next
  case (JArr vs)
  show ?case
  proof (cases "vs = []")
    case True
    have "parse_value (Suc 0) (text_of d (JArr []) @ u) = Some (JArr [], u)" for d u by (simp add: json_space_def)
    then show ?thesis unfolding reads_def True by blast
  next
    case False
    show ?thesis unfolding reads_def
    proof (intro allI impI)
      fix d u
      let ?t = "join_sep '','' (map (\<lambda>v. nl (Suc d) @ text_of (Suc d) v) vs) @ nl d @ CHR '']'' # u"
      have "\<forall>v \<in> set vs. reads v \<and> json_ok v" using JArr by simp
      then obtain n where n: "parse_elems n ?t = Some (vs, u)" using reads_elems [OF False] by blast
      obtain w ws where vs: "vs = w # ws" using False by (cases vs) simp_all
      obtain x where "?t = nl (Suc d) @ text_of (Suc d) w @ x" by (cases ws) (simp_all add: vs)
      moreover have "json_ok w" using JArr.prems vs by simp
      ultimately obtain c t where c: "skip_ws ?t = c # t" "c \<noteq> CHR '']''" using skip_open [of w "Suc d" x] by metis
      have "parse_value (Suc n) (CHR ''['' # ?t) = Some (JArr vs, u)"
        using n c by (rule parse_value_array)
      then show "\<exists>n. parse_value n (text_of d (JArr vs) @ u) = Some (JArr vs, u)"
        unfolding text_array [OF False] append_assoc append_Cons append_Nil by blast
    qed
  qed
next
  case (JObj kvs)
  show ?case
  proof (cases "kvs = []")
    case True
    have "parse_value (Suc 0) (text_of d (JObj []) @ u) = Some (JObj [], u)" for d u by (simp add: json_space_def)
    then show ?thesis unfolding reads_def True by blast
  next
    case False
    show ?thesis unfolding reads_def
    proof (intro allI impI)
      fix d u
      let ?t = "join_sep '','' (map (member (Suc d)) kvs) @ nl d @ CHR ''}'' # u"
      have "\<forall>kv \<in> set kvs. valid_utf8 (fst kv) \<and> reads (snd kv)" using JObj by (cases kvs) (auto simp: snds.simps)
      then obtain n where n: "parse_members n ?t = Some (kvs, u)" using reads_members [OF False] by blast
      obtain w ws where vs: "kvs = w # ws" using False by (cases kvs) simp_all
      obtain x where "?t = nl (Suc d) @ quote # x" by (cases ws) (simp_all add: vs enc_string_def)
      then have c: "skip_ws ?t = quote # x" by (simp only: skip_ws_append [OF nl_spaces]) (simp add: json_space_def)
      have "parse_value (Suc n) (CHR ''{'' # ?t) = Some (JObj kvs, u)"
        using n c by (rule parse_value_object) simp
      then show "\<exists>n. parse_value n (text_of d (JObj kvs) @ u) = Some (JObj kvs, u)"
        unfolding text_object [OF False] append_assoc append_Cons append_Nil by blast
    qed
  qed
qed

lemma text_reads: "json_ok v \<Longrightarrow> Unmarshal (text_of d v) = Some v"
proof -
  assume "json_ok v"
  then have "\<exists>n. parse_value n (text_of d v @ []) = Some (v, [])"
    using reads_value unfolding reads_def delim_def by blast
  then show ?thesis using Unmarshal_fuel [where u = "[]"] by auto
qed

end

text \<open>Both texts the code writes are such layouts.\<close>

interpretation compact: json_layout "\<lambda>d. []" "'':''" "[]"
  by unfold_locales simp_all

interpretation indented: json_layout "\<lambda>d. CHR 0x0A # replicate (2 * d) (CHR '' '')" "'': ''" "'' ''"
  by unfold_locales (simp_all add: json_space_def list_all_iff)

lemma Unmarshal_Marshal: "json_ok v \<Longrightarrow> Unmarshal (Marshal v) = Some v"
  unfolding Marshal_def by (rule compact.text_reads)

lemma Unmarshal_MarshalIndent: "json_ok v \<Longrightarrow> Unmarshal (MarshalIndent v) = Some v"
  unfolding MarshalIndent_def by (rule indented.text_reads)

end
