(* ===== verification/ChartJson.thy ===== *)
theory ChartJson
  imports Json Regexp Filters
begin

text \<open>
  The JSON of the structs of \<open>internal/dvc/types.go\<close> and \<open>config.go\<close>.  A decoder takes the value a field held
  before and leaves it on \<open>null\<close>; keys match up to the case of ASCII letters, unknown ones are skipped, and
  a value of another type is an error.  Decoding a list starts from the empty one; a text that gives one key
  of lists twice is decoded as if the second value stood alone.
\<close>

section \<open>Decoders\<close>

type_synonym 'a decoder = "json \<Rightarrow> 'a \<Rightarrow> 'a option"

definition dec_str :: "string decoder" where
  "dec_str j old = (case j of JNull \<Rightarrow> Some old | JStr s \<Rightarrow> Some s | _ \<Rightarrow> None)"

definition dec_int :: "int decoder" where
  "dec_int j old = (case j of JNull \<Rightarrow> Some old | JNum l \<Rightarrow> ParseInt l | _ \<Rightarrow> None)"

definition dec_list :: "'a decoder \<Rightarrow> 'a \<Rightarrow> 'a list decoder" where
  "dec_list f zero j old =
     (case j of JNull \<Rightarrow> Some [] | JArr vs \<Rightarrow> those (map (\<lambda>v. f v zero) vs) | _ \<Rightarrow> None)"

definition on_field :: "'b decoder \<Rightarrow> ('a \<Rightarrow> 'b) \<Rightarrow> (('b \<Rightarrow> 'b) \<Rightarrow> 'a \<Rightarrow> 'a) \<Rightarrow> 'a decoder" where
  "on_field d get upd j r = map_option (\<lambda>x. upd (\<lambda>_. x) r) (d j (get r))"

definition field_of :: "(string \<times> 'a decoder) list \<Rightarrow> string \<Rightarrow> 'a decoder option" where
  "field_of fs k = (case map_of fs k of Some f \<Rightarrow> Some f
    | None \<Rightarrow> map_of (map (\<lambda>(n, f). (ToLower n, f)) fs) (ToLower k))"

fun dec_members :: "(string \<times> 'a decoder) list \<Rightarrow> (string \<times> json) list \<Rightarrow> 'a \<Rightarrow> 'a option" where
  "dec_members fs [] x = Some x"
| "dec_members fs ((k, v) # kvs) x =
     (case field_of fs k of None \<Rightarrow> dec_members fs kvs x
      | Some f \<Rightarrow> (case f v x of None \<Rightarrow> None | Some y \<Rightarrow> dec_members fs kvs y))"

definition dec_struct :: "(string \<times> 'a decoder) list \<Rightarrow> 'a decoder" where
  "dec_struct fs j old = (case j of JNull \<Rightarrow> Some old | JObj kvs \<Rightarrow> dec_members fs kvs old | _ \<Rightarrow> None)"

text \<open>A slice that nothing was appended to is nil, which is written as \<open>null\<close>.\<close>

definition enc_slice :: "('a \<Rightarrow> json) \<Rightarrow> 'a list \<Rightarrow> json" where
  "enc_slice f xs = (if xs = [] then JNull else JArr (map f xs))"

abbreviation enc_int :: "int \<Rightarrow> json" where "enc_int x \<equiv> JNum (fmt_d x)"


lemma those_map_Some: "(\<And>x. x \<in> set xs \<Longrightarrow> f (g x) = Some x) \<Longrightarrow> those (map f (map g xs)) = Some xs"
  by (induction xs) auto

lemma dec_list_slice:
  "(\<And>x. x \<in> set xs \<Longrightarrow> f (g x) zero = Some x) \<Longrightarrow> dec_list f zero (enc_slice g xs) old = Some xs"
  using those_map_Some [of xs "\<lambda>v. f v zero" g] by (simp add: dec_list_def enc_slice_def)

lemma dec_int_enc [simp]: "in64 x \<Longrightarrow> dec_int (enc_int x) old = Some x"
  using Atoi_fmt_d by (simp add: dec_int_def Atoi_def)

lemma dec_str_enc [simp]: "dec_str (JStr s) old = Some s"
  by (simp add: dec_str_def)

section \<open>Point charts\<close>

definition range_fields :: "(string \<times> date_range decoder) list" where
  "range_fields =
     [(''start'', on_field dec_str Start Start_update),
      (''end'', on_field dec_str End End_update)]"

definition column_fields :: "(string \<times> column decoder) list" where
  "column_fields =
     [(''room_type'', on_field dec_str RoomType RoomType_update),
      (''view'', on_field dec_str View View_update),
      (''sleeps'', on_field dec_int Sleeps Sleeps_update)]"

definition season_fields :: "(string \<times> season decoder) list" where
  "season_fields =
     [(''periods'', on_field (dec_list (dec_struct range_fields) \<lparr>Start = [], End = []\<rparr>) Periods Periods_update),
      (''sun_thu'', on_field (dec_list dec_int 0) SunThu SunThu_update),
      (''fri_sat'', on_field (dec_list dec_int 0) FriSat FriSat_update)]"

definition chart_fields :: "(string \<times> resort_chart decoder) list" where
  "chart_fields =
     [(''resort_name'', on_field dec_str ResortName ResortName_update),
      (''resort_code'', on_field dec_str ResortCode ResortCode_update),
      (''year'', on_field dec_int ChartYear ChartYear_update),
      (''columns'', on_field (dec_list (dec_struct column_fields) \<lparr>RoomType = [], View = [], Sleeps = 0\<rparr>) Columns Columns_update),
      (''seasons'', on_field (dec_list (dec_struct season_fields) \<lparr>Periods = [], SunThu = [], FriSat = []\<rparr>) Seasons Seasons_update)]"

definition zero_chart :: resort_chart where
  "zero_chart = \<lparr>ResortName = [], ResortCode = [], ChartYear = 0, Columns = [], Seasons = []\<rparr>"

definition Unmarshal_chart :: "string \<Rightarrow> resort_chart option" where
  "Unmarshal_chart text = Option.bind (Unmarshal text) (\<lambda>j. dec_struct chart_fields j zero_chart)"

definition range_json :: "date_range \<Rightarrow> json" where
  "range_json r = JObj [(''start'', JStr (Start r)), (''end'', JStr (End r))]"

definition column_json :: "column \<Rightarrow> json" where
  "column_json c = JObj [(''room_type'', JStr (RoomType c)), (''view'', JStr (View c)), (''sleeps'', enc_int (Sleeps c))]"

definition season_json :: "season \<Rightarrow> json" where
  "season_json s = JObj [(''periods'', enc_slice range_json (Periods s)), (''sun_thu'', enc_slice enc_int (SunThu s)),
     (''fri_sat'', enc_slice enc_int (FriSat s))]"

definition chart_json :: "resort_chart \<Rightarrow> json" where
  "chart_json c = JObj [(''resort_name'', JStr (ResortName c)), (''resort_code'', JStr (ResortCode c)),
     (''year'', enc_int (ChartYear c)), (''columns'', enc_slice column_json (Columns c)),
     (''seasons'', enc_slice season_json (Seasons c))]"

definition chart_text :: "resort_chart \<Rightarrow> string" where
  "chart_text c = MarshalIndent (chart_json c)"

text \<open>What a text can hold: runes, and integers of 64 bits.\<close>

definition range_ok :: "date_range \<Rightarrow> bool" where
  "range_ok r \<longleftrightarrow> valid_utf8 (Start r) \<and> valid_utf8 (End r)"

definition column_ok :: "column \<Rightarrow> bool" where
  "column_ok c \<longleftrightarrow> valid_utf8 (RoomType c) \<and> valid_utf8 (View c) \<and> in64 (Sleeps c)"

definition season_ok :: "season \<Rightarrow> bool" where
  "season_ok s \<longleftrightarrow> list_all range_ok (Periods s) \<and> list_all in64 (SunThu s) \<and> list_all in64 (FriSat s)"

definition chart_text_ok :: "resort_chart \<Rightarrow> bool" where
  "chart_text_ok c \<longleftrightarrow> valid_utf8 (ResortName c) \<and> valid_utf8 (ResortCode c) \<and> in64 (ChartYear c) \<and>
     list_all column_ok (Columns c) \<and> list_all season_ok (Seasons c)"

section \<open>Charts read back\<close>

lemma ascii_valid: "list_all (\<lambda>c. ord c < 128) s \<Longrightarrow> valid_utf8 s"
proof (induction s)
  case (Cons c s)
  then have "rune_len (c # s) = 1" by (simp add: rune_len_def byte_in_def)
  with Cons show ?case by (simp add: valid_utf8.simps [of "c # s"])
qed (simp add: valid_utf8.simps)

lemma slice_json_ok: "(\<And>x. x \<in> set xs \<Longrightarrow> json_ok (f x)) \<Longrightarrow> json_ok (enc_slice f xs)"
  by (simp add: enc_slice_def)

lemma enc_int_ok [simp]: "json_ok (enc_int x)"
  by auto

lemma keys_valid [simp]:
  "valid_utf8 ''start''" "valid_utf8 ''end''" "valid_utf8 ''room_type''" "valid_utf8 ''view''" "valid_utf8 ''sleeps''"
  "valid_utf8 ''periods''" "valid_utf8 ''sun_thu''" "valid_utf8 ''fri_sat''" "valid_utf8 ''resort_name''"
  "valid_utf8 ''resort_code''" "valid_utf8 ''year''" "valid_utf8 ''columns''" "valid_utf8 ''seasons''"
  by (rule ascii_valid, simp)+

lemma range_json_ok: "range_ok r \<Longrightarrow> json_ok (range_json r)"
  by (simp add: range_ok_def range_json_def)

lemma column_json_ok: "column_ok c \<Longrightarrow> json_ok (column_json c)"
  by (simp add: column_ok_def column_json_def del: json_ok.simps(3))

lemma season_json_ok: "season_ok s \<Longrightarrow> json_ok (season_json s)"
  by (simp add: season_ok_def season_json_def list_all_iff slice_json_ok range_json_ok del: json_ok.simps(3))

lemma chart_json_ok: "chart_text_ok c \<Longrightarrow> json_ok (chart_json c)"
  by (simp add: chart_text_ok_def chart_json_def list_all_iff slice_json_ok column_json_ok season_json_ok del: json_ok.simps(3))

lemma dec_struct_object: "dec_struct fs (JObj kvs) old = dec_members fs kvs old"
  by (simp add: dec_struct_def)

lemma dec_range: "dec_struct range_fields (range_json r) z = Some r"
  by (simp add: dec_struct_object range_json_def range_fields_def field_of_def on_field_def)

lemma dec_column: "column_ok c \<Longrightarrow> dec_struct column_fields (column_json c) z = Some c"
  by (simp add: dec_struct_object column_json_def column_fields_def field_of_def on_field_def column_ok_def)

lemma dec_season: "season_ok s \<Longrightarrow> dec_struct season_fields (season_json s) z = Some s"
  by (simp add: dec_struct_object season_json_def season_fields_def field_of_def on_field_def season_ok_def list_all_iff
      dec_list_slice dec_range)

lemma dec_chart: "chart_text_ok c \<Longrightarrow> dec_struct chart_fields (chart_json c) z = Some c"
  by (simp add: dec_struct_object chart_json_def chart_fields_def field_of_def on_field_def chart_text_ok_def list_all_iff
      dec_list_slice dec_column dec_season)

text \<open>The text of a chart decodes to the chart.\<close>

lemma chart_text_reads: "chart_text_ok c \<Longrightarrow> Unmarshal_chart (chart_text c) = Some c"
  by (simp add: Unmarshal_chart_def chart_text_def Unmarshal_MarshalIndent chart_json_ok dec_chart)

section \<open>The configuration\<close>

definition string_list_json :: "bool \<Rightarrow> string list \<Rightarrow> json" where
  "string_list_json is_nil xs = (if is_nil \<and> xs = [] then JNull else JArr (map JStr xs))"

definition config_fields :: "(string \<times> config decoder) list" where
  "config_fields =
     [(''exclude_resorts'', on_field (dec_list dec_str []) cfg_ExcludeResorts cfg_ExcludeResorts_update),
      (''exclude_room_types'', on_field (dec_list dec_str []) cfg_ExcludeRoomTypes cfg_ExcludeRoomTypes_update)]"

definition no_config :: config where
  "no_config = \<lparr>cfg_ExcludeResorts = [], cfg_ExcludeRoomTypes = []\<rparr>"

definition Unmarshal_config :: "string \<Rightarrow> config option" where
  "Unmarshal_config text = Option.bind (Unmarshal text) (\<lambda>j. dec_struct config_fields j no_config)"

text \<open>What \<open>SaveConfig\<close> writes; whether an empty list is a nil slice or an empty one shows in the text.\<close>

definition config_text :: "bool \<Rightarrow> bool \<Rightarrow> config \<Rightarrow> string" where
  "config_text nil_resorts nil_types c = MarshalIndent (JObj
     [(''exclude_resorts'', string_list_json nil_resorts (cfg_ExcludeResorts c)),
      (''exclude_room_types'', string_list_json nil_types (cfg_ExcludeRoomTypes c))])"

definition config_text_ok :: "config \<Rightarrow> bool" where
  "config_text_ok c \<longleftrightarrow> list_all valid_utf8 (cfg_ExcludeResorts c) \<and> list_all valid_utf8 (cfg_ExcludeRoomTypes c)"

lemma dec_string_list: "dec_list dec_str [] (string_list_json b xs) old = Some xs"
  using those_map_Some [of xs "\<lambda>v. dec_str v []" JStr] by (simp add: dec_list_def string_list_json_def)

lemma string_list_json_ok: "list_all valid_utf8 xs \<Longrightarrow> json_ok (string_list_json b xs)"
  by (simp add: string_list_json_def list_all_iff)

lemma config_text_reads:
  assumes "config_text_ok c"
  shows "Unmarshal_config (config_text b b' c) = Some c"
proof -
  have keys: "valid_utf8 ''exclude_resorts''" "valid_utf8 ''exclude_room_types''" by (rule ascii_valid, simp)+
  show ?thesis
    using assms keys
    by (simp add: Unmarshal_config_def config_text_def Unmarshal_MarshalIndent config_text_ok_def string_list_json_ok
        dec_struct_object config_fields_def field_of_def on_field_def dec_string_list)
qed

end
