(* ===== verification/LedgerClient.thy ===== *)
theory LedgerClient
  imports Server
begin

text \<open>
  \<open>internal/ledgerclient\<close>: the HTTP client of the ledger's JSON interface and the resolution of its
  configuration.  The network is the argument \<open>link\<close>, from a request and the state of the server
  to its answer, if one arrives, and the state after it; the state of the server is passed through.
  JSON is the value it encodes: a field of one side is the field of the same name of the other, and a
  field that an answer leaves out is the zero value; \<open>WireJson\<close> shows that the texts mean this.
\<close>

section \<open>Wire types\<close>

record cl_entry =
  cle_ID :: int
  cle_UseYear :: int
  cle_Date :: string
  cle_Desc :: string
  cle_Kind :: string
  cle_Allotted :: int
  cle_Used :: int
  cle_Tag :: string
  cle_ContractID :: "int option"
  cle_RunningBalance :: int

record cl_entry_input =
  cli_UseYear :: int
  cli_Date :: string
  cli_Desc :: string
  cli_Kind :: string
  cli_Allotted :: int
  cli_Used :: int
  cli_Tag :: string
  cli_ContractID :: "int option"

record cl_contract =
  clc_ID :: int
  clc_Name :: string
  clc_Number :: string
  clc_HomeResort :: string
  clc_AnnualPoints :: int
  clc_UseYearMonth :: string

record cl_contract_input =
  cci_Name :: string
  cci_Number :: string
  cci_HomeResort :: string
  cci_AnnualPoints :: int
  cci_UseYearMonth :: string

record cl_summary =
  cls_UseYear :: int
  cls_Allotted :: int
  cls_Used :: int
  cls_Net :: int
  cls_OverBorrowed :: bool

record cl_stay_input =
  csi_Resort :: string
  csi_RoomType :: string
  csi_View :: string
  csi_CheckIn :: string
  csi_CheckOut :: string
  csi_Points :: int
  csi_EntryIDs :: "int list"

record cl_trip_input =
  cti_Name :: string
  cti_StartDate :: string
  cti_EndDate :: string
  cti_MinNights :: int
  cti_Stays :: "cl_stay_input list"

section \<open>JSON of the two sides\<close>

definition entry_of_dto :: "'a entry_dto_scheme \<Rightarrow> cl_entry" where
  "entry_of_dto e = \<lparr>cle_ID = ed_ID e, cle_UseYear = ed_UseYear e, cle_Date = ed_Date e, cle_Desc = ed_Desc e,
     cle_Kind = ed_Kind e, cle_Allotted = ed_Allotted e, cle_Used = ed_Used e, cle_Tag = ed_Tag e,
     cle_ContractID = ed_ContractID e, cle_RunningBalance = 0\<rparr>"

definition entry_of_list_dto :: "entry_list_dto \<Rightarrow> cl_entry" where
  "entry_of_list_dto e = (entry_of_dto e)\<lparr>cle_RunningBalance := ed_RunningBalance e\<rparr>"

definition entry_body :: "cl_entry_input \<Rightarrow> entry_request_dto" where
  "entry_body i = \<lparr>er_UseYear = cli_UseYear i, er_Date = cli_Date i, er_Desc = cli_Desc i, er_Kind = cli_Kind i,
     er_Allotted = cli_Allotted i, er_Used = cli_Used i, er_Tag = cli_Tag i, er_ContractID = cli_ContractID i\<rparr>"

definition contract_of_dto :: "contract_dto \<Rightarrow> cl_contract" where
  "contract_of_dto c = \<lparr>clc_ID = cd_ID c, clc_Name = cd_Name c, clc_Number = cd_Number c, clc_HomeResort = cd_HomeResort c,
     clc_AnnualPoints = cd_AnnualPoints c, clc_UseYearMonth = cd_UseYearMonth c\<rparr>"

definition contract_body :: "cl_contract_input \<Rightarrow> contract_dto" where
  "contract_body c = \<lparr>cd_ID = 0, cd_Name = cci_Name c, cd_Number = cci_Number c, cd_HomeResort = cci_HomeResort c,
     cd_AnnualPoints = cci_AnnualPoints c, cd_UseYearMonth = cci_UseYearMonth c\<rparr>"

definition summary_of_dto :: "summary_dto \<Rightarrow> cl_summary" where
  "summary_of_dto s = \<lparr>cls_UseYear = sd_UseYear s, cls_Allotted = sd_Allotted s, cls_Used = sd_Used s,
     cls_Net = sd_Net s, cls_OverBorrowed = sd_OverBorrowed s\<rparr>"

definition stay_body :: "cl_stay_input \<Rightarrow> import_stay_dto" where
  "stay_body s = \<lparr>isd_Resort = csi_Resort s, isd_RoomType = csi_RoomType s, isd_View = csi_View s,
     isd_CheckIn = csi_CheckIn s, isd_CheckOut = csi_CheckOut s, isd_Points = csi_Points s, isd_EntryIDs = csi_EntryIDs s\<rparr>"

definition trip_body :: "cl_trip_input \<Rightarrow> import_trip_dto" where
  "trip_body t = \<lparr>itd_Name = cti_Name t, itd_StartDate = cti_StartDate t, itd_EndDate = cti_EndDate t,
     itd_MinNights = cti_MinNights t, itd_Stays = map stay_body (cti_Stays t)\<rparr>"

section \<open>Configuration\<close>

record client_config =
  cc_ServerURL :: string
  cc_Token :: string

fun firstNonEmpty :: "string list \<Rightarrow> string" where
  "firstNonEmpty [] = []"
| "firstNonEmpty (v # vals) = (if v \<noteq> [] then v else firstNonEmpty vals)"

definition strip_slash :: "string \<Rightarrow> string" where
  "strip_slash s = (if s \<noteq> [] \<and> last s = CHR ''/'' then butlast s else s)"

text \<open>The environment variables, and the configuration file as far as it could be read.\<close>

definition ResolveConfig :: "(string \<Rightarrow> string) \<Rightarrow> client_config \<Rightarrow> string \<Rightarrow> string \<Rightarrow> client_config result" where
  "ResolveConfig getenv fc flagServer flagToken =
     (let url = firstNonEmpty [flagServer, getenv ''LINELEADER_SERVER'', cc_ServerURL fc];
          token = firstNonEmpty [flagToken, getenv ''LINELEADER_TOKEN'', cc_Token fc]
      in if url = [] then Inl (ErrInput ''no lineleader server configured'')
         else Inr \<lparr>cc_ServerURL = strip_slash url, cc_Token = token\<rparr>)"

section \<open>Requests\<close>

record client =
  baseURL :: string
  token :: string

definition New :: "string \<Rightarrow> string \<Rightarrow> client" where
  "New url tok = \<lparr>baseURL = strip_slash url, token = tok\<rparr>"

datatype client_error =
    ConnectError
  | APIError nat string
  | DecodeError

type_synonym link = "string \<Rightarrow> server_request \<Rightarrow> web \<Rightarrow> server_response option \<times> web"

definition client_request :: "client \<Rightarrow> string \<Rightarrow> string \<Rightarrow> server_request" where
  "client_request c method path = \<lparr>q_Method = method, q_Path = path, q_RawQuery = [], q_Host = baseURL c,
     q_Header = (\<lambda>k. if k = ''Authorization'' then ''Bearer '' @ token c else []), q_Cookie = None,
     q_FormErr = None, q_FormValue = (\<lambda>k. []), q_PathValue = (\<lambda>k. []), q_Query = (\<lambda>k. []),
     q_EntryBody = None, q_ContractBody = None, q_ImportBody = None\<rparr>"

text \<open>The status of an answer.  A request with a bearer token is never redirected, so the pages a browser
  would be sent to do not arise.\<close>

fun api_status :: "api_response \<Rightarrow> nat" where
  "api_status (ApiError n m) = n"
| "api_status (ApiEntry n e) = n"
| "api_status (ApiEntries n es) = n"
| "api_status (ApiEntryList n es) = n"
| "api_status (ApiContract n c) = n"
| "api_status (ApiContracts n cs) = n"
| "api_status (ApiSummaries n ss) = n"
| "api_status (ApiID n i) = n"
| "api_status ApiNoContent = 204"

fun reply_status :: "server_response \<Rightarrow> nat" where
  "reply_status (Api r) = api_status r"
| "reply_status (Gate g) = (case g of Unauthorized \<Rightarrow> 401 | Forbidden \<Rightarrow> 403 | _ \<Rightarrow> 200)"
| "reply_status Unavailable = 503"
| "reply_status NotRouted = 404"
| "reply_status _ = 200"

definition StatusText :: "nat \<Rightarrow> string" where
  "StatusText n = (if n = 400 then ''Bad Request'' else if n = 401 then ''Unauthorized'' else if n = 403 then ''Forbidden''
     else if n = 404 then ''Not Found'' else if n = 500 then ''Internal Server Error''
     else if n = 503 then ''Service Unavailable'' else [])"

definition apiErrorFrom :: "server_response \<Rightarrow> client_error" where
  "apiErrorFrom resp =
     (let msg = (case resp of Api (ApiError n m) \<Rightarrow> m | _ \<Rightarrow> [])
      in APIError (reply_status resp) (if msg = [] then StatusText (reply_status resp) else msg))"

definition client_do :: "link \<Rightarrow> client \<Rightarrow> server_request \<Rightarrow> web \<Rightarrow> (client_error + server_response) \<times> web" where
  "client_do link c r w =
     (case link (baseURL c) r w of
        (None, w') \<Rightarrow> (Inl ConnectError, w')
      | (Some resp, w') \<Rightarrow>
          (if reply_status resp < 200 \<or> reply_status resp \<ge> 300 then Inl (apiErrorFrom resp) else Inr resp, w'))"

definition decoded :: "(server_response \<Rightarrow> 'a option) \<Rightarrow> (client_error + server_response) \<times> web \<Rightarrow> (client_error + 'a) \<times> web" where
  "decoded f res = (case res of
      (Inl e, w) \<Rightarrow> (Inl e, w)
    | (Inr resp, w) \<Rightarrow> (case f resp of None \<Rightarrow> (Inl DecodeError, w) | Some x \<Rightarrow> (Inr x, w)))"

section \<open>Operations\<close>

fun as_entry :: "server_response \<Rightarrow> cl_entry option" where
  "as_entry (Api (ApiEntry n e)) = Some (entry_of_dto e)"
| "as_entry _ = None"

fun as_entries :: "server_response \<Rightarrow> cl_entry list option" where
  "as_entries (Api (ApiEntryList n es)) = Some (map entry_of_list_dto es)"
| "as_entries (Api (ApiEntries n es)) = Some (map entry_of_dto es)"
| "as_entries _ = None"

fun as_contract :: "server_response \<Rightarrow> cl_contract option" where
  "as_contract (Api (ApiContract n c)) = Some (contract_of_dto c)"
| "as_contract _ = None"

fun as_contracts :: "server_response \<Rightarrow> cl_contract list option" where
  "as_contracts (Api (ApiContracts n cs)) = Some (map contract_of_dto cs)"
| "as_contracts _ = None"

fun as_summaries :: "server_response \<Rightarrow> cl_summary list option" where
  "as_summaries (Api (ApiSummaries n ss)) = Some (map summary_of_dto ss)"
| "as_summaries _ = None"

fun as_id :: "server_response \<Rightarrow> int option" where
  "as_id (Api (ApiID n i)) = Some i"
| "as_id _ = None"

abbreviation entries_path :: string where "entries_path \<equiv> ''/api/v1/ledger/entries''"
abbreviation contracts_path :: string where "contracts_path \<equiv> ''/api/v1/ledger/contracts''"

definition cl_ListEntries :: "link \<Rightarrow> client \<Rightarrow> web \<Rightarrow> (client_error + cl_entry list) \<times> web" where
  "cl_ListEntries link c w = decoded as_entries (client_do link c (client_request c ''GET'' entries_path) w)"

definition cl_AddEntry :: "link \<Rightarrow> client \<Rightarrow> cl_entry_input \<Rightarrow> web \<Rightarrow> (client_error + cl_entry) \<times> web" where
  "cl_AddEntry link c inp w = decoded as_entry
     (client_do link c ((client_request c ''POST'' entries_path)\<lparr>q_EntryBody := Some (entry_body inp)\<rparr>) w)"

definition cl_UpdateEntry :: "link \<Rightarrow> client \<Rightarrow> int \<Rightarrow> cl_entry_input \<Rightarrow> web \<Rightarrow> (client_error + cl_entry) \<times> web" where
  "cl_UpdateEntry link c i inp w = decoded as_entry
     (client_do link c ((client_request c ''PUT'' (entries_path @ ''/'' @ fmt_d i))\<lparr>q_EntryBody := Some (entry_body inp)\<rparr>) w)"

definition cl_DeleteEntry :: "link \<Rightarrow> client \<Rightarrow> int \<Rightarrow> web \<Rightarrow> (client_error + unit) \<times> web" where
  "cl_DeleteEntry link c i w = decoded (\<lambda>resp. Some ())
     (client_do link c (client_request c ''DELETE'' (entries_path @ ''/'' @ fmt_d i)) w)"

definition cl_ListContracts :: "link \<Rightarrow> client \<Rightarrow> web \<Rightarrow> (client_error + cl_contract list) \<times> web" where
  "cl_ListContracts link c w = decoded as_contracts (client_do link c (client_request c ''GET'' contracts_path) w)"

definition cl_AddContract :: "link \<Rightarrow> client \<Rightarrow> cl_contract_input \<Rightarrow> web \<Rightarrow> (client_error + cl_contract) \<times> web" where
  "cl_AddContract link c inp w = decoded as_contract
     (client_do link c ((client_request c ''POST'' contracts_path)\<lparr>q_ContractBody := Some (contract_body inp)\<rparr>) w)"

definition cl_DeleteContract :: "link \<Rightarrow> client \<Rightarrow> int \<Rightarrow> web \<Rightarrow> (client_error + unit) \<times> web" where
  "cl_DeleteContract link c i w = decoded (\<lambda>resp. Some ())
     (client_do link c (client_request c ''DELETE'' (contracts_path @ ''/'' @ fmt_d i)) w)"

definition cl_Summaries :: "link \<Rightarrow> client \<Rightarrow> web \<Rightarrow> (client_error + cl_summary list) \<times> web" where
  "cl_Summaries link c w = decoded as_summaries (client_do link c (client_request c ''GET'' ''/api/v1/ledger/summaries'') w)"

definition cl_Distribute :: "link \<Rightarrow> client \<Rightarrow> web \<Rightarrow> (client_error + cl_entry list) \<times> web" where
  "cl_Distribute link c w = decoded as_entries (client_do link c (client_request c ''POST'' ''/api/v1/ledger/distribute'') w)"

definition cl_ImportTrip :: "link \<Rightarrow> client \<Rightarrow> cl_trip_input \<Rightarrow> web \<Rightarrow> (client_error + int) \<times> web" where
  "cl_ImportTrip link c inp w = decoded as_id
     (client_do link c ((client_request c ''POST'' ''/api/v1/trips/import'')\<lparr>q_ImportBody := Some (trip_body inp)\<rparr>) w)"

end
