(* ===== verification/WireJson.thy ===== *)
theory WireJson
  imports ChartJson LedgerClient
begin

text \<open>
  The texts that the ledger's JSON interface and its client exchange.  The two sides declare their wire types
  apart, \<open>internal/web/api_handlers.go\<close> and \<open>internal/ledgerclient/types.go\<close>, and nothing in the source ties
  the names of their fields together; here each side's text is read by the other side's decoder.  Also the
  client's configuration file and the file of trips that \<open>dvc trips import\<close> reads.
\<close>

section \<open>Streams\<close>

text \<open>An encoder ends a value with a line break; a decoder reads the first value of its input.\<close>

definition Encode :: "json \<Rightarrow> string" where
  "Encode v = Marshal v @ [CHR 0x0A]"

definition Decode :: "string \<Rightarrow> json option" where
  "Decode s = map_option fst (parse_value (length s) s)"

lemma Decode_delim:
  assumes "json_ok v" and "delim u"
  shows "Decode (Marshal v @ u) = Some v"
proof -
  from assms obtain n where "parse_value n (Marshal v @ u) = Some (v, u)"
    using compact.reads_value [OF assms(1)] unfolding compact.reads_def Marshal_def by blast
  then have "parse_value (length (Marshal v @ u)) (Marshal v @ u) = Some (v, u)" by (rule parse_fuel(1)) simp
  then show ?thesis by (simp add: Decode_def)
qed

lemma Decode_Encode: "json_ok v \<Longrightarrow> Decode (Encode v) = Some v"
  unfolding Encode_def by (rule Decode_delim) (simp_all add: delim_def json_space_def)

lemma Decode_Marshal: "json_ok v \<Longrightarrow> Decode (Marshal v) = Some v"
  using Decode_delim [of v "[]"] by (simp add: delim_def)

section \<open>Fields\<close>

definition dec_bool :: "bool decoder" where
  "dec_bool j old = (case j of JNull \<Rightarrow> Some old | JBool b \<Rightarrow> Some b | _ \<Rightarrow> None)"

text \<open>A pointer to an integer.\<close>

definition dec_ptr :: "int option decoder" where
  "dec_ptr j old = (case j of JNull \<Rightarrow> Some None | JNum l \<Rightarrow> map_option Some (ParseInt l) | _ \<Rightarrow> None)"

definition enc_ptr :: "int option \<Rightarrow> json" where
  "enc_ptr p = (case p of None \<Rightarrow> JNull | Some x \<Rightarrow> enc_int x)"

definition ptr64 :: "int option \<Rightarrow> bool" where
  "ptr64 p \<longleftrightarrow> (case p of None \<Rightarrow> True | Some x \<Rightarrow> in64 x)"

lemma dec_ptr_enc [simp]: "ptr64 p \<Longrightarrow> dec_ptr (enc_ptr p) old = Some p"
  using Atoi_fmt_d by (auto simp: dec_ptr_def enc_ptr_def ptr64_def Atoi_def split: option.split)

lemma dec_bool_enc [simp]: "dec_bool (JBool b) old = Some b"
  by (simp add: dec_bool_def)

lemma enc_ptr_ok [simp]: "json_ok (enc_ptr p)"
  by (cases p) (auto simp: enc_ptr_def)

definition enc_list :: "('a \<Rightarrow> json) \<Rightarrow> 'a list \<Rightarrow> json" where
  "enc_list f xs = JArr (map f xs)"

lemma enc_list_ok: "(\<And>x. x \<in> set xs \<Longrightarrow> json_ok (f x)) \<Longrightarrow> json_ok (enc_list f xs)"
  by (simp add: enc_list_def)

lemma those_map_to: "(\<And>x. x \<in> set xs \<Longrightarrow> f (g x) = Some (h x)) \<Longrightarrow> those (map f (map g xs)) = Some (map h xs)"
  by (induction xs) auto

lemma dec_list_enc:
  "(\<And>x. x \<in> set xs \<Longrightarrow> f (g x) zero = Some (h x)) \<Longrightarrow> dec_list f zero (enc_list g xs) old = Some (map h xs)"
  using those_map_to [of xs "\<lambda>v. f v zero" g h] by (simp add: dec_list_def enc_list_def)

lemma dec_list_slice_to:
  "(\<And>x. x \<in> set xs \<Longrightarrow> f (g x) zero = Some (h x)) \<Longrightarrow> dec_list f zero (enc_slice g xs) old = Some (map h xs)"
  using those_map_to [of xs "\<lambda>v. f v zero" g h] by (simp add: dec_list_def enc_slice_def)

section \<open>Answers of the server\<close>

definition entry_members :: "'a entry_dto_scheme \<Rightarrow> (string \<times> json) list" where
  "entry_members e = [(''id'', enc_int (ed_ID e)), (''use_year'', enc_int (ed_UseYear e)), (''date'', JStr (ed_Date e)),
     (''description'', JStr (ed_Desc e)), (''kind'', JStr (ed_Kind e)), (''allotted'', enc_int (ed_Allotted e)),
     (''used'', enc_int (ed_Used e)), (''tag'', JStr (ed_Tag e)), (''contract_id'', enc_ptr (ed_ContractID e))]"

definition entry_json :: "entry_dto \<Rightarrow> json" where
  "entry_json e = JObj (entry_members e)"

definition entry_list_json :: "entry_list_dto \<Rightarrow> json" where
  "entry_list_json e = JObj (entry_members e @ [(''running_balance'', enc_int (ed_RunningBalance e))])"

definition contract_json :: "contract_dto \<Rightarrow> json" where
  "contract_json c = JObj [(''id'', enc_int (cd_ID c)), (''name'', JStr (cd_Name c)), (''number'', JStr (cd_Number c)),
     (''home_resort'', JStr (cd_HomeResort c)), (''annual_points'', enc_int (cd_AnnualPoints c)),
     (''use_year_month'', JStr (cd_UseYearMonth c))]"

definition summary_json :: "summary_dto \<Rightarrow> json" where
  "summary_json s = JObj [(''use_year'', enc_int (sd_UseYear s)), (''allotted'', enc_int (sd_Allotted s)),
     (''used'', enc_int (sd_Used s)), (''net'', enc_int (sd_Net s)), (''over_borrowed'', JBool (sd_OverBorrowed s))]"

text \<open>The body of an answer; a deletion has none.\<close>

fun writeJSON :: "api_response \<Rightarrow> string" where
  "writeJSON (ApiError n m) = Encode (JObj [(''error'', JStr m)])"
| "writeJSON (ApiEntry n e) = Encode (entry_json e)"
| "writeJSON (ApiEntries n es) = Encode (enc_list entry_json es)"
| "writeJSON (ApiEntryList n es) = Encode (enc_list entry_list_json es)"
| "writeJSON (ApiContract n c) = Encode (contract_json c)"
| "writeJSON (ApiContracts n cs) = Encode (enc_list contract_json cs)"
| "writeJSON (ApiSummaries n ss) = Encode (enc_list summary_json ss)"
| "writeJSON (ApiID n i) = Encode (JObj [(''id'', enc_int i)])"
| "writeJSON ApiNoContent = []"

section \<open>What the client reads\<close>

definition cl_entry_fields :: "(string \<times> cl_entry decoder) list" where
  "cl_entry_fields =
     [(''id'', on_field dec_int cle_ID cle_ID_update), (''use_year'', on_field dec_int cle_UseYear cle_UseYear_update),
      (''date'', on_field dec_str cle_Date cle_Date_update), (''description'', on_field dec_str cle_Desc cle_Desc_update),
      (''kind'', on_field dec_str cle_Kind cle_Kind_update), (''allotted'', on_field dec_int cle_Allotted cle_Allotted_update),
      (''used'', on_field dec_int cle_Used cle_Used_update), (''tag'', on_field dec_str cle_Tag cle_Tag_update),
      (''contract_id'', on_field dec_ptr cle_ContractID cle_ContractID_update),
      (''running_balance'', on_field dec_int cle_RunningBalance cle_RunningBalance_update)]"

definition zero_entry :: cl_entry where
  "zero_entry = \<lparr>cle_ID = 0, cle_UseYear = 0, cle_Date = [], cle_Desc = [], cle_Kind = [], cle_Allotted = 0, cle_Used = 0,
     cle_Tag = [], cle_ContractID = None, cle_RunningBalance = 0\<rparr>"

definition cl_contract_fields :: "(string \<times> cl_contract decoder) list" where
  "cl_contract_fields =
     [(''id'', on_field dec_int clc_ID clc_ID_update), (''name'', on_field dec_str clc_Name clc_Name_update),
      (''number'', on_field dec_str clc_Number clc_Number_update),
      (''home_resort'', on_field dec_str clc_HomeResort clc_HomeResort_update),
      (''annual_points'', on_field dec_int clc_AnnualPoints clc_AnnualPoints_update),
      (''use_year_month'', on_field dec_str clc_UseYearMonth clc_UseYearMonth_update)]"

definition no_contract :: cl_contract where
  "no_contract = \<lparr>clc_ID = 0, clc_Name = [], clc_Number = [], clc_HomeResort = [], clc_AnnualPoints = 0, clc_UseYearMonth = []\<rparr>"

definition cl_summary_fields :: "(string \<times> cl_summary decoder) list" where
  "cl_summary_fields =
     [(''use_year'', on_field dec_int cls_UseYear cls_UseYear_update), (''allotted'', on_field dec_int cls_Allotted cls_Allotted_update),
      (''used'', on_field dec_int cls_Used cls_Used_update), (''net'', on_field dec_int cls_Net cls_Net_update),
      (''over_borrowed'', on_field dec_bool cls_OverBorrowed cls_OverBorrowed_update)]"

definition no_summary :: cl_summary where
  "no_summary = \<lparr>cls_UseYear = 0, cls_Allotted = 0, cls_Used = 0, cls_Net = 0, cls_OverBorrowed = False\<rparr>"

definition read_as :: "'a decoder \<Rightarrow> 'a \<Rightarrow> string \<Rightarrow> 'a option" where
  "read_as d zero text = Option.bind (Decode text) (\<lambda>j. d j zero)"

definition read_entry :: "string \<Rightarrow> cl_entry option" where
  "read_entry = read_as (dec_struct cl_entry_fields) zero_entry"

definition read_entries :: "string \<Rightarrow> cl_entry list option" where
  "read_entries = read_as (dec_list (dec_struct cl_entry_fields) zero_entry) []"

definition read_contract :: "string \<Rightarrow> cl_contract option" where
  "read_contract = read_as (dec_struct cl_contract_fields) no_contract"

definition read_contracts :: "string \<Rightarrow> cl_contract list option" where
  "read_contracts = read_as (dec_list (dec_struct cl_contract_fields) no_contract) []"

definition read_summaries :: "string \<Rightarrow> cl_summary list option" where
  "read_summaries = read_as (dec_list (dec_struct cl_summary_fields) no_summary) []"

definition read_id :: "string \<Rightarrow> int option" where
  "read_id = read_as (dec_struct [(''id'', dec_int)]) 0"

text \<open>A decoder whose error is ignored: a value of another type leaves its field, no object leaves them all.\<close>

fun keep_members :: "(string \<times> 'a decoder) list \<Rightarrow> (string \<times> json) list \<Rightarrow> 'a \<Rightarrow> 'a" where
  "keep_members fs [] x = x"
| "keep_members fs ((k, v) # kvs) x =
     keep_members fs kvs (case field_of fs k of None \<Rightarrow> x | Some f \<Rightarrow> (case f v x of None \<Rightarrow> x | Some y \<Rightarrow> y))"

definition keep_struct :: "(string \<times> 'a decoder) list \<Rightarrow> json option \<Rightarrow> 'a \<Rightarrow> 'a" where
  "keep_struct fs j zero = (case j of Some (JObj kvs) \<Rightarrow> keep_members fs kvs zero | _ \<Rightarrow> zero)"

definition read_error :: "string \<Rightarrow> string" where
  "read_error text = keep_struct [(''error'', dec_str)] (Decode text) []"

section \<open>Requests of the client\<close>

definition entry_input_json :: "cl_entry_input \<Rightarrow> json" where
  "entry_input_json i = JObj [(''use_year'', enc_int (cli_UseYear i)), (''date'', JStr (cli_Date i)),
     (''description'', JStr (cli_Desc i)), (''kind'', JStr (cli_Kind i)), (''allotted'', enc_int (cli_Allotted i)),
     (''used'', enc_int (cli_Used i)), (''tag'', JStr (cli_Tag i)), (''contract_id'', enc_ptr (cli_ContractID i))]"

definition contract_input_json :: "cl_contract_input \<Rightarrow> json" where
  "contract_input_json c = JObj [(''name'', JStr (cci_Name c)), (''number'', JStr (cci_Number c)),
     (''home_resort'', JStr (cci_HomeResort c)), (''annual_points'', enc_int (cci_AnnualPoints c)),
     (''use_year_month'', JStr (cci_UseYearMonth c))]"

definition stay_input_json :: "cl_stay_input \<Rightarrow> json" where
  "stay_input_json s = JObj [(''resort'', JStr (csi_Resort s)), (''room_type'', JStr (csi_RoomType s)), (''view'', JStr (csi_View s)),
     (''check_in'', JStr (csi_CheckIn s)), (''check_out'', JStr (csi_CheckOut s)), (''points'', enc_int (csi_Points s)),
     (''entry_ids'', enc_slice enc_int (csi_EntryIDs s))]"

text \<open>Fields marked \<open>omitempty\<close> are left out when they are empty or zero.\<close>

definition trip_input_json :: "cl_trip_input \<Rightarrow> json" where
  "trip_input_json t = JObj ([(''name'', JStr (cti_Name t))]
     @ (if cti_StartDate t = [] then [] else [(''start_date'', JStr (cti_StartDate t))])
     @ (if cti_EndDate t = [] then [] else [(''end_date'', JStr (cti_EndDate t))])
     @ (if cti_MinNights t = 0 then [] else [(''min_nights'', enc_int (cti_MinNights t))])
     @ [(''stays'', enc_slice stay_input_json (cti_Stays t))])"

section \<open>What the server reads\<close>

definition entry_request_fields :: "(string \<times> entry_request_dto decoder) list" where
  "entry_request_fields =
     [(''use_year'', on_field dec_int er_UseYear er_UseYear_update), (''date'', on_field dec_str er_Date er_Date_update),
      (''description'', on_field dec_str er_Desc er_Desc_update), (''kind'', on_field dec_str er_Kind er_Kind_update),
      (''allotted'', on_field dec_int er_Allotted er_Allotted_update), (''used'', on_field dec_int er_Used er_Used_update),
      (''tag'', on_field dec_str er_Tag er_Tag_update), (''contract_id'', on_field dec_ptr er_ContractID er_ContractID_update)]"

definition zero_entry_request :: entry_request_dto where
  "zero_entry_request = \<lparr>er_UseYear = 0, er_Date = [], er_Desc = [], er_Kind = [], er_Allotted = 0, er_Used = 0, er_Tag = [],
     er_ContractID = None\<rparr>"

definition contract_dto_fields :: "(string \<times> contract_dto decoder) list" where
  "contract_dto_fields =
     [(''id'', on_field dec_int cd_ID cd_ID_update), (''name'', on_field dec_str cd_Name cd_Name_update),
      (''number'', on_field dec_str cd_Number cd_Number_update),
      (''home_resort'', on_field dec_str cd_HomeResort cd_HomeResort_update),
      (''annual_points'', on_field dec_int cd_AnnualPoints cd_AnnualPoints_update),
      (''use_year_month'', on_field dec_str cd_UseYearMonth cd_UseYearMonth_update)]"

definition zero_contract_dto :: contract_dto where
  "zero_contract_dto = \<lparr>cd_ID = 0, cd_Name = [], cd_Number = [], cd_HomeResort = [], cd_AnnualPoints = 0, cd_UseYearMonth = []\<rparr>"

definition import_stay_fields :: "(string \<times> import_stay_dto decoder) list" where
  "import_stay_fields =
     [(''resort'', on_field dec_str isd_Resort isd_Resort_update), (''room_type'', on_field dec_str isd_RoomType isd_RoomType_update),
      (''view'', on_field dec_str isd_View isd_View_update), (''check_in'', on_field dec_str isd_CheckIn isd_CheckIn_update),
      (''check_out'', on_field dec_str isd_CheckOut isd_CheckOut_update), (''points'', on_field dec_int isd_Points isd_Points_update),
      (''entry_ids'', on_field (dec_list dec_int 0) isd_EntryIDs isd_EntryIDs_update)]"

definition zero_import_stay :: import_stay_dto where
  "zero_import_stay = \<lparr>isd_Resort = [], isd_RoomType = [], isd_View = [], isd_CheckIn = [], isd_CheckOut = [], isd_Points = 0,
     isd_EntryIDs = []\<rparr>"

definition import_trip_fields :: "(string \<times> import_trip_dto decoder) list" where
  "import_trip_fields =
     [(''name'', on_field dec_str itd_Name itd_Name_update), (''start_date'', on_field dec_str itd_StartDate itd_StartDate_update),
      (''end_date'', on_field dec_str itd_EndDate itd_EndDate_update), (''min_nights'', on_field dec_int itd_MinNights itd_MinNights_update),
      (''stays'', on_field (dec_list (dec_struct import_stay_fields) zero_import_stay) itd_Stays itd_Stays_update)]"

definition zero_import_trip :: import_trip_dto where
  "zero_import_trip = \<lparr>itd_Name = [], itd_StartDate = [], itd_EndDate = [], itd_MinNights = 0, itd_Stays = []\<rparr>"

definition read_entry_body :: "string \<Rightarrow> entry_request_dto option" where
  "read_entry_body = read_as (dec_struct entry_request_fields) zero_entry_request"

definition read_contract_body :: "string \<Rightarrow> contract_dto option" where
  "read_contract_body = read_as (dec_struct contract_dto_fields) zero_contract_dto"

definition read_import_body :: "string \<Rightarrow> import_trip_dto option" where
  "read_import_body = read_as (dec_struct import_trip_fields) zero_import_trip"

section \<open>The two sides agree\<close>

definition entry_wire :: "'a entry_dto_scheme \<Rightarrow> bool" where
  "entry_wire e \<longleftrightarrow> list_all in64 [ed_ID e, ed_UseYear e, ed_Allotted e, ed_Used e] \<and>
     list_all valid_utf8 [ed_Date e, ed_Desc e, ed_Kind e, ed_Tag e] \<and> ptr64 (ed_ContractID e)"

definition contract_wire :: "contract_dto \<Rightarrow> bool" where
  "contract_wire c \<longleftrightarrow> list_all in64 [cd_ID c, cd_AnnualPoints c] \<and>
     list_all valid_utf8 [cd_Name c, cd_Number c, cd_HomeResort c, cd_UseYearMonth c]"

definition summary_wire :: "summary_dto \<Rightarrow> bool" where
  "summary_wire s \<longleftrightarrow> list_all in64 [sd_UseYear s, sd_Allotted s, sd_Used s, sd_Net s]"

fun answer_wire :: "api_response \<Rightarrow> bool" where
  "answer_wire (ApiError n m) = valid_utf8 m"
| "answer_wire (ApiEntry n e) = entry_wire e"
| "answer_wire (ApiEntries n es) = list_all entry_wire es"
| "answer_wire (ApiEntryList n es) = list_all (\<lambda>e. entry_wire e \<and> in64 (ed_RunningBalance e)) es"
| "answer_wire (ApiContract n c) = contract_wire c"
| "answer_wire (ApiContracts n cs) = list_all contract_wire cs"
| "answer_wire (ApiSummaries n ss) = list_all summary_wire ss"
| "answer_wire (ApiID n i) = in64 i"
| "answer_wire ApiNoContent = True"

definition entry_input_wire :: "cl_entry_input \<Rightarrow> bool" where
  "entry_input_wire i \<longleftrightarrow> list_all in64 [cli_UseYear i, cli_Allotted i, cli_Used i] \<and>
     list_all valid_utf8 [cli_Date i, cli_Desc i, cli_Kind i, cli_Tag i] \<and> ptr64 (cli_ContractID i)"

definition contract_input_wire :: "cl_contract_input \<Rightarrow> bool" where
  "contract_input_wire c \<longleftrightarrow> in64 (cci_AnnualPoints c) \<and>
     list_all valid_utf8 [cci_Name c, cci_Number c, cci_HomeResort c, cci_UseYearMonth c]"

definition stay_input_wire :: "cl_stay_input \<Rightarrow> bool" where
  "stay_input_wire s \<longleftrightarrow> list_all in64 (csi_Points s # csi_EntryIDs s) \<and>
     list_all valid_utf8 [csi_Resort s, csi_RoomType s, csi_View s, csi_CheckIn s, csi_CheckOut s]"

definition trip_input_wire :: "cl_trip_input \<Rightarrow> bool" where
  "trip_input_wire t \<longleftrightarrow> in64 (cti_MinNights t) \<and>
     list_all valid_utf8 [cti_Name t, cti_StartDate t, cti_EndDate t] \<and> list_all stay_input_wire (cti_Stays t)"

lemma wire_keys [simp]:
  "valid_utf8 ''id''" "valid_utf8 ''use_year''" "valid_utf8 ''date''" "valid_utf8 ''description''" "valid_utf8 ''kind''"
  "valid_utf8 ''allotted''" "valid_utf8 ''used''" "valid_utf8 ''tag''" "valid_utf8 ''contract_id''" "valid_utf8 ''running_balance''"
  "valid_utf8 ''name''" "valid_utf8 ''number''" "valid_utf8 ''home_resort''" "valid_utf8 ''annual_points''"
  "valid_utf8 ''use_year_month''" "valid_utf8 ''net''" "valid_utf8 ''over_borrowed''" "valid_utf8 ''error''"
  "valid_utf8 ''resort''" "valid_utf8 ''check_in''" "valid_utf8 ''check_out''" "valid_utf8 ''points''" "valid_utf8 ''entry_ids''"
  "valid_utf8 ''start_date''" "valid_utf8 ''end_date''" "valid_utf8 ''min_nights''" "valid_utf8 ''stays''"
  by (rule ascii_valid, simp)+

lemmas wire_simps = dec_struct_object field_of_def on_field_def

declare json_ok.simps(3) [simp del]

lemma entry_json_ok: "entry_wire e \<Longrightarrow> json_ok (entry_json e)"
  by (simp add: entry_wire_def entry_json_def entry_members_def)

lemma dec_entry: "entry_wire e \<Longrightarrow> dec_struct cl_entry_fields (entry_json e) zero_entry = Some (entry_of_dto e)"
  by (simp add: entry_wire_def entry_json_def entry_members_def wire_simps cl_entry_fields_def zero_entry_def entry_of_dto_def)

lemma entry_list_json_ok: "entry_wire e \<Longrightarrow> json_ok (entry_list_json e)"
  by (simp add: entry_wire_def entry_list_json_def entry_members_def)

lemma dec_entry_list:
  "entry_wire e \<Longrightarrow> in64 (ed_RunningBalance e) \<Longrightarrow>
     dec_struct cl_entry_fields (entry_list_json e) zero_entry = Some (entry_of_list_dto e)"
  by (simp add: entry_wire_def entry_list_json_def entry_members_def wire_simps cl_entry_fields_def zero_entry_def
      entry_of_dto_def entry_of_list_dto_def)

lemma contract_json_ok: "contract_wire c \<Longrightarrow> json_ok (contract_json c)"
  by (simp add: contract_wire_def contract_json_def)

lemma dec_contract: "contract_wire c \<Longrightarrow> dec_struct cl_contract_fields (contract_json c) no_contract = Some (contract_of_dto c)"
  by (simp add: contract_wire_def contract_json_def wire_simps cl_contract_fields_def zero_contract_def contract_of_dto_def)

lemma summary_json_ok: "json_ok (summary_json s)"
  by (simp add: summary_json_def)

lemma dec_summary: "summary_wire s \<Longrightarrow> dec_struct cl_summary_fields (summary_json s) no_summary = Some (summary_of_dto s)"
  by (simp add: summary_wire_def summary_json_def wire_simps cl_summary_fields_def zero_summary_def summary_of_dto_def)

lemma read_encoded: "json_ok j \<Longrightarrow> read_as d zero (Encode j) = d j zero"
  by (simp add: read_as_def Decode_Encode)

lemma read_marshalled: "json_ok j \<Longrightarrow> read_as d zero (Marshal j) = d j zero"
  by (simp add: read_as_def Decode_Marshal)

text \<open>Answers, by the type the client asks for.\<close>

lemma entry_answer: "answer_wire r \<Longrightarrow> as_entry (Api r) \<noteq> None \<Longrightarrow> read_entry (writeJSON r) = as_entry (Api r)"
  by (cases r) (simp_all add: read_entry_def read_encoded entry_json_ok dec_entry)

lemma entries_answer: "answer_wire r \<Longrightarrow> as_entries (Api r) \<noteq> None \<Longrightarrow> read_entries (writeJSON r) = as_entries (Api r)"
  by (cases r) (simp_all add: read_entries_def read_encoded enc_list_ok list_all_iff entry_json_ok entry_list_json_ok
      dec_list_enc dec_entry dec_entry_list)

lemma contract_answer: "answer_wire r \<Longrightarrow> as_contract (Api r) \<noteq> None \<Longrightarrow> read_contract (writeJSON r) = as_contract (Api r)"
  by (cases r) (simp_all add: read_contract_def read_encoded contract_json_ok dec_contract)

lemma contracts_answer: "answer_wire r \<Longrightarrow> as_contracts (Api r) \<noteq> None \<Longrightarrow> read_contracts (writeJSON r) = as_contracts (Api r)"
  by (cases r) (simp_all add: read_contracts_def read_encoded enc_list_ok list_all_iff contract_json_ok dec_list_enc dec_contract)

lemma summaries_answer: "answer_wire r \<Longrightarrow> as_summaries (Api r) \<noteq> None \<Longrightarrow> read_summaries (writeJSON r) = as_summaries (Api r)"
  by (cases r) (simp_all add: read_summaries_def read_encoded enc_list_ok list_all_iff summary_json_ok dec_list_enc dec_summary)

lemma id_answer: "answer_wire r \<Longrightarrow> as_id (Api r) \<noteq> None \<Longrightarrow> read_id (writeJSON r) = as_id (Api r)"
  by (cases r) (simp_all add: read_id_def read_encoded dec_struct_object field_of_def)

lemma error_answer: "valid_utf8 m \<Longrightarrow> read_error (writeJSON (ApiError n m)) = m"
  by (simp add: read_error_def Decode_Encode keep_struct_def field_of_def)

text \<open>Requests.\<close>

lemma entry_request: "entry_input_wire i \<Longrightarrow> read_entry_body (Marshal (entry_input_json i)) = Some (entry_body i)"
  by (simp add: entry_input_wire_def entry_input_json_def read_entry_body_def read_marshalled wire_simps
      entry_request_fields_def zero_entry_request_def entry_body_def)

lemma contract_request: "contract_input_wire c \<Longrightarrow> read_contract_body (Marshal (contract_input_json c)) = Some (contract_body c)"
  by (simp add: contract_input_wire_def contract_input_json_def read_contract_body_def read_marshalled wire_simps
      contract_dto_fields_def zero_contract_dto_def contract_body_def)

lemma stay_json_ok: "stay_input_wire s \<Longrightarrow> json_ok (stay_input_json s)"
  by (simp add: stay_input_wire_def stay_input_json_def slice_json_ok)

lemma dec_stay: "stay_input_wire s \<Longrightarrow> dec_struct import_stay_fields (stay_input_json s) zero_import_stay = Some (stay_body s)"
  by (simp add: stay_input_wire_def stay_input_json_def wire_simps import_stay_fields_def zero_import_stay_def stay_body_def
      list_all_iff dec_list_slice)

lemma trip_request: "trip_input_wire t \<Longrightarrow> read_import_body (Marshal (trip_input_json t)) = Some (trip_body t)"
  by (simp add: trip_input_wire_def trip_input_json_def read_import_body_def read_marshalled dec_struct_object field_of_def
      on_field_def import_trip_fields_def zero_import_trip_def trip_body_def slice_json_ok stay_json_ok list_all_iff
      dec_list_slice_to dec_stay)


lemma none_or_same: "(x \<noteq> None \<Longrightarrow> y = x) \<Longrightarrow> x \<in> {None, y}"
  by (cases "x = None") simp_all

text \<open>C22: Client and server mean the same by their texts, although they declare their types apart: every answer
  the interface gives, whose strings are text and whose numbers fit 64 bits, is read by the client as the
  value of the type it asked for, field by field, and the message of an error is the server's; and every
  body the client sends, with the fields it omits, is read by the server as the request meant.\<close>

theorem wire_agrees:
  assumes "answer_wire r" and "entry_input_wire i" and "contract_input_wire c" and "trip_input_wire t"
  shows "as_entry (Api r) \<in> {None, read_entry (writeJSON r)} \<and> as_entries (Api r) \<in> {None, read_entries (writeJSON r)} \<and>
    as_contract (Api r) \<in> {None, read_contract (writeJSON r)} \<and> as_contracts (Api r) \<in> {None, read_contracts (writeJSON r)} \<and>
    as_summaries (Api r) \<in> {None, read_summaries (writeJSON r)} \<and> as_id (Api r) \<in> {None, read_id (writeJSON r)} \<and>
    (\<forall>n m. r = ApiError n m \<longrightarrow> read_error (writeJSON r) = m) \<and>
    read_entry_body (Marshal (entry_input_json i)) = Some (entry_body i) \<and>
    read_contract_body (Marshal (contract_input_json c)) = Some (contract_body c) \<and>
    read_import_body (Marshal (trip_input_json t)) = Some (trip_body t)"
proof -
  have "\<forall>n m. r = ApiError n m \<longrightarrow> read_error (writeJSON r) = m" using assms(1) error_answer by auto
  then show ?thesis
    using entry_answer [OF assms(1)] entries_answer [OF assms(1)] contract_answer [OF assms(1)]
      contracts_answer [OF assms(1)] summaries_answer [OF assms(1)] id_answer [OF assms(1)]
      entry_request [OF assms(2)] contract_request [OF assms(3)] trip_request [OF assms(4)]
    by (intro conjI none_or_same) blast+
qed

definition sample_wire_entry :: entry_list_dto where
  "sample_wire_entry = \<lparr>ed_ID = 7, ed_UseYear = 2026, ed_Date = ''2026-04-01'', ed_Desc = ''\"Spring\" & <more>'', ed_Kind = ''usage'',
     ed_Allotted = 0, ed_Used = 60, ed_Tag = [], ed_ContractID = Some 1, ed_RunningBalance = -5\<rparr>"

definition sample_wire_trip :: cl_trip_input where
  "sample_wire_trip = \<lparr>cti_Name = ''Spring'', cti_StartDate = [], cti_EndDate = ''2026-04-08'', cti_MinNights = 0,
     cti_Stays = [\<lparr>csi_Resort = ''Grand'', csi_RoomType = ''STUDIO'', csi_View = [], csi_CheckIn = ''2026-04-01'',
       csi_CheckOut = ''2026-04-03'', csi_Points = 60, csi_EntryIDs = []\<rparr>]\<rparr>"

theorem wire_agrees_witness:
  "as_entries (Api (ApiEntryList 200 [sample_wire_entry])) = read_entries (writeJSON (ApiEntryList 200 [sample_wire_entry])) \<and>
   read_import_body (Marshal (trip_input_json sample_wire_trip)) = Some (trip_body sample_wire_trip)"
proof -
  let ?i = "\<lparr>cli_UseYear = 0, cli_Date = ''2026-04-01'', cli_Desc = ''Spring'', cli_Kind = [], cli_Allotted = 0,
     cli_Used = 60, cli_Tag = [], cli_ContractID = None\<rparr>"
  let ?c = "\<lparr>cci_Name = ''Main'', cci_Number = [], cci_HomeResort = ''VGF'', cci_AnnualPoints = 150, cci_UseYearMonth = ''Apr''\<rparr>"
  have answer: "answer_wire (ApiEntryList 200 [sample_wire_entry])" by code_simp
  have requests: "entry_input_wire ?i" "contract_input_wire ?c" "trip_input_wire sample_wire_trip" by code_simp+
  from wire_agrees [OF answer requests] show ?thesis by simp
qed

section \<open>Files of the client\<close>

text \<open>\<open>client.json\<close>, read as far as it can be, and the file of trips to import.\<close>

definition file_fields :: "(string \<times> client_config decoder) list" where
  "file_fields =
     [(''server_url'', on_field dec_str cc_ServerURL cc_ServerURL_update), (''token'', on_field dec_str cc_Token cc_Token_update)]"

definition file_config :: "string option \<Rightarrow> client_config" where
  "file_config text = keep_struct file_fields (Option.bind text Unmarshal) \<lparr>cc_ServerURL = [], cc_Token = []\<rparr>"

definition cl_stay_fields :: "(string \<times> cl_stay_input decoder) list" where
  "cl_stay_fields =
     [(''resort'', on_field dec_str csi_Resort csi_Resort_update), (''room_type'', on_field dec_str csi_RoomType csi_RoomType_update),
      (''view'', on_field dec_str csi_View csi_View_update), (''check_in'', on_field dec_str csi_CheckIn csi_CheckIn_update),
      (''check_out'', on_field dec_str csi_CheckOut csi_CheckOut_update), (''points'', on_field dec_int csi_Points csi_Points_update),
      (''entry_ids'', on_field (dec_list dec_int 0) csi_EntryIDs csi_EntryIDs_update)]"

definition cl_trip_fields :: "(string \<times> cl_trip_input decoder) list" where
  "cl_trip_fields =
     [(''name'', on_field dec_str cti_Name cti_Name_update), (''start_date'', on_field dec_str cti_StartDate cti_StartDate_update),
      (''end_date'', on_field dec_str cti_EndDate cti_EndDate_update), (''min_nights'', on_field dec_int cti_MinNights cti_MinNights_update),
      (''stays'', on_field (dec_list (dec_struct cl_stay_fields)
         \<lparr>csi_Resort = [], csi_RoomType = [], csi_View = [], csi_CheckIn = [], csi_CheckOut = [], csi_Points = 0, csi_EntryIDs = []\<rparr>)
         cti_Stays cti_Stays_update)]"

definition Unmarshal_trips :: "string \<Rightarrow> cl_trip_input list option" where
  "Unmarshal_trips text = Option.bind (Unmarshal text) (\<lambda>j. dec_list (dec_struct cl_trip_fields)
     \<lparr>cti_Name = [], cti_StartDate = [], cti_EndDate = [], cti_MinNights = 0, cti_Stays = []\<rparr> j [])"


end
