(* ===== verification/Flags.thy ===== *)
theory Flags
  imports Strconv "HOL-Library.Sublist"
begin

text \<open>
  What the commands use of the standard library's \<open>flag\<close> package: a flag set is its list of flags with
  their defaults, \<open>Parse\<close> takes the arguments up to the first that is not a flag, and a flag's value is
  the last one given, else its default.  Integer flags are read by \<open>ParseInt(s, 0, 64)\<close>, which knows
  the prefixes \<open>0x\<close>, \<open>0o\<close>, \<open>0b\<close> and \<open>0\<close> and underscores between digits.
\<close>

section \<open>\<open>ParseInt(s, 0, 64)\<close>\<close>

definition digit_in :: "nat \<Rightarrow> char \<Rightarrow> nat option" where
  "digit_in base c = (let n = of_char c :: nat;
       d = (if 48 \<le> n \<and> n \<le> 57 then Some (n - 48) else if 97 \<le> n \<and> n \<le> 122 then Some (n - 87)
            else if 65 \<le> n \<and> n \<le> 90 then Some (n - 55) else None)
     in case d of None \<Rightarrow> None | Some v \<Rightarrow> if v < base then Some v else None)"

fun digits_in :: "nat \<Rightarrow> nat \<Rightarrow> string \<Rightarrow> nat option" where
  "digits_in base v [] = Some v"
| "digits_in base v (c # s) =
     (if c = CHR ''_'' then digits_in base v s
      else case digit_in base c of None \<Rightarrow> None | Some d \<Rightarrow> digits_in base (v * base + d) s)"

definition base_prefix :: "string \<Rightarrow> nat \<times> string" where
  "base_prefix s =
     (if s \<noteq> [] \<and> hd s = CHR ''0'' then
        (if length s \<ge> 3 \<and> s ! 1 \<in> {CHR ''b'', CHR ''B''} then (2, drop 2 s)
         else if length s \<ge> 3 \<and> s ! 1 \<in> {CHR ''o'', CHR ''O''} then (8, drop 2 s)
         else if length s \<ge> 3 \<and> s ! 1 \<in> {CHR ''x'', CHR ''X''} then (16, drop 2 s)
         else (8, tl s))
      else (10, s))"

text \<open>An underscore must stand between digits, or between a base prefix and a digit.\<close>

fun underscores_ok :: "bool \<Rightarrow> char \<Rightarrow> string \<Rightarrow> bool" where
  "underscores_ok hex saw [] \<longleftrightarrow> saw \<noteq> CHR ''_''"
| "underscores_ok hex saw (c # s) \<longleftrightarrow>
     (if digit_in 10 c \<noteq> None \<or> hex \<and> digit_in 16 c \<noteq> None then underscores_ok hex (CHR ''0'') s
      else if c = CHR ''_'' then saw = CHR ''0'' \<and> underscores_ok hex (CHR ''_'') s
      else saw \<noteq> CHR ''_'' \<and> underscores_ok hex (CHR ''!'') s)"

definition underscoreOK :: "string \<Rightarrow> bool" where
  "underscoreOK s =
     (if length s \<ge> 2 \<and> hd s = CHR ''0'' \<and> s ! 1 \<in> {CHR ''b'', CHR ''B'', CHR ''o'', CHR ''O'', CHR ''x'', CHR ''X''}
      then underscores_ok (s ! 1 \<in> {CHR ''x'', CHR ''X''}) (CHR ''0'') (drop 2 s)
      else underscores_ok False (CHR ''^'') s)"

definition ParseUint0 :: "string \<Rightarrow> nat option" where
  "ParseUint0 s =
     (if s = [] then None
      else if CHR ''_'' \<in> set s \<and> \<not> underscoreOK s then None
      else (let (base, ds) = base_prefix s in digits_in base 0 ds))"

definition ParseInt0 :: "string \<Rightarrow> int option" where
  "ParseInt0 s = (let (neg, ds) = (case s of
       c # cs \<Rightarrow> if c = CHR ''-'' then (True, cs) else if c = CHR ''+'' then (False, cs) else (False, s)
     | [] \<Rightarrow> (False, s)) in
     case ParseUint0 ds of None \<Rightarrow> None
     | Some n \<Rightarrow> let x = (if neg then - int n else int n) in if in64 x then Some x else None)"

section \<open>Flag sets\<close>

datatype flag_value = FString string | FInt int | FBool bool

type_synonym flag_set = "(string \<times> flag_value) list"

datatype flag_error = FlagHelp | FlagSyntax string | FlagUndefined string | FlagNeedsArg string | FlagInvalid string

definition ParseBool :: "string \<Rightarrow> bool option" where
  "ParseBool s =
     (if s \<in> {''1'', ''t'', ''T'', ''TRUE'', ''true'', ''True''} then Some True
      else if s \<in> {''0'', ''f'', ''F'', ''FALSE'', ''false'', ''False''} then Some False else None)"

text \<open>The kind of a flag is that of its default.\<close>

fun flag_Set :: "flag_value \<Rightarrow> string \<Rightarrow> flag_value option" where
  "flag_Set (FString _) s = Some (FString s)"
| "flag_Set (FInt _) s = map_option FInt (ParseInt0 s)"
| "flag_Set (FBool _) s = map_option FBool (ParseBool s)"

fun is_bool_flag :: "flag_value \<Rightarrow> bool" where
  "is_bool_flag (FBool _) = True"
| "is_bool_flag _ = False"

text \<open>One flag argument: its name, and its value when it has one after \<open>=\<close>.\<close>

definition flag_name :: "string \<Rightarrow> string \<times> string option" where
  "flag_name s = (case Cut (tl s) (CHR ''='') of (n, v, found) \<Rightarrow> (hd s # n, if found then Some v else None))"

definition set_flag ::
    "string \<Rightarrow> flag_value \<Rightarrow> string \<Rightarrow> flag_set \<Rightarrow> string list \<Rightarrow> flag_error + (bool \<times> flag_set \<times> string list)" where
  "set_flag name kind v actual args =
     (case flag_Set kind v of None \<Rightarrow> Inl (FlagInvalid name) | Some x \<Rightarrow> Inr (True, actual @ [(name, x)], args))"

text \<open>\<open>parseOne\<close>: whether a flag was read, the values set so far and the arguments left.\<close>

definition parseOne :: "flag_set \<Rightarrow> string list \<Rightarrow> flag_set \<Rightarrow> flag_error + (bool \<times> flag_set \<times> string list)" where
  "parseOne formal arguments actual =
     (case arguments of [] \<Rightarrow> Inr (False, actual, [])
      | s # args \<Rightarrow>
     if length s < 2 \<or> hd s \<noteq> CHR ''-'' then Inr (False, actual, s # args)
     else if s = ''--'' then Inr (False, actual, args)
     else (let body = (if s ! 1 = CHR ''-'' then drop 2 s else tl s); (name, given) = flag_name body in
       if hd body = CHR ''-'' \<or> hd body = CHR ''='' then Inl (FlagSyntax s)
       else (case map_of formal name of
          None \<Rightarrow> Inl (if name = ''help'' \<or> name = ''h'' then FlagHelp else FlagUndefined name)
        | Some kind \<Rightarrow>
           (case given of
              Some v \<Rightarrow> set_flag name kind v actual args
            | None \<Rightarrow>
                if is_bool_flag kind then Inr (True, actual @ [(name, FBool True)], args)
                else (case args of [] \<Rightarrow> Inl (FlagNeedsArg name)
                  | v # args' \<Rightarrow> set_flag name kind v actual args')))))"

lemma set_flag_Inr:
  "set_flag name kind v actual args = Inr (seen, actual', args') \<longleftrightarrow>
     (\<exists>x. flag_Set kind v = Some x \<and> seen \<and> actual' = actual @ [(name, x)] \<and> args' = args)"
  by (auto simp: set_flag_def split: option.split)

lemma parseOne_shorter:
  "parseOne formal args actual = Inr (True, actual', args') \<Longrightarrow> length args' < length args"
  by (auto simp: parseOne_def Let_def set_flag_Inr split: list.splits if_splits prod.splits option.splits)

function parse_flags :: "flag_set \<Rightarrow> string list \<Rightarrow> flag_set \<Rightarrow> flag_error + (flag_set \<times> string list)" where
  "parse_flags formal args actual =
     (case parseOne formal args actual of
        Inl e \<Rightarrow> Inl e
      | Inr (seen, actual', args') \<Rightarrow> if seen then parse_flags formal args' actual' else Inr (actual', args'))"
  by pat_completeness auto
termination by (relation "measure (\<lambda>(_, args, _). length args)") (auto dest: parseOne_shorter)

declare parse_flags.simps [simp del]

record parsed_flags =
  pf_formal :: flag_set
  pf_actual :: flag_set
  pf_Args :: "string list"

definition flag_Parse :: "flag_set \<Rightarrow> string list \<Rightarrow> flag_error + parsed_flags" where
  "flag_Parse formal args = (case parse_flags formal args [] of
      Inl e \<Rightarrow> Inl e
    | Inr (actual, rest) \<Rightarrow> Inr \<lparr>pf_formal = formal, pf_actual = actual, pf_Args = rest\<rparr>)"

definition flag_given :: "parsed_flags \<Rightarrow> string \<Rightarrow> bool" where
  "flag_given p name \<longleftrightarrow> name \<in> fst ` set (pf_actual p)"

definition flag_lookup :: "parsed_flags \<Rightarrow> string \<Rightarrow> flag_value option" where
  "flag_lookup p name = (case map_of (rev (pf_actual p)) name of
      Some v \<Rightarrow> Some v | None \<Rightarrow> map_of (pf_formal p) name)"

definition str_flag :: "parsed_flags \<Rightarrow> string \<Rightarrow> string" where
  "str_flag p name = (case flag_lookup p name of Some (FString s) \<Rightarrow> s | _ \<Rightarrow> [])"

definition int_flag :: "parsed_flags \<Rightarrow> string \<Rightarrow> int" where
  "int_flag p name = (case flag_lookup p name of Some (FInt x) \<Rightarrow> x | _ \<Rightarrow> 0)"

definition bool_flag :: "parsed_flags \<Rightarrow> string \<Rightarrow> bool" where
  "bool_flag p name = (case flag_lookup p name of Some (FBool b) \<Rightarrow> b | _ \<Rightarrow> False)"

section \<open>Where the values of flags come from\<close>

lemma Cut_suffix: "Cut s c = (a, b, True) \<Longrightarrow> suffix b s"
proof -
  have "suffix (tl (dropWhile (\<lambda>x. x \<noteq> c) s)) s"
    by (rule suffix_order.trans [OF suffix_tl suffix_dropWhile])
  then show "Cut s c = (a, b, True) \<Longrightarrow> ?thesis" by (auto simp: Cut_def split: if_splits)
qed

lemma suffix_of_tl: "suffix v (tl s) \<Longrightarrow> suffix v s"
  by (rule suffix_order.trans [OF _ suffix_tl])

lemma suffix_of_drop: "suffix v (drop n s) \<Longrightarrow> suffix v s"
  by (rule suffix_order.trans [OF _ suffix_drop])

lemma flag_name_value: "flag_name s = (n, Some v) \<Longrightarrow> suffix v s"
  by (auto simp: flag_name_def split: prod.splits if_splits dest!: Cut_suffix intro: suffix_of_tl)

lemma flag_Set_string: "flag_Set k s = Some (FString t) \<Longrightarrow> t = s"
  by (cases k) auto

definition from_args :: "string list \<Rightarrow> flag_set \<Rightarrow> flag_set \<Rightarrow> bool" where
  "from_args args actual actual' \<longleftrightarrow>
     (\<forall>n s. (n, FString s) \<in> set actual' \<longrightarrow> (n, FString s) \<in> set actual \<or> (\<exists>a \<in> set args. suffix s a))"

lemma set_flag_from:
  assumes "set_flag name k v actual args' = Inr (seen, actual', rest)" and "suffix v a" and "a \<in> set args"
  shows "from_args args actual actual'"
  using assms by (auto simp: set_flag_Inr from_args_def dest!: flag_Set_string)

lemma parseOne_from:
  assumes "parseOne formal args actual = Inr (seen, actual', args')"
  shows "from_args args actual actual' \<and> set args' \<subseteq> set args"
proof (cases args)
  case Nil
  then show ?thesis using assms by (simp add: parseOne_def from_args_def)
next
  case (Cons s as)
  show ?thesis
  proof (cases "length s < 2 \<or> hd s \<noteq> CHR ''-'' \<or> s = ''--''")
    case True
    with assms Cons show ?thesis by (auto simp: parseOne_def from_args_def split: if_splits)
  next
    case False
    let ?body = "if s ! 1 = CHR ''-'' then drop 2 s else tl s"
    obtain n v where n: "flag_name ?body = (n, v)" by fastforce
    note step = assms [unfolded parseOne_def Let_def Cons list.case n prod.case]
    obtain kind where kind: "map_of formal n = Some kind"
      using step False by (cases "map_of formal n") (auto split: if_splits)
    have body: "suffix t s" if "suffix t ?body" for t
      using that by (auto split: if_splits intro: suffix_of_tl suffix_of_drop)
    show ?thesis
    proof (cases v)
      case (Some t)
      then have "set_flag n kind t actual as = Inr (seen, actual', args')"
        using step False kind by (auto split: if_splits)
      moreover have "suffix t s" using body [OF flag_name_value [OF n [unfolded Some]]] by simp
      ultimately show ?thesis
        using Cons set_flag_from [of n kind t actual as seen actual' args' s args] by (auto simp: set_flag_Inr)
    next
      case None
      show ?thesis
      proof (cases "is_bool_flag kind \<or> as = []")
        case True
        then show ?thesis using step False kind None Cons by (auto simp: from_args_def split: if_splits)
      next
        case args: False
        then obtain t as' where as: "as = t # as'" by (cases as) auto
        then have "set_flag n kind t actual as' = Inr (seen, actual', args')"
          using step False kind None args by (auto split: if_splits)
        then show ?thesis
          using Cons as set_flag_from [of n kind t actual as' seen actual' args' t args] by (auto simp: set_flag_Inr)
      qed
    qed
  qed
qed

text \<open>A string flag's value is a tail of an argument: all of it, or what follows its \<open>=\<close>.\<close>

lemma parse_flags_from:
  "parse_flags formal args actual = Inr (actual', rest) \<Longrightarrow> from_args args actual actual' \<and> set rest \<subseteq> set args"
proof (induction formal args actual arbitrary: actual' rest rule: parse_flags.induct)
  case (1 formal args actual)
  show ?case
  proof (cases "parseOne formal args actual")
    case (Inl e)
    then show ?thesis using "1.prems" by (simp add: parse_flags.simps [of formal args])
  next
    case (Inr r)
    then obtain seen actual1 args1 where one: "parseOne formal args actual = Inr (seen, actual1, args1)"
      by (cases r) auto
    show ?thesis
    proof (cases seen)
      case True
      then have "from_args args1 actual1 actual' \<and> set rest \<subseteq> set args1"
        using "1.IH" [OF one refl refl True] "1.prems" one by (simp add: parse_flags.simps [of formal args])
      with parseOne_from [OF one] show ?thesis unfolding from_args_def by blast
    next
      case False
      then show ?thesis using parseOne_from [OF one] "1.prems" one by (simp add: parse_flags.simps [of formal args])
    qed
  qed
qed

lemma str_flag_from:
  assumes "flag_Parse formal args = Inr p"
  shows "str_flag p n = [] \<or> map_of formal n = Some (FString (str_flag p n)) \<or> (\<exists>a \<in> set args. suffix (str_flag p n) a)"
proof -
  obtain actual rest where p: "parse_flags formal args [] = Inr (actual, rest)"
    "p = \<lparr>pf_formal = formal, pf_actual = actual, pf_Args = rest\<rparr>"
    using assms by (auto simp: flag_Parse_def split: sum.splits)
  have "from_args args [] actual" using parse_flags_from [OF p(1)] by blast
  moreover have "(n, FString s) \<in> set actual" if "map_of (rev actual) n = Some (FString s)" for s
    using map_of_SomeD [OF that] by simp
  ultimately show ?thesis
    by (auto simp: str_flag_def flag_lookup_def p(2) from_args_def split: option.splits flag_value.splits)
qed

section \<open>Reading back what is given\<close>

lemma digit_not_underscore: "is_digit c \<Longrightarrow> c \<noteq> CHR ''_''"
  by (auto simp: is_digit_def digit_val_def)

lemma digit_in_ten: "digit_val c = Some d \<Longrightarrow> digit_in 10 c = Some d"
  by (auto simp: digit_val_def digit_in_def Let_def split: if_splits)

lemma digits_in_ten: "list_all is_digit s \<Longrightarrow> digits_in 10 v s = Some (v * 10 ^ length s + dec_val s)"
proof (induction s arbitrary: v)
  case Nil
  then show ?case by (simp add: dec_val_def)
next
  case (Cons c s)
  then obtain d where d: "digit_val c = Some d" by (auto simp: is_digit_def)
  have "dec_val (c # s) = d * 10 ^ length s + dec_val s"
    using dec_val_append [of "[c]" s] d by (simp add: dec_val_def)
  moreover have "c \<noteq> CHR ''_''" using Cons.prems by (simp add: digit_not_underscore)
  ultimately show ?case using Cons digit_in_ten [OF d] by (simp add: algebra_simps)
qed

lemma hd_dec: "0 < n \<Longrightarrow> hd (dec n) \<noteq> CHR ''0''"
proof (induction n rule: dec.induct)
  case (1 n)
  show ?case
  proof (cases "n < 10")
    case True
    then show ?thesis using "1.prems" digit_cases [of n] by (auto simp: dec.simps [of n] digit_def)
  next
    case False
    then have "hd (dec (n div 10)) \<noteq> CHR ''0''" using "1.IH" by simp
    then show ?thesis using False by (simp add: dec.simps [of n])
  qed
qed

lemma ParseUint0_dec: "ParseUint0 (dec n) = Some n"
proof -
  have u: "CHR ''_'' \<notin> set (dec n)"
    using dec_digits [of "CHR ''_''" n] digit_not_underscore by blast
  show ?thesis
  proof (cases "n = 0")
    case True
    then show ?thesis by (simp add: ParseUint0_def base_prefix_def dec.simps [of 0] digit_def)
  next
    case False
    then show ?thesis using u hd_dec [of n] by (simp add: ParseUint0_def base_prefix_def digits_in_ten)
  qed
qed

lemma ParseInt0_fmt_d: "in64 x \<Longrightarrow> ParseInt0 (fmt_d x) = Some x"
proof (cases "x < 0")
  case True
  assume "in64 x"
  with True show ?thesis by (simp add: ParseInt0_def fmt_d_def ParseUint0_dec)
next
  case False
  assume "in64 x"
  obtain c s where c: "dec (nat x) = c # s" by (cases "dec (nat x)") auto
  have "c \<noteq> CHR ''-'' \<and> c \<noteq> CHR ''+''" using dec_digits [of c "nat x"] c by (auto dest: is_digit_not_sign)
  with False \<open>in64 x\<close> show ?thesis using ParseUint0_dec [of "nat x"] by (simp add: ParseInt0_def fmt_d_def c)
qed

text \<open>The four ways to write a flag: one dash or two, its value joined with \<open>=\<close> or as the next argument.\<close>

record flag_style =
  two_dashes :: bool
  joined :: bool

fun value_text :: "flag_value \<Rightarrow> string" where
  "value_text (FString s) = s"
| "value_text (FInt x) = fmt_d x"
| "value_text (FBool b) = (if b then ''true'' else ''false'')"

definition flag_words :: "flag_style \<times> string \<times> flag_value \<Rightarrow> string list" where
  "flag_words = (\<lambda>(st, n, v).
     (let word = (if two_dashes st then ''--'' else ''-'') @ n in
      if joined st then [word @ ''='' @ value_text v] else [word, value_text v]))"

definition flag_ok :: "flag_set \<Rightarrow> flag_style \<times> string \<times> flag_value \<Rightarrow> bool" where
  "flag_ok formal = (\<lambda>(st, n, v). n \<noteq> [] \<and> hd n \<noteq> CHR ''-'' \<and> CHR ''='' \<notin> set n \<and>
     (case (map_of formal n, v) of
        (Some (FString _), FString s) \<Rightarrow> True
      | (Some (FInt _), FInt x) \<Rightarrow> in64 x
      | (Some (FBool _), FBool b) \<Rightarrow> joined st
      | _ \<Rightarrow> False))"

lemma flag_Set_text:
  assumes "flag_ok formal (st, n, v)"
  shows "\<exists>k. map_of formal n = Some k \<and> flag_Set k (value_text v) = Some v \<and> (is_bool_flag k \<longrightarrow> joined st)"
  using assms
  by (auto simp: flag_ok_def ParseInt0_fmt_d ParseBool_def split: option.splits flag_value.splits)

lemma flag_name_joined: "n \<noteq> [] \<Longrightarrow> CHR ''='' \<notin> set n \<Longrightarrow> flag_name (n @ CHR ''='' # t) = (n, Some t)"
  by (cases n) (simp_all add: flag_name_def Cut_found)

lemma flag_name_alone: "n \<noteq> [] \<Longrightarrow> CHR ''='' \<notin> set n \<Longrightarrow> flag_name n = (n, None)"
  by (cases n) (simp_all add: flag_name_def Cut_not_found)

lemma parseOne_words:
  assumes "flag_ok formal a"
  shows "parseOne formal (flag_words a @ args) actual = Inr (True, actual @ [snd a], args)"
proof -
  obtain st n v where a: "a = (st, n, v)" by (cases a)
  have n: "n \<noteq> []" "hd n \<noteq> CHR ''-''" "CHR ''='' \<notin> set n" using assms by (auto simp: a flag_ok_def)
  have "hd n \<in> set n" using n(1) by simp
  then have n4: "hd n \<noteq> CHR ''=''" using n(3) by metis
  obtain k where k: "map_of formal n = Some k" "flag_Set k (value_text v) = Some v" "is_bool_flag k \<longrightarrow> joined st"
    using flag_Set_text assms unfolding a by blast
  obtain c m where cm: "n = c # m" using n(1) by (cases n) auto
  note names = flag_name_joined [OF n(1,3)] flag_name_alone [OF n(1,3)]
  show ?thesis
    using n n4 k names
    by (cases "two_dashes st"; cases "joined st")
      (simp_all add: a flag_words_def parseOne_def cm set_flag_def Let_def)
qed

text \<open>Reading the flags of a command line gives back exactly what was written: every flag of the set,
  in any of the four spellings and any order and number, with any string and any 64-bit integer as its
  value (also one that looks like a flag), is assigned that value, and the arguments from the first that
  is not a flag are left over.\<close>

lemma parse_written:
  assumes "\<forall>a \<in> set as. flag_ok formal a" and "rest = [] \<or> length (hd rest) < 2 \<or> hd (hd rest) \<noteq> CHR ''-''"
  shows "flag_Parse formal (concat (map flag_words as) @ rest) =
    Inr \<lparr>pf_formal = formal, pf_actual = map snd as, pf_Args = rest\<rparr>"
proof -
  have "parse_flags formal (concat (map flag_words as) @ rest) actual = Inr (actual @ map snd as, rest)" for actual
    using assms(1)
  proof (induction as arbitrary: actual)
    case Nil
    have "parseOne formal rest actual = Inr (False, actual, rest)"
      using assms(2) by (cases rest) (auto simp: parseOne_def)
    then show ?case by (simp add: parse_flags.simps [of formal rest])
  next
    case (Cons a as)
    then show ?case
      using parseOne_words [of formal a "concat (map flag_words as) @ rest" actual]
      by (simp add: parse_flags.simps [of formal "flag_words a @ _"])
  qed
  then show ?thesis by (simp add: flag_Parse_def)
qed

end
