(* ===== verification/ChartStore.thy ===== *)
theory ChartStore
  imports ChartParser ChartJson
begin

text \<open>
  \<open>internal/dvc/store.go\<close>, \<open>table.go\<close> and the reading half of \<open>config.go\<close>: the chart files, the search for PDFs below a
  directory and the printed table.  A directory of chart files is the list of its names with the text of
  each file, none for one that cannot be read.  \<open>Glob\<close> of the data directory is taken to match its names
  literally.
\<close>

section \<open>Paths\<close>

text \<open>\<open>filepath.Clean\<close>, \<open>Join\<close> of two elements and \<open>Base\<close>.\<close>

definition clean_step :: "bool \<Rightarrow> string list \<Rightarrow> string \<Rightarrow> string list" where
  "clean_step rooted acc seg =
     (if seg = [] \<or> seg = ''.'' then acc
      else if seg = ''..'' then
        (if acc \<noteq> [] \<and> last acc \<noteq> ''..'' then butlast acc else if rooted then acc else acc @ [''..''])
      else acc @ [seg])"

definition filepath_Clean :: "string \<Rightarrow> string" where
  "filepath_Clean p =
     (if p = [] then ''.''
      else let rooted = hd p = CHR ''/'';
               out = (if rooted then ''/'' else []) @ join_sep ''/'' (foldl (clean_step rooted) [] (split_on (CHR ''/'') p))
           in if out = [] then ''.'' else out)"

definition filepath_Join :: "string \<Rightarrow> string \<Rightarrow> string" where
  "filepath_Join a b =
     (if a = [] \<and> b = [] then [] else filepath_Clean (join_sep ''/'' (filter (\<lambda>e. e \<noteq> []) [a, b])))"

definition filepath_Base :: "string \<Rightarrow> string" where
  "filepath_Base p =
     (if p = [] then ''.''
      else let q = TrimRight p (CHR ''/'') in if q = [] then ''/'' else last (split_on (CHR ''/'') q))"

section \<open>\<open>CollectPDFs\<close>\<close>

text \<open>A file tree; what is not a directory is a file.\<close>

datatype fs_node = FsFile | FsDir "(string \<times> fs_node) list"

definition is_pdf :: "string \<Rightarrow> bool" where
  "is_pdf name \<longleftrightarrow> ToLower (filepath_Ext name) = ''.pdf''"

text \<open>\<open>WalkDir\<close> visits the entries of a directory in the order of their names.\<close>

fun walk :: "string \<Rightarrow> string \<Rightarrow> fs_node \<Rightarrow> string list" where
  "walk path name FsFile = (if is_pdf name then [path] else [])"
| "walk path name (FsDir es) =
     concat (map snd (sort_key fst (map (\<lambda>(n, node). (n, walk (filepath_Join path n) n node)) es)))"

definition CollectPDFs :: "(string \<Rightarrow> fs_node option) \<Rightarrow> string \<Rightarrow> string list result" where
  "CollectPDFs tree root = (case tree root of
      None \<Rightarrow> Inl (ErrInput ''no such file or directory'')
    | Some node \<Rightarrow> Inr (walk root (filepath_Base root) node))"

section \<open>Chart files\<close>

type_synonym chart_dir = "(string \<times> string option) list"

definition chart_file :: "resort_chart \<Rightarrow> string" where
  "chart_file chart = fmt_d (ChartYear chart) @ ''_'' @ ResortCode chart @ ''.json''"

text \<open>Writing a file creates it or replaces what it held; that it succeeds is an argument.\<close>

definition SaveChart :: "bool \<Rightarrow> resort_chart \<Rightarrow> chart_dir \<Rightarrow> chart_dir result" where
  "SaveChart ok chart dir =
     (if ok then Inr (AList.update (chart_file chart) (Some (chart_text chart)) dir) else Inl (ErrInput ''saving chart''))"

definition is_json :: "string \<Rightarrow> bool" where
  "is_json name \<longleftrightarrow> TrimSuffix name ''.json'' \<noteq> name"

definition json_names :: "chart_dir \<Rightarrow> string list" where
  "json_names dir = sort (filter is_json (map fst dir))"

fun load_files :: "chart_dir \<Rightarrow> string list \<Rightarrow> resort_chart list result" where
  "load_files dir [] = Inr []"
| "load_files dir (name # names) =
     (case map_of dir name of
        Some (Some text) \<Rightarrow>
          (case Unmarshal_chart text of
             None \<Rightarrow> Inl (ErrInput ''parsing chart'')
           | Some chart \<Rightarrow> and_then (load_files dir names) (\<lambda>charts. Inr (chart # charts)))
      | _ \<Rightarrow> Inl (ErrInput ''reading chart''))"

definition LoadAll :: "chart_dir \<Rightarrow> resort_chart list result" where
  "LoadAll dir = load_files dir (json_names dir)"

section \<open>\<open>LoadConfig\<close>\<close>

datatype config_file = NoFile | Unreadable | ConfigText string

text \<open>The configuration is returned also with an error.\<close>

definition LoadConfig :: "config_file \<Rightarrow> config \<times> error option" where
  "LoadConfig f = (case f of
      NoFile \<Rightarrow> (no_config, None)
    | Unreadable \<Rightarrow> (no_config, Some (ErrInput ''reading config''))
    | ConfigText text \<Rightarrow>
        (case Unmarshal_config text of
           None \<Rightarrow> (no_config, Some (ErrInput ''parsing config''))
         | Some cfg \<Rightarrow> (cfg, None)))"

section \<open>\<open>PrintTable\<close>\<close>

datatype out_line =
    Cells "string list"
  | Line string

definition view_dash :: string where
  "view_dash = [CHR 0xE2, CHR 0x80, CHR 0x94]"

definition en_dash :: string where
  "en_dash = [CHR 0xE2, CHR 0x80, CHR 0x93]"

definition stay_cells :: "stay_result \<Rightarrow> out_line" where
  "stay_cells r = Cells [r_Resort r, r_RoomType r, if r_View r = [] then view_dash else r_View r,
     format_date (r_CheckIn r), format_date (r_CheckOut r), fmt_d (r_Nights r), fmt_d (r_Points r), []]"

definition PrintTable :: "stay_result list \<Rightarrow> search_params \<Rightarrow> out_line list" where
  "PrintTable results params =
     [Cells [''RESORT'', ''ROOM TYPE'', ''VIEW'', ''CHECK-IN'', ''CHECK-OUT'', ''NIGHTS'', ''PTS'', []],
      Cells [''------'', ''---------'', ''----'', ''--------'', ''---------'', ''------'', ''---'', []]]
     @ map stay_cells results
     @ [Line [], Line (fmt_d (int (length results)) @ '' '' @ (if length results = 1 then ''result'' else ''results'')
          @ '' | Budget: '' @ fmt_d (Budget params) @ '' pts | Window: '' @ format_date (WindowStart params)
          @ '' '' @ en_dash @ '' '' @ format_date (WindowEnd params))]"

section \<open>The chart files as a library of charts by file name\<close>

definition file_chart :: "string option \<Rightarrow> resort_chart option" where
  "file_chart t = Option.bind t Unmarshal_chart"

definition library :: "chart_dir \<Rightarrow> string \<Rightarrow> resort_chart option" where
  "library dir name = (if is_json name then Option.bind (map_of dir name) file_chart else None)"

definition library_list :: "(string \<Rightarrow> resort_chart option) \<Rightarrow> resort_chart list" where
  "library_list m = map (\<lambda>name. the (m name)) (sorted_list_of_set (dom m))"

definition shelve :: "resort_chart \<Rightarrow> (string \<Rightarrow> resort_chart option) \<Rightarrow> string \<Rightarrow> resort_chart option" where
  "shelve chart m = m(chart_file chart \<mapsto> chart)"

definition readable_dir :: "chart_dir \<Rightarrow> bool" where
  "readable_dir dir \<longleftrightarrow> distinct (map fst dir) \<and> (\<forall>(name, t) \<in> set dir. is_json name \<longrightarrow> file_chart t \<noteq> None)"

lemma is_json_chart_file: "is_json (chart_file chart)"
  by (simp add: is_json_def TrimSuffix_def chart_file_def)

lemma library_dom:
  assumes "readable_dir dir"
  shows "dom (library dir) = set (filter is_json (map fst dir))"
proof -
  have "\<exists>t c. map_of dir name = Some t \<and> file_chart t = Some c" if "name \<in> fst ` set dir" "is_json name" for name
  proof -
    obtain c where c: "map_of dir name = Some c" using \<open>name \<in> fst ` set dir\<close> by (metis map_of_eq_None_iff not_None_eq)
    then have "file_chart c \<noteq> None" using map_of_SomeD [OF c] assms that(2) by (auto simp: readable_dir_def)
    with c show ?thesis by auto
  qed
  moreover have "name \<in> fst ` set dir" if "map_of dir name = Some c" for name c
    using map_of_SomeD [OF that] by force
  ultimately show ?thesis by (force simp: library_def dom_def bind_eq_Some_conv split: if_splits)
qed

lemma load_files_library:
  "(\<And>name. name \<in> set names \<Longrightarrow> library dir name \<noteq> None) \<Longrightarrow>
    load_files dir names = Inr (map (\<lambda>name. the (library dir name)) names)"
proof (induction names)
  case (Cons name names)
  have "library dir name \<noteq> None" using Cons.prems by simp
  then obtain t c where "map_of dir name = Some (Some t)" "is_json name" "Unmarshal_chart t = Some c"
    by (auto simp: library_def file_chart_def bind_eq_Some_conv split: if_splits)
  with Cons show ?case by (simp add: library_def file_chart_def and_then_def)
qed simp

text \<open>Loading a directory gives its library in the order of the file names.\<close>

lemma LoadAll_library:
  assumes "readable_dir dir"
  shows "LoadAll dir = Inr (library_list (library dir))"
proof -
  have "json_names dir = sorted_list_of_set (dom (library dir))"
    using assms sort_distinct_set [of "filter is_json (map fst dir)"]
    by (simp add: json_names_def library_dom) (simp add: readable_dir_def)
  moreover have "finite (dom (library dir))" using library_dom [OF assms] by simp
  then have "library dir name \<noteq> None" if "name \<in> set (sorted_list_of_set (dom (library dir)))" for name
    using that by auto
  ultimately show ?thesis
    using load_files_library [of "sorted_list_of_set (dom (library dir))" dir]
    by (simp add: LoadAll_def library_list_def)
qed

text \<open>Saving a chart shelves it under its file name and leaves the directory readable.\<close>

lemma SaveChart_library:
  assumes "readable_dir dir" and "chart_text_ok chart"
  shows "\<exists>dir'. SaveChart True chart dir = Inr dir' \<and> readable_dir dir' \<and> library dir' = shelve chart (library dir)"
proof -
  let ?dir = "AList.update (chart_file chart) (Some (chart_text chart)) dir"
  have written: "file_chart (Some (chart_text chart)) = Some chart"
    using assms(2) by (simp add: file_chart_def chart_text_reads)
  have "distinct (map fst ?dir)" using assms(1) by (simp add: readable_dir_def distinct_update)
  moreover have "(name, c) \<in> set ?dir \<Longrightarrow> (name, c) \<in> set dir \<or> c = Some (chart_text chart)" for name c
    by (induction dir) (auto split: if_splits)
  then have "\<forall>(name, t) \<in> set ?dir. is_json name \<longrightarrow> file_chart t \<noteq> None"
    using assms(1) written by (force simp: readable_dir_def)
  ultimately have "readable_dir ?dir" by (simp add: readable_dir_def)
  moreover have "library ?dir = shelve chart (library dir)"
    by (auto simp: library_def shelve_def update_conv fun_eq_iff is_json_chart_file written)
  ultimately show ?thesis by (simp add: SaveChart_def)
qed

text \<open>C16: What the program writes to disk it reads back: the JSON text of a chart, whatever runes its names
  hold and whatever 64-bit integers its rates are, decodes to that chart, so a directory in which it was
  saved holds it under its file name and every other file as before, and loading the saved file alone
  gives exactly that chart; and the configuration read from the text written for one is that one, without
  a warning, whether its empty lists were nil or not.\<close>

theorem saved_files_read:
  assumes "chart_text_ok chart" and "config_text_ok cfg"
  shows "(\<exists>dir'. SaveChart True chart dir = Inr dir' \<and>
      Option.bind (map_of dir' (chart_file chart)) file_chart = Some chart \<and>
      (\<forall>name. name = chart_file chart \<or> map_of dir' name = map_of dir name)) \<and>
    LoadAll [(chart_file chart, Some (chart_text chart))] = Inr [chart] \<and>
    LoadConfig (ConfigText (config_text nil_resorts nil_types cfg)) = (cfg, None)"
proof -
  note written = chart_text_reads [OF assms(1)]
  have "Option.bind (map_of (AList.update (chart_file chart) (Some (chart_text chart)) dir) (chart_file chart)) file_chart = Some chart"
    by (simp add: update_conv file_chart_def written)
  moreover have "name = chart_file chart \<or>
      map_of (AList.update (chart_file chart) (Some (chart_text chart)) dir) name = map_of dir name" for name
    by (simp add: update_conv)
  moreover have "LoadAll [(chart_file chart, Some (chart_text chart))] = Inr [chart]"
    by (simp add: LoadAll_def json_names_def is_json_chart_file written and_then_def)
  moreover have "LoadConfig (ConfigText (config_text nil_resorts nil_types cfg)) = (cfg, None)"
    by (simp add: LoadConfig_def config_text_reads [OF assms(2)])
  ultimately show ?thesis by (simp add: SaveChart_def)
qed

text \<open>A chart with a name beyond ASCII and one that JSON escapes.\<close>

definition sample_text_chart :: resort_chart where
  "sample_text_chart = \<lparr>ResortName = ''Caf'' @ [CHR 0xC3, CHR 0xA9] @ ''<1>'', ResortCode = ''CAF'', ChartYear = 2026,
     Columns = [\<lparr>RoomType = [quote, backslash], View = view_dash, Sleeps = -1\<rparr>],
     Seasons = [\<lparr>Periods = [], SunThu = [10], FriSat = []\<rparr>]\<rparr>"

lemma saved_files_read_witness:
  "LoadAll [(chart_file sample_text_chart, Some (chart_text sample_text_chart))] = Inr [sample_text_chart] \<and>
   LoadConfig (ConfigText (config_text True False \<lparr>cfg_ExcludeResorts = [], cfg_ExcludeRoomTypes = [view_dash]\<rparr>)) =
     (\<lparr>cfg_ExcludeResorts = [], cfg_ExcludeRoomTypes = [view_dash]\<rparr>, None)"
proof -
  have chart: "chart_text_ok sample_text_chart" by code_simp
  have cfg: "config_text_ok \<lparr>cfg_ExcludeResorts = [], cfg_ExcludeRoomTypes = [view_dash]\<rparr>" by code_simp
  from saved_files_read [OF chart cfg] show ?thesis by blast
qed


end
