(* ===== verification/DvcCommands.thy ===== *)
theory DvcCommands
  imports WireJson Flags ChartStore
begin

text \<open>
  \<open>cmd/dvc/ledger.go\<close> and \<open>cmd/dvc/trips.go\<close>: the commands of the command line tool over the client.
  A command takes its arguments, and what it prints, also before an error, is a list of lines, a table
  row being its cells.  \<open>su\<close> holds the environment and the configuration file of the client, \<open>link\<close>
  is the network, and the state of the server is passed through.
\<close>

section \<open>Results\<close>

datatype cli_error =
    UsageError
  | FlagFailed flag_error
  | UnknownCommand string
  | FlagRequired string
  | NotConfigured
  | ClientFailed client_error
  | EntryNotFound int
  | BadFile
  | TripFailed string client_error

text \<open>What was printed, the error the command returned, and the state of the server.\<close>

type_synonym command = "out_line list \<times> cli_error option \<times> web"

definition failed :: "cli_error \<Rightarrow> web \<Rightarrow> command" where
  "failed e w = ([], Some e, w)"

definition printed :: "out_line list \<Rightarrow> web \<Rightarrow> command" where
  "printed out w = (out, None, w)"

record cli_setup =
  su_getenv :: "string \<Rightarrow> string"
  su_file :: "string option"

record server_flags =
  fl_server :: string
  fl_token :: string

text \<open>\<open>addServerFlags\<close>, and the values of its flags.\<close>

definition addServerFlags :: "flag_set \<Rightarrow> flag_set" where
  "addServerFlags fs = fs @ [(''server'', FString []), (''token'', FString [])]"

definition server_values :: "parsed_flags \<Rightarrow> server_flags" where
  "server_values p = \<lparr>fl_server = str_flag p ''server'', fl_token = str_flag p ''token''\<rparr>"

definition with_flags :: "flag_set \<Rightarrow> string list \<Rightarrow> (parsed_flags \<Rightarrow> web \<Rightarrow> command) \<Rightarrow> web \<Rightarrow> command" where
  "with_flags formal args k w =
     (case flag_Parse formal args of Inl e \<Rightarrow> failed (FlagFailed e) w | Inr p \<Rightarrow> k p w)"

definition newLedgerClient :: "cli_setup \<Rightarrow> server_flags \<Rightarrow> client result" where
  "newLedgerClient su f =
     and_then (ResolveConfig (su_getenv su) (file_config (su_file su)) (fl_server f) (fl_token f)) (\<lambda>cfg.
       Inr (New (cc_ServerURL cfg) (cc_Token cfg)))"

definition with_client :: "cli_setup \<Rightarrow> server_flags \<Rightarrow> (client \<Rightarrow> web \<Rightarrow> command) \<Rightarrow> web \<Rightarrow> command" where
  "with_client su f k w = (case newLedgerClient su f of Inl e \<Rightarrow> failed NotConfigured w | Inr c \<Rightarrow> k c w)"

definition then_do :: "(client_error + 'a) \<times> web \<Rightarrow> ('a \<Rightarrow> web \<Rightarrow> command) \<Rightarrow> command" where
  "then_do res k = (case res of (Inl e, w) \<Rightarrow> failed (ClientFailed e) w | (Inr x, w) \<Rightarrow> k x w)"

definition pointsCol :: "int \<Rightarrow> string" where
  "pointsCol n = (if n = 0 then [] else fmt_d n)"

section \<open>\<open>dvc ledger show\<close> and \<open>contracts\<close>\<close>

definition entry_cells :: "cl_entry \<Rightarrow> out_line" where
  "entry_cells e = Cells [fmt_d (cle_ID e), fmt_d (cle_UseYear e), cle_Date e, cle_Desc e,
     pointsCol (cle_Allotted e), pointsCol (cle_Used e), fmt_d (cle_RunningBalance e), cle_Tag e]"

definition summary_cells :: "cl_summary \<Rightarrow> out_line" where
  "summary_cells y = Cells [fmt_d (cls_UseYear y), fmt_d (cls_Allotted y), fmt_d (cls_Used y), fmt_d (cls_Net y),
     if cls_OverBorrowed y then ''OVER-BORROWED'' else []]"

definition runLedgerShow :: "link \<Rightarrow> cli_setup \<Rightarrow> string list \<Rightarrow> web \<Rightarrow> command" where
  "runLedgerShow link su args = with_flags (addServerFlags []) args (\<lambda>p. with_client su (server_values p) (\<lambda>cl w.
     then_do (cl_ListEntries link cl w) (\<lambda>es w1.
       (let table = Cells [''ID'', ''YEAR'', ''DATE'', ''DESC'', ''ALLOTTED'', ''USED'', ''TOTAL'', ''TAG''] # map entry_cells es
        in case cl_Summaries link cl w1 of
             (Inl e, w2) \<Rightarrow> (table, Some (ClientFailed e), w2)
           | (Inr ss, w2) \<Rightarrow>
               printed (table @ (if ss \<noteq> []
                 then Line [] # Line ''Per use year:'' # Cells [''YEAR'', ''ALLOTTED'', ''USED'', ''NET'', []] # map summary_cells ss
                 else [])) w2))))"

definition contract_cells :: "cl_contract \<Rightarrow> out_line" where
  "contract_cells c = Cells [fmt_d (clc_ID c), clc_Name c, clc_Number c, clc_HomeResort c, fmt_d (clc_AnnualPoints c),
     clc_UseYearMonth c]"

definition runContractsList :: "link \<Rightarrow> cli_setup \<Rightarrow> string list \<Rightarrow> web \<Rightarrow> command" where
  "runContractsList link su args = with_flags (addServerFlags []) args (\<lambda>p. with_client su (server_values p) (\<lambda>cl w.
     then_do (cl_ListContracts link cl w) (\<lambda>cs w1.
       printed (Cells [''ID'', ''NAME'', ''NUMBER'', ''RESORT'', ''POINTS'', ''USE-YEAR''] # map contract_cells cs) w1)))"

definition contract_flags :: flag_set where
  "contract_flags = addServerFlags [] @
     [(''name'', FString []), (''number'', FString []), (''resort'', FString []), (''points'', FInt 0),
      (''use-year-month'', FString [])]"

definition contract_values :: "parsed_flags \<Rightarrow> cl_contract_input" where
  "contract_values p = \<lparr>cci_Name = str_flag p ''name'', cci_Number = str_flag p ''number'',
     cci_HomeResort = str_flag p ''resort'', cci_AnnualPoints = int_flag p ''points'',
     cci_UseYearMonth = str_flag p ''use-year-month''\<rparr>"

definition runContractsAdd :: "link \<Rightarrow> cli_setup \<Rightarrow> string list \<Rightarrow> web \<Rightarrow> command" where
  "runContractsAdd link su args = with_flags contract_flags args (\<lambda>p w.
     let inp = contract_values p in
     if cci_Name inp = [] \<or> cci_AnnualPoints inp = 0 \<or> cci_UseYearMonth inp = []
     then failed (FlagRequired ''--name, --points, and --use-year-month'') w
     else with_client su (server_values p) (\<lambda>cl w.
        then_do (cl_AddContract link cl inp w) (\<lambda>c w1.
          printed [Line (''added contract '' @ fmt_d (clc_ID c) @ '' ('' @ clc_Name c @ '', '' @ fmt_d (clc_AnnualPoints c)
             @ '' pts, use year '' @ clc_UseYearMonth c @ '')'')] w1)) w)"

section \<open>\<open>dvc ledger add\<close>, \<open>edit\<close>, \<open>delete\<close>, \<open>distribute\<close>\<close>

record entry_fields =
  ef_year :: int
  ef_date :: string
  ef_desc :: string
  ef_kind :: string
  ef_allotted :: int
  ef_used :: int
  ef_tag :: string
  ef_contract :: int

definition entryFlags :: flag_set where
  "entryFlags = [(''year'', FInt 0), (''date'', FString []), (''desc'', FString []), (''kind'', FString KindUsage),
     (''allotted'', FInt 0), (''used'', FInt 0), (''tag'', FString []), (''contract'', FInt 0)]"

definition entry_values :: "parsed_flags \<Rightarrow> entry_fields" where
  "entry_values p = \<lparr>ef_year = int_flag p ''year'', ef_date = str_flag p ''date'', ef_desc = str_flag p ''desc'',
     ef_kind = str_flag p ''kind'', ef_allotted = int_flag p ''allotted'', ef_used = int_flag p ''used'',
     ef_tag = str_flag p ''tag'', ef_contract = int_flag p ''contract''\<rparr>"

definition toEntryInput :: "entry_fields \<Rightarrow> cl_entry_input" where
  "toEntryInput f = \<lparr>cli_UseYear = ef_year f, cli_Date = ef_date f, cli_Desc = ef_desc f, cli_Kind = ef_kind f,
     cli_Allotted = ef_allotted f, cli_Used = ef_used f, cli_Tag = ef_tag f,
     cli_ContractID = (if ef_contract f \<noteq> 0 then Some (ef_contract f) else None)\<rparr>"

definition runLedgerAdd :: "link \<Rightarrow> cli_setup \<Rightarrow> string list \<Rightarrow> web \<Rightarrow> command" where
  "runLedgerAdd link su args = with_flags (addServerFlags [] @ entryFlags) args (\<lambda>p w.
      let f = entry_values p in
      if ef_date f = [] \<or> ef_desc f = [] then failed (FlagRequired ''--date and --desc'') w
      else with_client su (server_values p) (\<lambda>cl w.
        then_do (cl_AddEntry link cl (toEntryInput f) w) (\<lambda>e w1.
          printed [Line (''added entry '' @ fmt_d (cle_ID e))] w1)) w)"

text \<open>The existing values with the flags that were given, \<open>given\<close>, on top of them.\<close>

definition edited_input :: "(string \<Rightarrow> bool) \<Rightarrow> entry_fields \<Rightarrow> cl_entry \<Rightarrow> cl_entry_input" where
  "edited_input given f e =
     \<lparr>cli_UseYear = (if given ''year'' then ef_year f else cle_UseYear e),
      cli_Date = (if given ''date'' then ef_date f else cle_Date e),
      cli_Desc = (if given ''desc'' then ef_desc f else cle_Desc e),
      cli_Kind = (if given ''kind'' then ef_kind f else cle_Kind e),
      cli_Allotted = (if given ''allotted'' then ef_allotted f else cle_Allotted e),
      cli_Used = (if given ''used'' then ef_used f else cle_Used e),
      cli_Tag = (if given ''tag'' then ef_tag f else cle_Tag e),
      cli_ContractID = (if given ''contract'' then Some (ef_contract f) else cle_ContractID e)\<rparr>"

definition id_flags :: flag_set where
  "id_flags = addServerFlags [] @ [(''id'', FInt 0)]"

definition runLedgerEdit :: "link \<Rightarrow> cli_setup \<Rightarrow> string list \<Rightarrow> web \<Rightarrow> command" where
  "runLedgerEdit link su args = with_flags (id_flags @ entryFlags) args (\<lambda>p w.
      let i = int_flag p ''id'' in
      if i = 0 then failed (FlagRequired ''--id'') w
      else with_client su (server_values p) (\<lambda>cl w.
        then_do (cl_ListEntries link cl w) (\<lambda>es w1.
          (case find (\<lambda>e. cle_ID e = i) es of
             None \<Rightarrow> failed (EntryNotFound i) w1
           | Some existing \<Rightarrow>
               then_do (cl_UpdateEntry link cl i (edited_input (flag_given p) (entry_values p) existing) w1) (\<lambda>updated w2.
                 printed [Line (''updated entry '' @ fmt_d (cle_ID updated))] w2)))) w)"

definition runLedgerDelete :: "link \<Rightarrow> cli_setup \<Rightarrow> string list \<Rightarrow> web \<Rightarrow> command" where
  "runLedgerDelete link su args = with_flags id_flags args (\<lambda>p w.
      let i = int_flag p ''id'' in
      if i = 0 then failed (FlagRequired ''--id'') w
      else with_client su (server_values p) (\<lambda>cl w.
        then_do (cl_DeleteEntry link cl i w) (\<lambda>u w1. printed [Line (''deleted entry '' @ fmt_d i)] w1)) w)"

definition runLedgerDistribute :: "link \<Rightarrow> cli_setup \<Rightarrow> string list \<Rightarrow> web \<Rightarrow> command" where
  "runLedgerDistribute link su args = with_flags (addServerFlags []) args (\<lambda>p. with_client su (server_values p) (\<lambda>cl w.
     then_do (cl_Distribute link cl w) (\<lambda>created w1.
       printed (if created = [] then [Line ''nothing to distribute (already up to date)'']
         else map (\<lambda>e. Line (''distributed '' @ fmt_d (cle_Allotted e) @ '' pts to use year '' @ fmt_d (cle_UseYear e)
           @ '' ('' @ cle_Desc e @ '')'')) created) w1)))"

section \<open>Dispatch\<close>

definition runLedgerContracts :: "link \<Rightarrow> cli_setup \<Rightarrow> string list \<Rightarrow> web \<Rightarrow> command" where
  "runLedgerContracts link su args w =
     (case args of [] \<Rightarrow> failed UsageError w
      | a # rest \<Rightarrow>
          if a = ''list'' then runContractsList link su rest w
          else if a = ''add'' then runContractsAdd link su rest w
          else failed UsageError w)"

definition runLedger :: "link \<Rightarrow> cli_setup \<Rightarrow> string list \<Rightarrow> web \<Rightarrow> command" where
  "runLedger link su args w =
     (case args of [] \<Rightarrow> failed UsageError w
      | a # rest \<Rightarrow>
          if a = ''show'' then runLedgerShow link su rest w
          else if a = ''contracts'' then runLedgerContracts link su rest w
          else if a = ''add'' then runLedgerAdd link su rest w
          else if a = ''edit'' then runLedgerEdit link su rest w
          else if a = ''delete'' then runLedgerDelete link su rest w
          else if a = ''distribute'' then runLedgerDistribute link su rest w
          else failed (UnknownCommand a) w)"

section \<open>\<open>dvc trips import\<close>\<close>

text \<open>The trips of the file in order, up to the first the server refuses.\<close>

fun import_trips :: "link \<Rightarrow> client \<Rightarrow> cl_trip_input list \<Rightarrow> web \<Rightarrow> command" where
  "import_trips link cl [] w = printed [] w"
| "import_trips link cl (t # ts) w =
     (case cl_ImportTrip link cl t w of
        (Inl e, w1) \<Rightarrow> failed (TripFailed (cti_Name t) e) w1
      | (Inr i, w1) \<Rightarrow>
          (let (out, err, w2) = import_trips link cl ts w1
           in (Line (''imported trip '' @ fmt_d i @ '' ('' @ cti_Name t @ '')'') # out, err, w2)))"

text \<open>\<open>read_file\<close> is the text of a file, if it can be read.\<close>

definition trips_flags :: flag_set where
  "trips_flags = addServerFlags [(''file'', FString [])]"

definition runTripsImport ::
    "link \<Rightarrow> cli_setup \<Rightarrow> (string \<Rightarrow> string option) \<Rightarrow> string list \<Rightarrow> web \<Rightarrow> command" where
  "runTripsImport link su read_file args = with_flags trips_flags args (\<lambda>p w.
     if str_flag p ''file'' = [] then failed (FlagRequired ''--file'') w
     else (case Option.bind (read_file (str_flag p ''file'')) Unmarshal_trips of None \<Rightarrow> failed BadFile w
        | Some ts \<Rightarrow> with_client su (server_values p) (\<lambda>cl. import_trips link cl ts) w))"

definition runTrips ::
    "link \<Rightarrow> cli_setup \<Rightarrow> (string \<Rightarrow> string option) \<Rightarrow> string list \<Rightarrow> web \<Rightarrow> command" where
  "runTrips link su read_file args w =
     (case args of [] \<Rightarrow> failed UsageError w
      | a # rest \<Rightarrow>
          if a = ''import'' then runTripsImport link su read_file rest w
          else failed (UnknownCommand a) w)"

end
