(* ===== verification/DvcFlows.thy ===== *)
theory DvcFlows
  imports DvcCommands
begin

text \<open>
  The command line tool against the server: what a \<open>dvc ledger\<close> command does to the ledger when its
  requests reach \<open>serve\<close>.
\<close>

section \<open>A client that reaches the server\<close>

definition direct :: "server_env \<Rightarrow> link" where
  "direct v url r w = map_prod Some (\<lambda>w'. w') (serve v r w)"

definition trusted :: "server_env \<Rightarrow> client \<Rightarrow> bool" where
  "trusted v cl \<longleftrightarrow> v_secret v = [] \<or> token cl = v_secret v"

lemma HasPrefix_append [simp]: "HasPrefix (p @ s) p" "TrimPrefix (p @ s) p = s"
  by (simp_all add: HasPrefix_def TrimPrefix_def)

lemma serve_trusted:
  assumes "trusted v cl" and "q_Header r ''Authorization'' = ''Bearer '' @ token cl"
  shows "serve v r w = dispatch (if v_secret v = [] then routes v else login_routes v @ routes v) r w"
proof -
  have "validBearer (request.truncate r) (v_secret v)" if "token cl = v_secret v"
    using that assms(2) HasPrefix_append [of "''Bearer ''" "token cl"]
    by (simp add: validBearer_def request.truncate_def Let_def del: HasPrefix_append)
  then show ?thesis
    using assms by (auto simp: serve_def trusted_def authMiddleware_def request.truncate_def)
qed

lemma match_subtree:
  "match_pattern \<lparr>pt_method = m, pt_segments = ps, pt_subtree = True\<rparr> meth path =
     (if meth = m \<or> m = ''GET'' \<and> meth = ''HEAD'' then
        (case split_on (CHR ''/'') path of [] \<Rightarrow> None
         | seg # segs \<Rightarrow> if seg \<noteq> [] \<or> length segs \<le> length ps then None else match_segments ps True segs)
      else None)"
  by (simp add: match_pattern_def split: list.split)

lemmas route_defs = login_routes_def routes_def trip_routes_def ledger_routes_def api_routes_def
  route_def subtree_def match_route match_subtree api_path_def Let_def

lemma split_number: "split_on (CHR ''/'') (fmt_d i) = [fmt_d i]"
proof (rule split_plain)
  have "\<not> is_digit (CHR ''/'')" by (simp add: is_digit_def digit_val_def)
  then show "CHR ''/'' \<notin> set (fmt_d i)" using dec_digits by (auto simp: fmt_d_def)
qed

lemma fmt_d_nonempty [simp]: "fmt_d i \<noteq> []"
  by (simp add: fmt_d_def)

lemma dispatch_list:
  "q_Method r = ''GET'' \<Longrightarrow> q_Path r = entries_path \<Longrightarrow>
   dispatch (if c then routes v else login_routes v @ routes v) r w =
     (Api (ApiEntryList 200 (map entryListDTOFrom (ListEntries (w_db w)))), w)"
  by (simp add: route_defs on_api_def api_listEntries_def)

lemma dispatch_update:
  "q_Method r = ''PUT'' \<Longrightarrow> q_Path r = entries_path @ ''/'' @ fmt_d i \<Longrightarrow>
   dispatch (if c then routes v else login_routes v @ routes v) r w =
     map_prod Api (\<lambda>d. w\<lparr>w_db := d\<rparr>) (api_updateEntry (v_errText v) (fmt_d i) (q_EntryBody r) (w_db w))"
  by (simp add: route_defs on_api_def split_number set_path_values_def env.truncate_def)

section \<open>\<open>dvc ledger edit\<close>\<close>

text \<open>The row an edit asks for: the flags that were given on top of the row, and the server's defaults for
  an empty kind and a zero use year; none when the date, the description or the kind is refused.\<close>

definition edited_entry :: "(string \<Rightarrow> bool) \<Rightarrow> entry_fields \<Rightarrow> entry_row \<Rightarrow> entry_row option" where
  "edited_entry given f e =
     (case (if given ''date'' then parse_iso (ef_date f) else Some (e_Date e)) of
        None \<Rightarrow> None
      | Some d \<Rightarrow>
          let desc = (if given ''desc'' then ef_desc f else e_Desc e);
              flag_kind = (if given ''kind'' then ef_kind f else e_Kind e);
              kind = (if flag_kind = [] then KindUsage else flag_kind);
              year = (if given ''year'' then ef_year f else e_UseYear e)
          in if desc = [] \<or> \<not> validEntryKind kind then None
             else Some \<lparr>e_ID = e_ID e, e_UseYear = (if year = 0 then date_Year d else year), e_Date = d, e_Desc = desc,
               e_Kind = kind, e_Allotted = (if given ''allotted'' then ef_allotted f else e_Allotted e),
               e_Used = (if given ''used'' then ef_used f else e_Used e),
               e_Tag = (if given ''tag'' then ef_tag f else e_Tag e),
               e_ContractID = (if given ''contract'' then Some (ef_contract f) else e_ContractID e)\<rparr>)"

lemma edited_entry_id: "edited_entry given f e = Some e' \<Longrightarrow> e_ID e' = e_ID e"
proof -
  have some: "(if A then None else Some r) = Some y \<longleftrightarrow> \<not> A \<and> r = y" for A and r y :: entry_row by simp
  show "edited_entry given f e = Some e' \<Longrightarrow> ?thesis"
    by (clarsimp simp: edited_entry_def Let_def some split: option.split_asm split del: if_split)
qed

definition client_entry :: "entry \<Rightarrow> cl_entry" where
  "client_entry x = entry_of_list_dto (entryListDTOFrom x)"

lemma client_entry_fields:
  "cle_ID (client_entry x) = e_ID x" "cle_UseYear (client_entry x) = e_UseYear x"
  "cle_Date (client_entry x) = format_date (e_Date x)" "cle_Desc (client_entry x) = e_Desc x"
  "cle_Kind (client_entry x) = e_Kind x" "cle_Allotted (client_entry x) = e_Allotted x"
  "cle_Used (client_entry x) = e_Used x" "cle_Tag (client_entry x) = e_Tag x"
  "cle_ContractID (client_entry x) = e_ContractID x"
  by (simp_all add: client_entry_def entry_of_list_dto_def entryListDTOFrom_def entry_of_dto_def entryDTOFrom_def
      entry_dto.defs)

lemma list_entries:
  assumes "trusted v cl"
  shows "cl_ListEntries (direct v) cl w = (Inr (map client_entry (ListEntries (w_db w))), w)"
proof -
  have "serve v (client_request cl ''GET'' entries_path) w =
      (Api (ApiEntryList 200 (map entryListDTOFrom (ListEntries (w_db w)))), w)"
    using serve_trusted [OF assms, of "client_request cl ''GET'' entries_path" w]
      dispatch_list [of "client_request cl ''GET'' entries_path" "v_secret v = []" v w]
    by (simp add: client_request_def)
  then show ?thesis
    by (simp add: cl_ListEntries_def client_do_def direct_def decoded_def client_entry_def comp_def)
qed

lemma find_entry:
  assumes "db_ok d" and "e \<in> set (entries d)"
  shows "\<exists>x. entry_row.truncate x = e \<and> find (\<lambda>c. cle_ID c = e_ID e) (map client_entry (ListEntries d)) = Some (client_entry x)"
proof -
  have t: "map entry_row.truncate (ListEntries d) = ListEntries_rows d"
    by (simp add: ListEntries_def running_truncate)
  have s: "set (ListEntries_rows d) = set (entries d)" by (simp add: ListEntries_rows_def)
  have unique: "entry_row.truncate x = e" if "x \<in> set (ListEntries d)" "e_ID x = e_ID e" for x
  proof -
    have "entry_row.truncate x \<in> set (entries d)" using that(1) t s by (metis image_eqI list.set_map)
    moreover have "e_ID (entry_row.truncate x) = e_ID e" using that(2) by (simp add: entry_row.truncate_def)
    ultimately show ?thesis
      using assms entry_table.ok_unique [of "entry_seq d" "entries d"] by (auto simp: db_ok_defs)
  qed
  have "e \<in> set (map entry_row.truncate (ListEntries d))" using t s assms(2) by simp
  then obtain y where y: "y \<in> set (ListEntries d)" "e_ID y = e_ID e" by (auto simp: entry_row.truncate_def)
  have "\<exists>c. find (\<lambda>c. cle_ID c = e_ID e) (map client_entry (ListEntries d)) = Some c"
    using y by (force simp: find_None_iff client_entry_fields simp flip: not_None_eq)
  then obtain c where c: "find (\<lambda>c. cle_ID c = e_ID e) (map client_entry (ListEntries d)) = Some c" by blast
  then obtain x where "x \<in> set (ListEntries d)" "c = client_entry x" "cle_ID c = e_ID e"
    by (auto simp: find_Some_iff) (metis nth_mem)
  then show ?thesis using unique [of x] c by (auto simp: client_entry_fields)
qed

lemma toEntry_edited:
  assumes "entry_row.truncate x = e" and "0 \<le> date_Year (e_Date e)" and "date_Year (e_Date e) \<le> 9999"
  shows "(case edited_entry given f e of
      None \<Rightarrow> \<exists>err. toEntry (entry_body (edited_input given f (client_entry x))) (e_ID e) = Inl err
    | Some e' \<Rightarrow> toEntry (entry_body (edited_input given f (client_entry x))) (e_ID e) = Inr e')"
proof -
  have x: "e_UseYear x = e_UseYear e" "e_Date x = e_Date e" "e_Desc x = e_Desc e" "e_Kind x = e_Kind e"
    "e_Allotted x = e_Allotted e" "e_Used x = e_Used e" "e_Tag x = e_Tag e" "e_ContractID x = e_ContractID e"
    using assms(1) by (auto simp: entry_row.truncate_def)
  have f: "format_date (e_Date e) \<noteq> []" "parse_iso (format_date (e_Date e)) = Some (e_Date e)" "parse_iso [] = None"
    using parse_format_date [OF assms(2,3)] by (auto simp: parse_iso_def)
  show ?thesis
    by (cases "given ''date''"; cases "parse_iso (ef_date f)")
      (auto simp: edited_entry_def toEntry_def entry_body_def edited_input_def client_entry_fields x f Let_def)
qed


lemma client_do_served:
  "serve v r w = (resp, w') \<Longrightarrow> client_do (direct v) cl r w =
     (if reply_status resp < 200 \<or> reply_status resp \<ge> 300 then Inl (apiErrorFrom resp) else Inr resp, w')"
  by (simp add: client_do_def direct_def)

lemma update_entry:
  assumes "trusted v cl" and "in64 i"
  shows "cl_UpdateEntry (direct v) cl i inp w =
    (case toEntry (entry_body inp) i of
       Inl err \<Rightarrow> (Inl (APIError 400 (if v_errText v err = [] then ''Bad Request'' else v_errText v err)), w)
     | Inr e \<Rightarrow> (case UpdateEntry e (w_db w) of
         Inl err \<Rightarrow> (Inl (APIError 500 (if v_errText v err = [] then ''Internal Server Error'' else v_errText v err)), w)
       | Inr d \<Rightarrow> (Inr (entry_of_dto (entryDTOFrom e)), w\<lparr>w_db := d\<rparr>)))"
proof -
  let ?r = "(client_request cl ''PUT'' (entries_path @ ''/'' @ fmt_d i))\<lparr>q_EntryBody := Some (entry_body inp)\<rparr>"
  have r: "q_Method ?r = ''PUT''" "q_Path ?r = entries_path @ ''/'' @ fmt_d i" "q_EntryBody ?r = Some (entry_body inp)"
    "q_Header ?r ''Authorization'' = ''Bearer '' @ token cl"
    by (simp_all add: client_request_def)
  have i: "ParseInt (fmt_d i) = Some i" using Atoi_fmt_d [OF assms(2)] by (simp add: Atoi_def)
  have same: "w\<lparr>w_db := w_db w\<rparr> = w" by simp
  have "serve v ?r w = map_prod Api (\<lambda>d. w\<lparr>w_db := d\<rparr>) (api_updateEntry (v_errText v) (fmt_d i) (Some (entry_body inp)) (w_db w))"
    using serve_trusted [OF assms(1) r(4), of w] dispatch_update [OF r(1,2), of "v_secret v = []" v w] r(3) by simp
  note served = this [unfolded api_updateEntry_def apiPathID_def i sum.case option.case writeAPIError_def]
  have reply: "cl_UpdateEntry (direct v) cl i inp w = decoded as_entry
      (if reply_status resp < 200 \<or> reply_status resp \<ge> 300 then Inl (apiErrorFrom resp) else Inr resp, w')"
    if "serve v ?r w = (resp, w')" for resp w'
    unfolding cl_UpdateEntry_def client_do_served [OF that] by (rule refl)
  show ?thesis
  proof (cases "toEntry (entry_body inp) i")
    case (Inl err)
    then show ?thesis using served reply [of "Api (ApiError 400 (v_errText v err))" w]
      by (simp add: decoded_def apiErrorFrom_def StatusText_def same)
  next
    case (Inr e)
    show ?thesis
    proof (cases "UpdateEntry e (w_db w)")
      case (Inl err)
      then show ?thesis using served reply [of "Api (ApiError 500 (v_errText v err))" w] Inr
        by (simp add: decoded_def apiErrorFrom_def StatusText_def same)
    next
      case (Inr d)
      then show ?thesis using served reply [of "Api (ApiEntry 200 (entryDTOFrom e))" "w\<lparr>w_db := d\<rparr>"] \<open>toEntry (entry_body inp) i = Inr e\<close>
        by (simp add: decoded_def)
    qed
  qed
qed


definition sample_setup :: cli_setup where
  "sample_setup = \<lparr>su_getenv = (\<lambda>k. []), su_file = Some ''{\"server_url\": \"http://h/\", \"token\": \"s\"}''\<rparr>"

definition sample_flags :: parsed_flags where
  "sample_flags = \<lparr>pf_formal = id_flags @ entryFlags, pf_actual = [(''id'', FInt 2), (''used'', FInt 45)], pf_Args = []\<rparr>"

definition sample_usage :: entry_row where
  "sample_usage = \<lparr>e_ID = 2, e_UseYear = 2025, e_Date = 20500, e_Desc = ''T'', e_Kind = KindUsage,
      e_Allotted = 0, e_Used = 30, e_Tag = [], e_ContractID = None\<rparr>"

lemma sample_flags:
  "flag_Parse (id_flags @ entryFlags) [''--id'', ''2'', ''-used=45''] = Inr sample_flags"
  "int_flag sample_flags ''id'' = 2"
  "newLedgerClient sample_setup (server_values sample_flags) = Inr \<lparr>baseURL = ''http://h'', token = ''s''\<rparr>"
  "edited_entry (flag_given sample_flags) (entry_values sample_flags) sample_usage = Some (sample_usage\<lparr>e_Used := 45\<rparr>)"
  by code_simp+


text \<open>An edit cannot unlink a contract: its flag given as 0 asks for the contract 0, which no ledger has.\<close>

lemma edit_contract_zero:
  assumes "db_ok d" and "has_row e_ID (e_ID e) (entries d)" and "e_ContractID e = Some 0"
  shows "UpdateEntry e d = Inl ErrConstraint"
proof -
  have "\<not> has_row c_ID 0 (contracts d)"
    using assms(1) by (force simp: db_ok_defs table_ok_def has_row_iff)
  then show ?thesis using assms(2,3) by (simp add: UpdateEntry_def UpdateEntry_row_def contract_fk_def narrow_entry_def)
qed

section \<open>\<open>dvc ledger add\<close>, then \<open>show\<close>\<close>

text \<open>The row the fields of an \<open>add\<close> describe; none when the server refuses the date, description or kind.\<close>

definition added_entry :: "entry_fields \<Rightarrow> int \<Rightarrow> entry_row option" where
  "added_entry f i = (case parse_iso (ef_date f) of None \<Rightarrow> None
    | Some d \<Rightarrow>
        (let kind = (if ef_kind f = [] then KindUsage else ef_kind f) in
         if ef_desc f = [] \<or> \<not> validEntryKind kind then None
         else Some \<lparr>e_ID = i, e_UseYear = (if ef_year f = 0 then date_Year d else ef_year f), e_Date = d, e_Desc = ef_desc f,
           e_Kind = kind, e_Allotted = ef_allotted f, e_Used = ef_used f, e_Tag = ef_tag f,
           e_ContractID = (if ef_contract f \<noteq> 0 then Some (ef_contract f) else None)\<rparr>))"

lemma added_entry_Some:
  assumes "added_entry f i = Some e"
  shows "ef_date f \<noteq> []" "ef_desc f \<noteq> []" "e_ID e = i"
    "toEntry (entry_body (toEntryInput f)) j = Inr (e\<lparr>e_ID := j\<rparr>)"
proof -
  have "parse_iso [] = None" by (simp add: parse_iso_def)
  then show "ef_date f \<noteq> []" "ef_desc f \<noteq> []" "e_ID e = i"
    "toEntry (entry_body (toEntryInput f)) j = Inr (e\<lparr>e_ID := j\<rparr>)"
    using assms
    by (auto simp: added_entry_def toEntry_def entry_body_def toEntryInput_def Let_def split: option.splits if_splits)
qed

lemma dispatch_add:
  "q_Method r = ''POST'' \<Longrightarrow> q_Path r = entries_path \<Longrightarrow>
   dispatch (if c then routes v else login_routes v @ routes v) r w =
     map_prod Api (\<lambda>d. w\<lparr>w_db := d\<rparr>) (api_addEntry (v_errText v) (q_EntryBody r) (w_db w))"
  by (simp add: route_defs on_api_def env.truncate_def set_path_values_def)

lemma dispatch_summaries:
  "q_Method r = ''GET'' \<Longrightarrow> q_Path r = ''/api/v1/ledger/summaries'' \<Longrightarrow>
   dispatch (if c then routes v else login_routes v @ routes v) r w =
     (Api (ApiSummaries 200 (map summaryDTOFrom (UseYearSummaries (w_db w)))), w)"
  by (simp add: route_defs on_api_def api_summaries_def)

lemma summaries:
  assumes "trusted v cl"
  shows "cl_Summaries (direct v) cl w = (Inr (map (summary_of_dto \<circ> summaryDTOFrom) (UseYearSummaries (w_db w))), w)"
proof -
  let ?r = "client_request cl ''GET'' ''/api/v1/ledger/summaries''"
  have "serve v ?r w = (Api (ApiSummaries 200 (map summaryDTOFrom (UseYearSummaries (w_db w)))), w)"
    using serve_trusted [OF assms, of ?r w] dispatch_summaries [of ?r "v_secret v = []" v w]
    by (simp add: client_request_def)
  then show ?thesis by (simp add: cl_Summaries_def client_do_served decoded_def)
qed

lemma add_entry:
  assumes "trusted v cl" and "toEntry (entry_body inp) 0 = Inr e" and "AddEntry e (w_db w) = Inr (i, d)"
  shows "cl_AddEntry (direct v) cl inp w = (Inr (entry_of_dto (entryDTOFrom (e\<lparr>e_ID := i\<rparr>))), w\<lparr>w_db := d\<rparr>)"
proof -
  let ?r = "(client_request cl ''POST'' entries_path)\<lparr>q_EntryBody := Some (entry_body inp)\<rparr>"
  have r: "q_Method ?r = ''POST''" "q_Path ?r = entries_path" "q_EntryBody ?r = Some (entry_body inp)"
    "q_Header ?r ''Authorization'' = ''Bearer '' @ token cl"
    by (simp_all add: client_request_def)
  have "serve v ?r w = (Api (ApiEntry 201 (entryDTOFrom (e\<lparr>e_ID := i\<rparr>))), w\<lparr>w_db := d\<rparr>)"
    using serve_trusted [OF assms(1) r(4), of w] dispatch_add [OF r(1,2), of "v_secret v = []" v w] r(3) assms(2,3)
    by (simp add: api_addEntry_def)
  then show ?thesis by (simp add: cl_AddEntry_def client_do_served decoded_def)
qed


definition sample_written :: "(flag_style \<times> string \<times> flag_value) list" where
  "sample_written = [(\<lparr>two_dashes = True, joined = True\<rparr>, ''date'', FString ''2026-02-16''),
     (\<lparr>two_dashes = False, joined = False\<rparr>, ''used'', FInt 45), (\<lparr>two_dashes = True, joined = False\<rparr>, ''desc'', FString ''--trip'')]"

definition sample_added :: entry_row where
  "sample_added = \<lparr>e_ID = 3, e_UseYear = 2026, e_Date = 20500, e_Desc = ''--trip'', e_Kind = KindUsage,
     e_Allotted = 0, e_Used = 45, e_Tag = [], e_ContractID = None\<rparr>"

definition sample_values :: parsed_flags where
  "sample_values = \<lparr>pf_formal = addServerFlags [] @ entryFlags, pf_actual = map snd sample_written, pf_Args = []\<rparr>"

lemma sample_written:
  "concat (map flag_words sample_written) = [''--date=2026-02-16'', ''-used'', ''45'', ''--desc'', ''--trip'']"
  "newLedgerClient sample_setup (server_values sample_values) = Inr \<lparr>baseURL = ''http://h'', token = ''s''\<rparr>"
  "added_entry (entry_values sample_values) 3 = Some sample_added"
  "flag_Parse (addServerFlags []) [''--token=s''] =
     Inr \<lparr>pf_formal = addServerFlags [], pf_actual = [(''token'', FString ''s'')], pf_Args = []\<rparr>"
  "newLedgerClient sample_setup (server_values \<lparr>pf_formal = addServerFlags [], pf_actual = [(''token'', FString ''s'')], pf_Args = []\<rparr>)
     = Inr \<lparr>baseURL = ''http://h'', token = ''s''\<rparr>"
  by code_simp+


section \<open>A wrong token\<close>

lemma untrusted_do:
  assumes "v_secret v \<noteq> []" and "token cl \<noteq> v_secret v"
    and "q_Header r ''Authorization'' = ''Bearer '' @ token cl" and "HasPrefix (q_Path r) ''/api/''"
  shows "client_do (direct v) cl r w = (Inl (APIError 401 ''Unauthorized''), w)"
proof -
  have "q_Path r \<noteq> ''/healthz'' \<and> q_Path r \<noteq> ''/login'' \<and> \<not> HasPrefix (q_Path r) ''/static/''"
    using assms(4) by (cases "q_Path r" rule: list.exhaust; cases "tl (q_Path r)") (auto simp: HasPrefix_def)
  then have exempt: "\<not> isAuthExempt (request.truncate r)" by (simp add: isAuthExempt_def request.truncate_def)
  have "\<not> validBearer (request.truncate r) (v_secret v)"
    using assms(2,3) HasPrefix_append [of "''Bearer ''" "token cl"]
    by (simp add: validBearer_def request.truncate_def Let_def del: HasPrefix_append)
  then have "serve v r w = (Gate Unauthorized, w)"
    using assms(1,3) exempt by (simp add: serve_def authMiddleware_def request.truncate_def)
  then show ?thesis by (simp add: client_do_served apiErrorFrom_def StatusText_def)
qed

lemma untrusted_ops:
  assumes "v_secret v \<noteq> []" and "token cl \<noteq> v_secret v"
  shows "cl_ListEntries (direct v) cl w = (Inl (APIError 401 ''Unauthorized''), w)"
    "cl_AddEntry (direct v) cl inp w = (Inl (APIError 401 ''Unauthorized''), w)"
    "cl_DeleteEntry (direct v) cl i w = (Inl (APIError 401 ''Unauthorized''), w)"
    "cl_ListContracts (direct v) cl w = (Inl (APIError 401 ''Unauthorized''), w)"
    "cl_AddContract (direct v) cl c w = (Inl (APIError 401 ''Unauthorized''), w)"
    "cl_Distribute (direct v) cl w = (Inl (APIError 401 ''Unauthorized''), w)"
    "cl_ImportTrip (direct v) cl t w = (Inl (APIError 401 ''Unauthorized''), w)"
  unfolding cl_ListEntries_def cl_AddEntry_def cl_DeleteEntry_def cl_ListContracts_def cl_AddContract_def
    cl_Distribute_def cl_ImportTrip_def
  by (subst untrusted_do [OF assms]; simp add: client_request_def HasPrefix_def decoded_def)+

text \<open>No place a token is taken from holds the secret: the environment, the configuration file, and the tails
  of the arguments, one of which is the value of \<open>--token\<close>.\<close>

definition token_unknown :: "cli_setup \<Rightarrow> string \<Rightarrow> string list \<Rightarrow> bool" where
  "token_unknown su secret args \<longleftrightarrow> secret \<noteq> [] \<and> su_getenv su ''LINELEADER_TOKEN'' \<noteq> secret \<and>
     cc_Token (file_config (su_file su)) \<noteq> secret \<and> (\<forall>a \<in> set args. \<not> suffix secret a)"

lemma token_unknown_rest: "token_unknown su secret (a # args) \<Longrightarrow> token_unknown su secret args"
  by (simp add: token_unknown_def)

lemma unknown_client:
  assumes "token_unknown su secret args" and "flag_Parse formal args = Inr p"
    and "map_of formal ''token'' = Some (FString [])" and "newLedgerClient su (server_values p) = Inr cl"
  shows "token cl \<noteq> secret"
proof -
  have "str_flag p ''token'' = [] \<or> (\<exists>a \<in> set args. suffix (str_flag p ''token'') a)"
    using str_flag_from [OF assms(2), of "''token''"] assms(3) by auto
  then have "str_flag p ''token'' \<noteq> secret" using assms(1) by (auto simp: token_unknown_def)
  moreover have "token cl = firstNonEmpty [str_flag p ''token'', su_getenv su ''LINELEADER_TOKEN'', cc_Token (file_config (su_file su))]"
    using assms(4) by (auto simp: newLedgerClient_def ResolveConfig_def and_then_def New_def server_values_def Let_def
        split: sum.splits if_splits)
  ultimately show ?thesis using assms(1) by (auto simp: token_unknown_def)
qed

lemma with_unknown_token:
  assumes "token_unknown su (v_secret v) args" and "map_of formal ''token'' = Some (FString [])"
    and "\<And>p. (\<And>cl. newLedgerClient su (server_values p) = Inr cl \<Longrightarrow> token cl \<noteq> v_secret v) \<Longrightarrow> \<exists>err. k p w = ([], Some err, w)"
  shows "\<exists>err. with_flags formal args k w = ([], Some err, w)"
  using assms(3) unknown_client [OF assms(1) _ assms(2)]
  by (cases "flag_Parse formal args") (auto simp: with_flags_def failed_def)

lemma with_wrong_client:
  assumes "\<And>cl. newLedgerClient su sf = Inr cl \<Longrightarrow> token cl \<noteq> v_secret v"
    and "\<And>cl. token cl \<noteq> v_secret v \<Longrightarrow> \<exists>err. k cl w = ([], Some err, w)"
  shows "\<exists>err. with_client su sf k w = ([], Some err, w)"
  using assms by (cases "newLedgerClient su sf") (auto simp: with_client_def failed_def)

lemmas flag_sets = addServerFlags_def contract_flags_def id_flags_def entryFlags_def trips_flags_def

lemma refused_commands:
  assumes "token_unknown su (v_secret v) args"
  shows "\<exists>err. runLedgerShow (direct v) su args w = ([], Some err, w)"
    "\<exists>err. runContractsList (direct v) su args w = ([], Some err, w)"
    "\<exists>err. runContractsAdd (direct v) su args w = ([], Some err, w)"
    "\<exists>err. runLedgerAdd (direct v) su args w = ([], Some err, w)"
    "\<exists>err. runLedgerEdit (direct v) su args w = ([], Some err, w)"
    "\<exists>err. runLedgerDelete (direct v) su args w = ([], Some err, w)"
    "\<exists>err. runLedgerDistribute (direct v) su args w = ([], Some err, w)"
proof -
  note ops = untrusted_ops [where v = v] token_unknown_def then_do_def failed_def Let_def
  note intros = with_unknown_token [OF assms] with_wrong_client
  have secret: "v_secret v \<noteq> []" using assms by (simp add: token_unknown_def)
  show "\<exists>err. runLedgerShow (direct v) su args w = ([], Some err, w)"
    "\<exists>err. runContractsList (direct v) su args w = ([], Some err, w)"
    "\<exists>err. runContractsAdd (direct v) su args w = ([], Some err, w)"
    "\<exists>err. runLedgerAdd (direct v) su args w = ([], Some err, w)"
    "\<exists>err. runLedgerEdit (direct v) su args w = ([], Some err, w)"
    "\<exists>err. runLedgerDelete (direct v) su args w = ([], Some err, w)"
    "\<exists>err. runLedgerDistribute (direct v) su args w = ([], Some err, w)"
    unfolding runLedgerShow_def runContractsList_def runContractsAdd_def runLedgerAdd_def runLedgerEdit_def
      runLedgerDelete_def runLedgerDistribute_def
    by (rule intros; auto simp: flag_sets ops secret intro!: with_wrong_client)+
qed

lemma refused_import:
  assumes "v_secret v \<noteq> []" and "token cl \<noteq> v_secret v"
  shows "fst (import_trips (direct v) cl ts w) = [] \<and> snd (snd (import_trips (direct v) cl ts w)) = w"
  by (cases ts) (simp_all add: untrusted_ops [OF assms] printed_def failed_def)

lemma refused_trips_import:
  assumes "token_unknown su (v_secret v) args"
  shows "fst (runTripsImport (direct v) su read_file args w) = [] \<and>
    snd (snd (runTripsImport (direct v) su read_file args w)) = w"
proof (cases "flag_Parse trips_flags args")
  case (Inr p)
  have "token cl \<noteq> v_secret v" if "newLedgerClient su (server_values p) = Inr cl" for cl
    using unknown_client [OF assms Inr _ that] by (simp add: flag_sets)
  moreover have "v_secret v \<noteq> []" using assms by (simp add: token_unknown_def)
  ultimately show ?thesis
    using Inr refused_import
    by (auto simp: runTripsImport_def with_flags_def with_client_def failed_def split: option.split sum.split)
qed (simp add: runTripsImport_def with_flags_def failed_def)



end
