(* ===== verification/DvcMain.thy ===== *)
theory DvcMain
  imports DvcCommands ChartPrices
begin

text \<open>
  \<open>cmd/dvc/main.go\<close>: the dispatch of the command line tool and its commands over the chart files.  The
  world of a run is the chart files of each data directory and the state of the server; what it prints
  on the standard output and its exit status are its outcome, the messages on the standard error are
  left out.  The text of a PDF, the file tree, and whether a chart file can be written are arguments.
\<close>

section \<open>Worlds and outcomes\<close>

type_synonym chart_store = "string \<Rightarrow> chart_dir"

record dvc_world =
  dw_store :: chart_store
  dw_web :: web

type_synonym outcome = "out_line list \<times> nat"

record dvc_env =
  de_link :: link
  de_setup :: cli_setup
  de_read_file :: "string \<Rightarrow> string option"
  de_pdftotext :: "string \<Rightarrow> string result"
  de_tree :: "string \<Rightarrow> fs_node option"
  de_save_ok :: "string \<Rightarrow> bool"

definition defaultDataDir :: string where
  "defaultDataDir = ''data/point-charts''"

text \<open>A flag set that exits on an error: with 0 after printing the help that was asked for, else with 2.\<close>

definition exit_on_error :: "flag_set \<Rightarrow> string list \<Rightarrow> (parsed_flags \<Rightarrow> 'a) \<Rightarrow> (nat \<Rightarrow> 'a) \<Rightarrow> 'a" where
  "exit_on_error formal args k exit =
     (case flag_Parse formal args of Inl e \<Rightarrow> exit (if e = FlagHelp then 0 else 2) | Inr p \<Rightarrow> k p)"

section \<open>\<open>dvc import\<close>\<close>

definition import_flags :: flag_set where
  "import_flags = [(''data-dir'', FString defaultDataDir), (''dir'', FString [])]"

definition imported_line :: "string \<Rightarrow> resort_chart \<Rightarrow> out_line" where
  "imported_line path chart = Line (''imported '' @ path @ '' ('' @ ResortCode chart @ '' '' @ fmt_d (ChartYear chart)
     @ '', '' @ fmt_d (int (length (Seasons chart))) @ '' seasons, ''
     @ fmt_d (int (length (Columns chart))) @ '' columns)'')"

fun import_files :: "dvc_env \<Rightarrow> string \<Rightarrow> string list \<Rightarrow> chart_store \<Rightarrow> outcome \<times> chart_store" where
  "import_files v dataDir [] st = (([], 0), st)"
| "import_files v dataDir (path # paths) st =
     (case ParsePDF (de_pdftotext v path) (filepath_Base path) of
        Inl e \<Rightarrow> import_files v dataDir paths st
      | Inr chart \<Rightarrow>
         (case SaveChart (de_save_ok v path) chart (st dataDir) of
            Inl e \<Rightarrow> (([], 1), st)
          | Inr dir \<Rightarrow>
             (case import_files v dataDir paths (st(dataDir := dir)) of
                ((out, code), st') \<Rightarrow> ((imported_line path chart # out, code), st'))))"

definition runImport :: "dvc_env \<Rightarrow> string list \<Rightarrow> chart_store \<Rightarrow> outcome \<times> chart_store" where
  "runImport v args st = exit_on_error import_flags args (\<lambda>p.
     (case (if str_flag p ''dir'' \<noteq> [] then CollectPDFs (de_tree v) (str_flag p ''dir'') else Inr []) of
        Inl e \<Rightarrow> (([], 1), st)
      | Inr found \<Rightarrow>
         (let files = pf_Args p @ found in
          if files = [] then (([], 1), st)
          else import_files v (str_flag p ''data-dir'') files st)))
     (\<lambda>code. (([], code), st))"

section \<open>\<open>dvc search\<close> and \<open>list\<close>\<close>

definition search_flags :: flag_set where
  "search_flags = [(''data-dir'', FString defaultDataDir), (''from'', FString []), (''to'', FString []),
     (''budget'', FInt 0), (''min-nights'', FInt 1)]"

definition search_params_of :: "parsed_flags \<Rightarrow> date \<Rightarrow> date \<Rightarrow> search_params" where
  "search_params_of p windowStart windowEnd = \<lparr>WindowStart = windowStart, WindowEnd = windowEnd,
     Budget = int_flag p ''budget'', MinNights = int_flag p ''min-nights'', ExcludeResorts = [], ExcludeRoomTypes = []\<rparr>"

text \<open>A panic of the search ends the program with status 2.\<close>

definition runSearch :: "string list \<Rightarrow> chart_store \<Rightarrow> outcome" where
  "runSearch args st = exit_on_error search_flags args (\<lambda>p.
     if str_flag p ''from'' = [] \<or> str_flag p ''to'' = [] \<or> int_flag p ''budget'' = 0 then ([], 1)
     else (case ParseDate (str_flag p ''from'') of None \<Rightarrow> ([], 1)
      | Some windowStart \<Rightarrow>
     (case ParseDate (str_flag p ''to'') of None \<Rightarrow> ([], 1)
      | Some windowEnd \<Rightarrow>
     (case LoadAll (st (str_flag p ''data-dir'')) of Inl e \<Rightarrow> ([], 1)
      | Inr charts \<Rightarrow>
         if charts = [] then ([], 1)
         else (let params = search_params_of p windowStart windowEnd in
           case Search charts params of None \<Rightarrow> ([], 2) | Some results \<Rightarrow> (PrintTable results params, 0))))))
     (\<lambda>code. ([], code))"

definition list_flags :: flag_set where
  "list_flags = [(''data-dir'', FString defaultDataDir)]"

definition list_line :: "resort_chart \<Rightarrow> out_line" where
  "list_line c = Line (ResortCode c @ '' '' @ fmt_d (ChartYear c) @ ''  ('' @ fmt_d (int (length (Seasons c)))
     @ '' seasons, '' @ fmt_d (int (length (Columns c))) @ '' columns)'')"

definition runList :: "string list \<Rightarrow> chart_store \<Rightarrow> outcome" where
  "runList args st = exit_on_error list_flags args (\<lambda>p.
     (case LoadAll (st (str_flag p ''data-dir'')) of Inl e \<Rightarrow> ([], 1)
      | Inr charts \<Rightarrow>
         (if charts = [] then [Line (''no charts found in '' @ str_flag p ''data-dir'')] else map list_line charts, 0)))
     (\<lambda>code. ([], code))"

section \<open>\<open>main\<close>\<close>

definition of_command :: "command \<Rightarrow> outcome \<times> web" where
  "of_command c = (case c of (out, err, w) \<Rightarrow> ((out, if err = None then 0 else 1), w))"

definition dvc_main :: "dvc_env \<Rightarrow> string list \<Rightarrow> dvc_world \<Rightarrow> outcome \<times> dvc_world" where
  "dvc_main v args w =
     (case args of [] \<Rightarrow> (([], 1), w)
      | a # rest \<Rightarrow>
          if a = ''import'' then map_prod (\<lambda>x. x) (\<lambda>st. w\<lparr>dw_store := st\<rparr>) (runImport v rest (dw_store w))
          else if a = ''search'' then (runSearch rest (dw_store w), w)
          else if a = ''list'' then (runList rest (dw_store w), w)
          else if a = ''ledger'' then map_prod (\<lambda>x. x) (\<lambda>s. w\<lparr>dw_web := s\<rparr>)
            (of_command (runLedger (de_link v) (de_setup v) rest (dw_web w)))
          else if a = ''trips'' then map_prod (\<lambda>x. x) (\<lambda>s. w\<lparr>dw_web := s\<rparr>)
            (of_command (runTrips (de_link v) (de_setup v) (de_read_file v) rest (dw_web w)))
          else (([], 1), w))"

section \<open>Import, then search\<close>

definition parsed_charts :: "dvc_env \<Rightarrow> string list \<Rightarrow> resort_chart list" where
  "parsed_charts v files = concat (map (\<lambda>path.
     case ParsePDF (de_pdftotext v path) (filepath_Base path) of Inl e \<Rightarrow> [] | Inr chart \<Rightarrow> [chart]) files)"

text \<open>An import shelves the charts of the files that parse, in order, and skips the others.\<close>

lemma import_files_library:
  assumes "\<And>path. de_save_ok v path" and "readable_dir (st dataDir)"
    and "\<forall>chart \<in> set (parsed_charts v files). chart_text_ok chart"
  shows "\<exists>out dir. import_files v dataDir files st = ((out, 0), st(dataDir := dir)) \<and> readable_dir dir
    \<and> length out = length (parsed_charts v files) \<and> library dir = fold shelve (parsed_charts v files) (library (st dataDir))"
  using assms(2,3)
proof (induction files arbitrary: st)
  case Nil
  then show ?case by (auto simp: parsed_charts_def intro!: exI [of _ "st dataDir"])
next
  case (Cons path files)
  show ?case
  proof (cases "ParsePDF (de_pdftotext v path) (filepath_Base path)")
    case (Inl e)
    then show ?thesis using Cons by (simp add: parsed_charts_def)
  next
    case (Inr chart)
    obtain dir where dir: "SaveChart True chart (st dataDir) = Inr dir" "readable_dir dir"
      "library dir = shelve chart (library (st dataDir))"
      using SaveChart_library [OF Cons.prems(1), of chart] Cons.prems(2) Inr by (auto simp: parsed_charts_def)
    have rest: "\<forall>chart \<in> set (parsed_charts v files). chart_text_ok chart"
      using Cons.prems(2) by (simp add: parsed_charts_def)
    have st: "(st(dataDir := dir)) dataDir = dir" by simp
    obtain out dir' where "import_files v dataDir files (st(dataDir := dir)) = ((out, 0), (st(dataDir := dir))(dataDir := dir'))"
      and dir': "readable_dir dir'" "length out = length (parsed_charts v files)"
      "library dir' = fold shelve (parsed_charts v files) (library dir)"
      using Cons.IH [of "st(dataDir := dir)", unfolded st, OF dir(2) rest] by blast
    then have "import_files v dataDir (path # files) st = ((imported_line path chart # out, 0), st(dataDir := dir'))"
      using Inr dir(1) assms(1) by simp
    moreover have "parsed_charts v (path # files) = chart # parsed_charts v files" using Inr by (simp add: parsed_charts_def)
    moreover from this have "length (imported_line path chart # out) = length (parsed_charts v (path # files))"
      "library dir' = fold shelve (parsed_charts v (path # files)) (library (st dataDir))"
      using dir' dir(3) by simp_all
    ultimately show ?thesis using dir'(1) by blast
  qed
qed

lemma ParseDate_empty: "ParseDate [] = None"
  by code_simp

text \<open>C15: What \<open>dvc import\<close> reads, \<open>dvc search\<close> searches: after an import of PDF files into a readable data
  directory whose files can be written, which exits with 0 however many of the PDFs do not parse, a search
  of that directory prints exactly the stays offered by the charts whose JSON the directory holds, in the
  order of their file names, where the text written for each chart read replaced an older one of the same
  resort and year; the stays lie in the
  window, within the budget, the cheapest first.\<close>

theorem import_then_search:
  assumes "flag_Parse import_flags args = Inr p" and "str_flag p ''dir'' = []" and "pf_Args p = files" and "files \<noteq> []"
    and "str_flag p ''data-dir'' = dir" and "\<And>path. de_save_ok v path" and "readable_dir (dw_store w dir)"
    and "flag_Parse search_flags args' = Inr q" and "str_flag q ''data-dir'' = dir"
    and "ParseDate (str_flag q ''from'') = Some windowStart" and "ParseDate (str_flag q ''to'') = Some windowEnd"
    and "int_flag q ''budget'' \<noteq> 0"
    and "charts = library_list (fold shelve (parsed_charts v files) (library (dw_store w dir)))"
    and "charts \<noteq> []" and "\<forall>chart \<in> set charts. chart_ok chart"
    and "\<forall>chart \<in> set (parsed_charts v files). chart_text_ok chart"
  shows "\<exists>out w' params results. dvc_main v (''import'' # args) w = ((out, 0), w') \<and> dw_web w' = dw_web w \<and>
    params = search_params_of q windowStart windowEnd \<and>
    fst (dvc_main v (''search'' # args') w') = (PrintTable results params, 0) \<and>
    mset results = mset (offered_stays charts params) \<and> sorted (map (\<lambda>r. (r_Points r, r_CheckIn r)) results)"
proof -
  let ?st = "dw_store w" and ?params = "search_params_of q windowStart windowEnd"
  let ?results = "sort_slice result_less (offered_stays charts ?params)"
  obtain out d where imp: "import_files v dir files ?st = ((out, 0), ?st(dir := d))" "readable_dir d"
    "library d = fold shelve (parsed_charts v files) (library (?st dir))"
    using import_files_library [where st = ?st, OF assms(6,7,16)] by blast
  have "runImport v args ?st = ((out, 0), ?st(dir := d))"
    using assms(1-5) imp(1) by (simp add: runImport_def exit_on_error_def)
  then have main: "dvc_main v (''import'' # args) w = ((out, 0), w\<lparr>dw_store := ?st(dir := d)\<rparr>)"
    by (simp add: dvc_main_def)
  have load: "LoadAll d = Inr charts" using LoadAll_library [OF imp(2)] imp(3) assms(13) by simp
  have search: "Search charts ?params = Some ?results"
    by (rule search_offers) (use assms(15) in blast)
  have given: "str_flag q ''from'' \<noteq> []" "str_flag q ''to'' \<noteq> []"
    using assms(10,11) ParseDate_empty by auto
  have "runSearch args' (?st(dir := d)) = (PrintTable ?results ?params, 0)"
    unfolding runSearch_def exit_on_error_def assms(8)
    using assms(9-12,14) load search given by (simp add: Let_def)
  then have "fst (dvc_main v (''search'' # args') (w\<lparr>dw_store := ?st(dir := d)\<rparr>)) = (PrintTable ?results ?params, 0)"
    by (simp add: dvc_main_def)
  with main show ?thesis
    using result_order.sorter_mset [of "offered_stays charts ?params"]
      result_order.sorter_sorted [of "offered_stays charts ?params"]
    by (intro exI [of _ out] exI [of _ "w\<lparr>dw_store := ?st(dir := d)\<rparr>"] exI [of _ ?params] exI [of _ ?results]) simp
qed

definition sample_dvc :: dvc_env where
  "sample_dvc = \<lparr>de_link = (\<lambda>u r w. (None, w)), de_setup = \<lparr>su_getenv = (\<lambda>k. []), su_file = None\<rparr>,
     de_read_file = (\<lambda>f. None),
     de_pdftotext = (\<lambda>f. if f = ''VGF-2026.pdf'' then Inr (join_lines sample_lines) else Inl (ErrInput ''pdftotext'')),
     de_tree = (\<lambda>r. None), de_save_ok = (\<lambda>f. True)\<rparr>"

text \<open>A directory with an older file of the same chart and a file that is no chart file.\<close>

definition sample_dir :: chart_dir where
  "sample_dir = [(''notes.txt'', None), (''2026_VGF.json'', Some (chart_text sample_chart))]"

lemma sample_import: "parsed_charts sample_dvc [''VGF-2026.pdf'', ''old.pdf''] = [sample_layout_chart]"
proof -
  have code: "extractResortCode (filepath_Base ''VGF-2026.pdf'') = ''VGF''" by code_simp
  show ?thesis
    by (simp add: parsed_charts_def sample_dvc_def ParsePDF_def and_then_def code sample_layout)
qed

lemma sample_texts: "chart_text_ok sample_chart" "chart_text_ok sample_layout_chart"
proof -
  have season: "block_season 2026 sample_block = \<lparr>Periods = [\<lparr>Start = ''2026-09-01'', End = ''2026-09-30''\<rparr>,
      \<lparr>Start = ''2026-10-05'', End = ''2026-11-24''\<rparr>], SunThu = [16, 19], FriSat = [20, 24]\<rparr>" by code_simp
  show "chart_text_ok sample_chart" "chart_text_ok sample_layout_chart"
    by (simp_all add: chart_text_ok_def sample_chart_def sample_layout_chart_def season column_ok_def season_ok_def range_ok_def
        in64_def ascii_valid)
qed

lemma sample_readable: "readable_dir sample_dir"
  by (simp add: readable_dir_def sample_dir_def is_json_def TrimSuffix_def file_chart_def chart_text_reads sample_texts)

lemma sample_library:
  "library_list (fold shelve [sample_layout_chart] (library sample_dir)) = [sample_layout_chart]"
proof -
  have shelf: "chart_file sample_layout_chart = ''2026_VGF.json''"
    by (simp add: chart_file_def sample_layout_chart_def fmt_d_def dec.simps digit_def)
  have names: "filter is_json (map fst sample_dir) = [''2026_VGF.json'']"
    by (simp add: sample_dir_def is_json_def TrimSuffix_def)
  have "dom (library sample_dir) = {''2026_VGF.json''}" unfolding library_dom [OF sample_readable] names by simp
  then show ?thesis by (simp add: library_list_def shelve_def shelf)
qed

definition sample_import_flags :: parsed_flags where
  "sample_import_flags = \<lparr>pf_formal = import_flags, pf_actual = [], pf_Args = [''VGF-2026.pdf'', ''old.pdf'']\<rparr>"

definition sample_search_flags :: parsed_flags where
  "sample_search_flags = \<lparr>pf_formal = search_flags, pf_actual = [(''from'', FString ''2026-09-04''),
     (''to'', FString ''9/6/2026''), (''budget'', FInt 60)], pf_Args = []\<rparr>"

lemma sample_args:
  "flag_Parse import_flags [''VGF-2026.pdf'', ''old.pdf''] = Inr sample_import_flags"
  "flag_Parse search_flags [''--from'', ''2026-09-04'', ''-to'', ''9/6/2026'', ''--budget=60''] = Inr sample_search_flags"
  "str_flag sample_import_flags ''dir'' = []" "str_flag sample_import_flags ''data-dir'' = defaultDataDir"
  "str_flag sample_search_flags ''data-dir'' = defaultDataDir"
  "ParseDate (str_flag sample_search_flags ''from'') = Some 20700" "ParseDate (str_flag sample_search_flags ''to'') = Some 20702"
  "int_flag sample_search_flags ''budget'' = 60"
  by code_simp+

theorem import_then_search_witness:
  "\<exists>out w' params results. dvc_main sample_dvc [''import'', ''VGF-2026.pdf'', ''old.pdf'']
      \<lparr>dw_store = (\<lambda>d. sample_dir), dw_web = sample_web sample_db\<rparr> = ((out, 0), w') \<and>
    fst (dvc_main sample_dvc [''search'', ''--from'', ''2026-09-04'', ''-to'', ''9/6/2026'', ''--budget=60''] w') =
      (PrintTable results params, 0) \<and>
    mset results = mset (offered_stays [sample_layout_chart] params)"
proof -
  let ?w = "\<lparr>dw_store = (\<lambda>d. sample_dir), dw_web = sample_web sample_db\<rparr>"
  have dir: "readable_dir (dw_store ?w defaultDataDir)"
    by (simp add: sample_readable)
  have files: "pf_Args sample_import_flags = [''VGF-2026.pdf'', ''old.pdf'']" by (simp add: sample_import_flags_def)
  have charts: "[sample_layout_chart] = library_list (fold shelve
      (parsed_charts sample_dvc [''VGF-2026.pdf'', ''old.pdf'']) (library (dw_store ?w defaultDataDir)))"
    by (simp only: sample_import sample_library dvc_world.select_convs)
  have ok: "\<forall>chart \<in> set [sample_layout_chart]. chart_ok chart"
    by (simp add: chart_ok_def sample_layout_chart_def block_season_def sample_block_def line_values_def)
  have texts: "\<forall>chart \<in> set (parsed_charts sample_dvc [''VGF-2026.pdf'', ''old.pdf'']). chart_text_ok chart"
    by (simp add: sample_import sample_texts(2))
  have save: "de_save_ok sample_dvc path" for path by (simp add: sample_dvc_def)
  have budget: "int_flag sample_search_flags ''budget'' \<noteq> 0" by (simp add: sample_args)
  show ?thesis
    using import_then_search [OF sample_args(1,3) files _ sample_args(4) save dir sample_args(2,5-7) budget charts _ ok texts]
    by blast
qed

end
