(* ===== verification/Migrations.thy ===== *)
theory Migrations
  imports Trips
begin

text \<open>
  \<open>Open\<close> of \<open>internal/ledger/store.go\<close> and the migrations it applies, \<open>internal/ledger/migrations\<close>.  A
  database is the list of its relations by name (tables, indexes and sequences share one namespace), the
  foreign keys that a statement names, and the version goose recorded.  Goose itself, the driver and the
  connection are arguments; a migration whose statement fails leaves nothing of its own behind.
\<close>

section \<open>Relations\<close>

datatype relation =
    ContractRows "contract list"
  | EntryRows "entry_row list"
  | DuesRows "dues_rate list"
  | TripRows "trip list"
  | BookedStayRows "(stay_row \<times> int option) list"
  | StayRows "stay_row list"
  | LinkRows "link_row list"
  | Index
  | Sequence int

record catalog =
  rels :: "(string \<times> relation) list"
  fkeys :: "(string \<times> string) list"

type_synonym statement = "catalog \<Rightarrow> catalog result"

abbreviation relation_exists :: error where "relation_exists \<equiv> ErrInput ''relation already exists''"
abbreviation no_relation :: error where "no_relation \<equiv> ErrInput ''relation does not exist''"

text \<open>The relations a table comes with, its name first, and its foreign keys.\<close>

definition create_table :: "bool \<Rightarrow> (string \<times> relation) list \<Rightarrow> string list \<Rightarrow> statement" where
  "create_table if_not_exists objects keys c =
     (let name = fst (hd objects) in
      if map_of (rels c) name \<noteq> None then (if if_not_exists then Inr c else Inl relation_exists)
      else Inr (c\<lparr>rels := rels c @ objects, fkeys := fkeys c @ map (\<lambda>k. (k, name)) keys\<rparr>))"

definition create_index :: "bool \<Rightarrow> string \<Rightarrow> statement" where
  "create_index if_not_exists name = create_table if_not_exists [(name, Index)] []"

definition rename_rel :: "string \<Rightarrow> string \<Rightarrow> statement" where
  "rename_rel old new c =
     (if map_of (rels c) old = None then Inl no_relation
      else if map_of (rels c) new \<noteq> None then Inl relation_exists
      else Inr (c\<lparr>rels := map (\<lambda>(k, r). (if k = old then new else k, r)) (rels c),
        fkeys := map (\<lambda>(k, t). (k, if t = old then new else t)) (fkeys c)\<rparr>))"

definition rename_constraint :: "string \<Rightarrow> string \<Rightarrow> string \<Rightarrow> statement" where
  "rename_constraint table old new c =
     (if (old, table) \<notin> set (fkeys c) then Inl no_relation
      else Inr (c\<lparr>fkeys := map (\<lambda>(k, t). (if (k, t) = (old, table) then new else k, t)) (fkeys c)\<rparr>))"

definition set_rel :: "string \<Rightarrow> relation \<Rightarrow> catalog \<Rightarrow> catalog" where
  "set_rel name r c = c\<lparr>rels := map (\<lambda>(k, x). (k, if k = name then r else x)) (rels c)\<rparr>"

fun run_statements :: "statement list \<Rightarrow> statement" where
  "run_statements [] c = Inr c"
| "run_statements (s # ss) c = and_then (s c) (run_statements ss)"

section \<open>The migrations\<close>

definition initial :: statement where
  "initial = run_statements
     [create_table True [(''contracts'', ContractRows []), (''contracts_pkey'', Index), (''contracts_id_seq'', Sequence 0)] [],
      create_table True [(''entries'', EntryRows []), (''entries_pkey'', Index), (''entries_id_seq'', Sequence 0)]
        [''entries_contract_id_fkey''],
      create_index True ''idx_entries_order'', create_index True ''idx_entries_use_year'',
      create_table True [(''dues_rates'', DuesRows []), (''dues_rates_pkey'', Index)] []]"

definition seed_dues_rates :: statement where
  "seed_dues_rates c = (case map_of (rels c) ''dues_rates'' of
      Some (DuesRows ds) \<Rightarrow> Inr (if ds = [] then set_rel ''dues_rates'' (DuesRows seeded_dues) c else c)
    | _ \<Rightarrow> Inl no_relation)"

definition singular_table_names :: statement where
  "singular_table_names = run_statements
     [rename_rel ''contracts'' ''contract'', rename_rel ''entries'' ''entry'', rename_rel ''dues_rates'' ''dues_rate'',
      rename_rel ''contracts_pkey'' ''contract_pkey'', rename_rel ''entries_pkey'' ''entry_pkey'',
      rename_rel ''dues_rates_pkey'' ''dues_rate_pkey'', rename_rel ''idx_entries_order'' ''idx_entry_order'',
      rename_rel ''idx_entries_use_year'' ''idx_entry_use_year'',
      rename_constraint ''entry'' ''entries_contract_id_fkey'' ''entry_contract_id_fkey'',
      rename_rel ''contracts_id_seq'' ''contract_id_seq'', rename_rel ''entries_id_seq'' ''entry_id_seq'']"

definition trip_tables :: statement where
  "trip_tables = run_statements
     [create_table False [(''trip'', TripRows []), (''trip_pkey'', Index), (''trip_id_seq'', Sequence 0)] [],
      create_table False [(''trip_stay'', BookedStayRows []), (''trip_stay_pkey'', Index), (''trip_stay_id_seq'', Sequence 0)]
        [''trip_stay_trip_id_fkey'', ''trip_stay_entry_id_fkey''],
      create_index False ''idx_trip_stay_trip'']"

text \<open>The rows of the insert are numbered in the order of the stays.\<close>

fun number_links :: "int \<Rightarrow> (int \<times> int) list \<Rightarrow> link_row list" where
  "number_links n [] = []"
| "number_links n ((s, e) # ks) = \<lparr>k_ID = n + 1, k_StayID = s, k_EntryID = e\<rparr> # number_links (n + 1) ks"

definition old_links :: "(stay_row \<times> int option) list \<Rightarrow> (int \<times> int) list" where
  "old_links rows = concat (map (\<lambda>(st, e). case e of None \<Rightarrow> [] | Some i \<Rightarrow> [(st_ID st, i)]) rows)"

definition backfill_links :: statement where
  "backfill_links c =
     (case (map_of (rels c) ''trip_stay'', map_of (rels c) ''trip_stay_entry'', map_of (rels c) ''entry'',
            map_of (rels c) ''trip_stay_entry_id_seq'') of
        (Some (BookedStayRows rows), Some (LinkRows ks), Some (EntryRows es), Some (Sequence n)) \<Rightarrow>
          (let new = old_links rows in
           if distinct (map k_EntryID ks @ map snd new) \<and> list_all (\<lambda>(s, e). has_row e_ID e es) new
           then Inr (set_rel ''trip_stay_entry_id_seq'' (Sequence (n + int (length new)))
             (set_rel ''trip_stay_entry'' (LinkRows (ks @ number_links n new)) c))
           else Inl ErrConstraint)
      | _ \<Rightarrow> Inl no_relation)"

definition drop_entry_id :: statement where
  "drop_entry_id c = (case map_of (rels c) ''trip_stay'' of
      Some (BookedStayRows rows) \<Rightarrow>
        Inr ((set_rel ''trip_stay'' (StayRows (map fst rows)) c)\<lparr>fkeys := filter (\<lambda>(k, t). k \<noteq> ''trip_stay_entry_id_fkey'') (fkeys c)\<rparr>)
    | _ \<Rightarrow> Inl no_relation)"

definition trip_stay_entry :: statement where
  "trip_stay_entry = run_statements
     [create_table False [(''trip_stay_entry'', LinkRows []), (''trip_stay_entry_pkey'', Index),
        (''trip_stay_entry_entry_id_key'', Index), (''trip_stay_entry_id_seq'', Sequence 0)]
        [''trip_stay_entry_trip_stay_id_fkey'', ''trip_stay_entry_entry_id_fkey''],
      create_index False ''idx_trip_stay_entry_trip_stay'', backfill_links, drop_entry_id]"

definition migrations :: "(nat \<times> statement) list" where
  "migrations = [(1, initial), (2, seed_dues_rates), (3, singular_table_names), (4, trip_tables), (5, trip_stay_entry)]"

section \<open>\<open>Open\<close>\<close>

record pg =
  pg_catalog :: catalog
  pg_version :: nat

text \<open>What goose does with a list of migrations: those above the recorded version run in order, each recorded
  as it succeeds, up to the first that fails.\<close>

fun run_pending :: "(nat \<times> statement) list \<Rightarrow> pg \<Rightarrow> error option \<times> pg" where
  "run_pending [] s = (None, s)"
| "run_pending ((n, m) # ms) s =
     (if n \<le> pg_version s then run_pending ms s
      else (case m (pg_catalog s) of Inl e \<Rightarrow> (Some e, s)
        | Inr c \<Rightarrow> run_pending ms (s\<lparr>pg_catalog := c, pg_version := n\<rparr>)))"

record open_env =
  oe_SetDialect :: "error option"
  oe_sql_Open :: "string \<Rightarrow> error option"
  oe_Ping :: "error option"
  oe_Up :: "(nat \<times> statement) list \<Rightarrow> pg \<Rightarrow> error option \<times> pg"

text \<open>The setup runs once in the life of the process; its outcome is kept.\<close>

definition gooseSetup :: "open_env \<Rightarrow> error option option \<Rightarrow> error option \<times> error option option" where
  "gooseSetup v once = (case once of Some e \<Rightarrow> (e, once) | None \<Rightarrow> (oe_SetDialect v, Some (oe_SetDialect v)))"

text \<open>The store it returns is the handle to the database it leaves.\<close>

definition Open :: "open_env \<Rightarrow> string \<Rightarrow> error option option \<Rightarrow> pg \<Rightarrow> unit result \<times> error option option \<times> pg" where
  "Open v dsn once s =
     (case gooseSetup v once of (Some e, once') \<Rightarrow> (Inl e, once', s)
      | (None, once') \<Rightarrow>
     (case oe_sql_Open v dsn of Some e \<Rightarrow> (Inl e, once', s)
      | None \<Rightarrow>
     (case oe_Ping v of Some e \<Rightarrow> (Inl (ErrInput ''connecting to ledger database''), once', s)
      | None \<Rightarrow>
     (case oe_Up v migrations s of (Some e, s') \<Rightarrow> (Inl (ErrInput ''applying migrations''), once', s')
      | (None, s') \<Rightarrow> (Inr (), once', s')))))"

text \<open>The tables the statements of \<open>dbgen\<close> find under their names.\<close>

definition store_db :: "pg \<Rightarrow> db option" where
  "store_db s = (let r = map_of (rels (pg_catalog s)) in
     case (r ''contract'', r ''entry'', r ''dues_rate'', r ''trip'', r ''trip_stay'', r ''trip_stay_entry'') of
       (Some (ContractRows cs), Some (EntryRows es), Some (DuesRows ds), Some (TripRows ts), Some (StayRows sts), Some (LinkRows ks)) \<Rightarrow>
         (case (r ''contract_id_seq'', r ''entry_id_seq'', r ''trip_id_seq'', r ''trip_stay_id_seq'', r ''trip_stay_entry_id_seq'') of
            (Some (Sequence c), Some (Sequence e), Some (Sequence t), Some (Sequence st), Some (Sequence k)) \<Rightarrow>
              Some \<lparr>contracts = cs, entries = es, dues_rates = ds, trips = ts, stays = sts, links = ks,
                contract_seq = c, entry_seq = e, trip_seq = t, stay_seq = st, link_seq = k\<rparr>
          | _ \<Rightarrow> None)
     | _ \<Rightarrow> None)"

section \<open>The catalog at each version\<close>

text \<open>Below, \<open>d\<close> is what the tables hold, its links left out, and \<open>b\<close> the entry of a booked stay.\<close>

definition plural_rels :: "db \<Rightarrow> (string \<times> relation) list" where
  "plural_rels d =
     [(''contracts'', ContractRows (contracts d)), (''contracts_pkey'', Index), (''contracts_id_seq'', Sequence (contract_seq d)),
      (''entries'', EntryRows (entries d)), (''entries_pkey'', Index), (''entries_id_seq'', Sequence (entry_seq d)),
      (''idx_entries_order'', Index), (''idx_entries_use_year'', Index),
      (''dues_rates'', DuesRows (dues_rates d)), (''dues_rates_pkey'', Index)]"

definition singular_rels :: "db \<Rightarrow> (string \<times> relation) list" where
  "singular_rels d =
     [(''contract'', ContractRows (contracts d)), (''contract_pkey'', Index), (''contract_id_seq'', Sequence (contract_seq d)),
      (''entry'', EntryRows (entries d)), (''entry_pkey'', Index), (''entry_id_seq'', Sequence (entry_seq d)),
      (''idx_entry_order'', Index), (''idx_entry_use_year'', Index),
      (''dues_rate'', DuesRows (dues_rates d)), (''dues_rate_pkey'', Index)]"

definition trip_rels :: "db \<Rightarrow> relation \<Rightarrow> (string \<times> relation) list" where
  "trip_rels d stay_rows =
     [(''trip'', TripRows (trips d)), (''trip_pkey'', Index), (''trip_id_seq'', Sequence (trip_seq d)),
      (''trip_stay'', stay_rows), (''trip_stay_pkey'', Index), (''trip_stay_id_seq'', Sequence (stay_seq d)),
      (''idx_trip_stay_trip'', Index)]"

definition link_rels :: "db \<Rightarrow> (string \<times> relation) list" where
  "link_rels d =
     [(''trip_stay_entry'', LinkRows (links d)), (''trip_stay_entry_pkey'', Index), (''trip_stay_entry_entry_id_key'', Index),
      (''trip_stay_entry_id_seq'', Sequence (link_seq d)), (''idx_trip_stay_entry_trip_stay'', Index)]"

definition booked_rows :: "db \<Rightarrow> (stay_row \<Rightarrow> int option) \<Rightarrow> (stay_row \<times> int option) list" where
  "booked_rows d b = map (\<lambda>st. (st, b st)) (stays d)"

definition plural_catalog :: "db \<Rightarrow> catalog" where
  "plural_catalog d = \<lparr>rels = plural_rels d, fkeys = [(''entries_contract_id_fkey'', ''entries'')]\<rparr>"

definition singular_catalog :: "db \<Rightarrow> catalog" where
  "singular_catalog d = \<lparr>rels = singular_rels d, fkeys = [(''entry_contract_id_fkey'', ''entry'')]\<rparr>"

definition trip_catalog :: "db \<Rightarrow> (stay_row \<Rightarrow> int option) \<Rightarrow> catalog" where
  "trip_catalog d b = \<lparr>rels = singular_rels d @ trip_rels d (BookedStayRows (booked_rows d b)),
     fkeys = [(''entry_contract_id_fkey'', ''entry''), (''trip_stay_trip_id_fkey'', ''trip_stay''),
       (''trip_stay_entry_id_fkey'', ''trip_stay'')]\<rparr>"

definition link_catalog :: "db \<Rightarrow> catalog" where
  "link_catalog d = \<lparr>rels = singular_rels d @ trip_rels d (StayRows (stays d)) @ link_rels d,
     fkeys = [(''entry_contract_id_fkey'', ''entry''), (''trip_stay_trip_id_fkey'', ''trip_stay''),
       (''trip_stay_entry_trip_stay_id_fkey'', ''trip_stay_entry''), (''trip_stay_entry_entry_id_fkey'', ''trip_stay_entry'')]\<rparr>"

lemmas catalog_defs = plural_catalog_def singular_catalog_def trip_catalog_def link_catalog_def
  plural_rels_def singular_rels_def trip_rels_def link_rels_def

lemmas statement_defs = create_index_def create_table_def rename_rel_def rename_constraint_def set_rel_def and_then_def Let_def

definition empty_db :: db where
  "empty_db = fresh_db\<lparr>dues_rates := []\<rparr>"

lemma initial_empty: "initial \<lparr>rels = [], fkeys = []\<rparr> = Inr (plural_catalog empty_db)"
  by (simp add: initial_def statement_defs catalog_defs empty_db_def fresh_db_def)

lemma initial_adopts: "initial (plural_catalog d) = Inr (plural_catalog d)"
  by (simp add: initial_def statement_defs catalog_defs)

definition seeded :: "db \<Rightarrow> db" where
  "seeded d = (if dues_rates d = [] then d\<lparr>dues_rates := seeded_dues\<rparr> else d)"

lemma seed_catalog: "seed_dues_rates (plural_catalog d) = Inr (plural_catalog (seeded d))"
  by (simp add: seed_dues_rates_def statement_defs catalog_defs seeded_def)

lemma rename_catalog: "singular_table_names (plural_catalog d) = Inr (singular_catalog d)"
  by (simp add: singular_table_names_def statement_defs catalog_defs)

definition no_trips :: "db \<Rightarrow> bool" where
  "no_trips d \<longleftrightarrow> trips d = [] \<and> stays d = [] \<and> trip_seq d = 0 \<and> stay_seq d = 0"

lemma trips_catalog: "no_trips d \<Longrightarrow> trip_tables (singular_catalog d) = Inr (trip_catalog d b)"
  by (simp add: trip_tables_def statement_defs catalog_defs booked_rows_def no_trips_def)


definition linked :: "db \<Rightarrow> (stay_row \<Rightarrow> int option) \<Rightarrow> db" where
  "linked d b = (let new = old_links (booked_rows d b) in d\<lparr>links := number_links 0 new, link_seq := int (length new)\<rparr>)"

text \<open>The entries of booked stays exist, as their foreign key says, and no two stays share one.\<close>

definition entries_unshared :: "db \<Rightarrow> (stay_row \<Rightarrow> int option) \<Rightarrow> bool" where
  "entries_unshared d b \<longleftrightarrow> distinct (map snd (old_links (booked_rows d b))) \<and>
     list_all (\<lambda>(s, e). has_row e_ID e (entries d)) (old_links (booked_rows d b))"

lemma fst_booked_rows: "map fst (booked_rows d b) = stays d"
  by (simp add: booked_rows_def comp_def)

lemma links_catalog:
  "trip_stay_entry (trip_catalog d b) = (if entries_unshared d b then Inr (link_catalog (linked d b)) else Inl ErrConstraint)"
  by (simp add: trip_stay_entry_def backfill_links_def drop_entry_id_def statement_defs catalog_defs
      entries_unshared_def linked_def fst_booked_rows)

definition version_catalog :: "nat \<Rightarrow> db \<Rightarrow> (stay_row \<Rightarrow> int option) \<Rightarrow> catalog" where
  "version_catalog n d b = (if n \<le> 2 then plural_catalog d else if n = 3 then singular_catalog d else trip_catalog d b)"

definition upgraded :: "nat \<Rightarrow> db \<Rightarrow> (stay_row \<Rightarrow> int option) \<Rightarrow> db" where
  "upgraded n d b = linked (if n < 2 then seeded d else d) b"

lemma seeded_fields [simp]:
  "contracts (seeded d) = contracts d" "entries (seeded d) = entries d" "trips (seeded d) = trips d" "stays (seeded d) = stays d"
  "links (seeded d) = links d" "contract_seq (seeded d) = contract_seq d" "entry_seq (seeded d) = entry_seq d"
  "trip_seq (seeded d) = trip_seq d" "stay_seq (seeded d) = stay_seq d" "link_seq (seeded d) = link_seq d"
  by (simp_all add: seeded_def)

lemma seeded_trips [simp]: "no_trips (seeded d) = no_trips d" "booked_rows (seeded d) b = booked_rows d b"
  "entries_unshared (seeded d) b = entries_unshared d b"
  by (simp_all add: no_trips_def booked_rows_def entries_unshared_def)

text \<open>Any of the versions before the last is brought to it.\<close>

lemma run_migrations:
  assumes "n \<le> 4" and "n < 4 \<longrightarrow> no_trips d" and "entries_unshared d b"
  shows "run_pending migrations \<lparr>pg_catalog = version_catalog n d b, pg_version = n\<rparr> =
    (None, \<lparr>pg_catalog = link_catalog (upgraded n d b), pg_version = 5\<rparr>)"
proof -
  consider "n = 0" | "n = 1" | "n = 2" | "n = 3" | "n = 4" using assms(1) by linarith
  then show ?thesis
    using assms(2,3)
    by cases (simp_all add: migrations_def version_catalog_def upgraded_def initial_adopts seed_catalog rename_catalog
        trips_catalog [where b = b] links_catalog)
qed

lemma run_fresh:
  "run_pending migrations \<lparr>pg_catalog = \<lparr>rels = [], fkeys = []\<rparr>, pg_version = 0\<rparr> =
    (None, \<lparr>pg_catalog = link_catalog fresh_db, pg_version = 5\<rparr>)"
proof -
  have "linked (seeded empty_db) b = fresh_db" for b
    by (simp add: linked_def seeded_def empty_db_def fresh_db_def booked_rows_def old_links_def)
  moreover have "no_trips empty_db" "entries_unshared empty_db (\<lambda>st. None)"
    by (simp_all add: no_trips_def empty_db_def fresh_db_def entries_unshared_def booked_rows_def old_links_def)
  ultimately show ?thesis
    by (simp add: migrations_def initial_empty seed_catalog rename_catalog trips_catalog [where b = "\<lambda>st. None"] links_catalog)
qed

lemma run_current: "5 \<le> pg_version s \<Longrightarrow> run_pending migrations s = (None, s)"
  by (simp add: migrations_def)

lemma store_link_catalog: "store_db \<lparr>pg_catalog = link_catalog d, pg_version = n\<rparr> = Some d"
  by (simp add: store_db_def catalog_defs)

section \<open>The links of an upgraded ledger\<close>

lemma number_links_ids:
  "sorted_wrt (<) (map k_ID (number_links n ks)) \<and> (\<forall>k \<in> set (number_links n ks). n < k_ID k \<and> k_ID k \<le> n + int (length ks))"
  by (induction n ks rule: number_links.induct) force+

lemma number_links_fields:
  "map k_EntryID (number_links n ks) = map snd ks"
  "map k_EntryID (filter (\<lambda>k. k_StayID k = i) (number_links n ks)) = map snd (filter (\<lambda>(s, e). s = i) ks)"
  "(\<lambda>k. (k_StayID k, k_EntryID k)) ` set (number_links n ks) = set ks"
  by (induction n ks rule: number_links.induct) auto

lemma old_links_of_stay:
  "distinct (map st_ID sts) \<Longrightarrow> st \<in> set sts \<Longrightarrow>
     map snd (filter (\<lambda>(s, e). s = st_ID st) (old_links (map (\<lambda>st. (st, b st)) sts))) = (case b st of None \<Rightarrow> [] | Some e \<Rightarrow> [e])"
proof (induction sts)
  case (Cons x sts)
  show ?case
  proof (cases "x = st")
    case True
    then have "st_ID st \<notin> st_ID ` set sts" using Cons.prems by auto
    then have "filter (\<lambda>(s, e). s = st_ID st) (old_links (map (\<lambda>st. (st, b st)) sts)) = []"
      by (induction sts) (auto simp: old_links_def split: option.split)
    then show ?thesis using True by (simp add: old_links_def split: option.split)
  next
    case False
    then have "st_ID x \<noteq> st_ID st" "st \<in> set sts" using Cons.prems by (auto simp: image_iff)
    then show ?thesis using Cons by (simp add: old_links_def split: option.split)
  qed
qed simp

lemma old_links_stays: "(s, e) \<in> set (old_links (booked_rows d b)) \<Longrightarrow> has_row st_ID s (stays d)"
  by (auto simp: old_links_def booked_rows_def has_row_iff split: option.splits)

lemma linked_fields [simp]:
  "contracts (linked d b) = contracts d" "entries (linked d b) = entries d" "trips (linked d b) = trips d"
  "stays (linked d b) = stays d" "dues_rates (linked d b) = dues_rates d" "contract_seq (linked d b) = contract_seq d"
  "entry_seq (linked d b) = entry_seq d" "trip_seq (linked d b) = trip_seq d" "stay_seq (linked d b) = stay_seq d"
  by (simp_all add: linked_def Let_def)

lemma linked_ok:
  assumes "db_ok d" and "entries_unshared d b"
  shows "db_ok (linked d b)"
proof -
  let ?ks = "old_links (booked_rows d b)"
  have links: "links (linked d b) = number_links 0 ?ks" "link_seq (linked d b) = int (length ?ks)"
    by (simp_all add: linked_def Let_def)
  have "table_ok k_ID (int (length ?ks)) (number_links 0 ?ks)"
    using number_links_ids [of 0 ?ks] by (auto simp: table_ok_def)
  moreover have "has_row st_ID (k_StayID k) (stays d) \<and> has_row e_ID (k_EntryID k) (entries d)"
    if "k \<in> set (number_links 0 ?ks)" for k
  proof -
    have "(k_StayID k, k_EntryID k) \<in> set ?ks" using number_links_fields(3) [of 0 ?ks] that by blast
    then show ?thesis using assms(2) old_links_stays by (fastforce simp: entries_unshared_def list_all_iff)
  qed
  moreover have "distinct (map k_EntryID (number_links 0 ?ks))"
    using assms(2) by (simp add: number_links_fields(1) entries_unshared_def)
  ultimately show ?thesis
    using assms(1) by (simp add: db_ok_def tables_ok_def references_ok_def checks_ok_def links)
qed

lemma seeded_ok: "db_ok d \<Longrightarrow> db_ok (seeded d)"
  by (auto simp: seeded_def db_ok_def tables_ok_def references_ok_def checks_ok_def seeded_dues_def)

lemma linked_stay:
  assumes "db_ok d" and "st \<in> set (stays d)"
  shows "map k_EntryID (stay_links (linked d b) (st_ID st)) = (case b st of None \<Rightarrow> [] | Some e \<Rightarrow> [e])"
proof -
  have "distinct (map st_ID (stays d))"
    using assms(1) stay_table.ok_distinct unfolding db_ok_def tables_ok_def by blast
  then show ?thesis
    using old_links_of_stay [OF _ assms(2)]
    by (simp add: stay_links_def linked_def Let_def number_links_fields(2) booked_rows_def)
qed


section \<open>Opening a ledger\<close>

text \<open>What an upgrade must not lose.\<close>

definition carried_over :: "nat \<Rightarrow> db \<Rightarrow> (stay_row \<Rightarrow> int option) \<Rightarrow> db \<Rightarrow> bool" where
  "carried_over n d b d' \<longleftrightarrow>
     contracts d' = contracts d \<and> entries d' = entries d \<and> trips d' = trips d \<and> stays d' = stays d \<and>
     (contract_seq d', entry_seq d', trip_seq d', stay_seq d') = (contract_seq d, entry_seq d, trip_seq d, stay_seq d) \<and>
     dues_rates d' = (if n < 2 \<and> dues_rates d = [] then seeded_dues else dues_rates d) \<and>
     (\<forall>st \<in> set (stays d'). map k_EntryID (stay_links d' (st_ID st)) = (case b st of None \<Rightarrow> [] | Some e \<Rightarrow> [e]))"

lemma upgraded_carried:
  assumes "db_ok d"
  shows "carried_over n d b (upgraded n d b)"
proof -
  have "map k_EntryID (stay_links (upgraded n d b) (st_ID st)) = (case b st of None \<Rightarrow> [] | Some e \<Rightarrow> [e])"
    if "st \<in> set (stays d)" for st
    using that linked_stay [of "if n < 2 then seeded d else d" st b] assms by (simp add: upgraded_def seeded_ok)
  moreover have "dues_rates (seeded d) = (if dues_rates d = [] then seeded_dues else dues_rates d)" by (simp add: seeded_def)
  ultimately show ?thesis by (cases "n < 2") (simp_all add: carried_over_def upgraded_def)
qed

lemma Open_reachable:
  assumes "oe_SetDialect v = None" and "oe_sql_Open v dsn = None" and "oe_Ping v = None" and "once \<in> {None, Some None}"
  shows "Open v dsn once s = (case oe_Up v migrations s of
      (Some e, s') \<Rightarrow> (Inl (ErrInput ''applying migrations''), Some None, s') | (None, s') \<Rightarrow> (Inr (), Some None, s'))"
  using assms by (auto simp: Open_def gooseSetup_def split: prod.split option.split)

text \<open>A version 4 ledger in which two stays share an entry is refused and stays at that version.\<close>

lemma shared_entry_refused:
  assumes "oe_SetDialect v = None" and "oe_sql_Open v dsn = None" and "oe_Ping v = None"
    and "\<And>s. oe_Up v migrations s = run_pending migrations s" and "\<not> entries_unshared d b"
  shows "Open v dsn None \<lparr>pg_catalog = trip_catalog d b, pg_version = 4\<rparr> =
    (Inl (ErrInput ''applying migrations''), Some None, \<lparr>pg_catalog = trip_catalog d b, pg_version = 4\<rparr>)"
proof -
  have "run_pending migrations \<lparr>pg_catalog = trip_catalog d b, pg_version = 4\<rparr> =
      (Some ErrConstraint, \<lparr>pg_catalog = trip_catalog d b, pg_version = 4\<rparr>)"
    using assms(5) by (simp add: migrations_def links_catalog)
  then show ?thesis by (simp add: Open_reachable [OF assms(1-3)] assms(4))
qed

text \<open>C20: Opening a ledger migrates it and loses nothing: an empty database becomes the fresh ledger the rest of
  the development starts from; a database at any earlier version, also one whose tables were laid down
  before versions were recorded, becomes a ledger that satisfies every constraint and holds the same
  contracts, entries, trips and stays with the same ids and identity sequences, in which a stay is linked
  to exactly the entry it was booked with; the dues are seeded only where the table was empty and the seed
  not yet applied; and opening it again changes nothing.\<close>

theorem open_upgrades:
  assumes "oe_SetDialect v = None" and "oe_sql_Open v dsn = None" and "oe_Ping v = None"
    and "\<And>s. oe_Up v migrations s = run_pending migrations s"
    and "n \<le> 4" and "n < 4 \<longrightarrow> no_trips d" and "db_ok d" and "entries_unshared d b"
  shows "(\<exists>s. Open v dsn None \<lparr>pg_catalog = \<lparr>rels = [], fkeys = []\<rparr>, pg_version = 0\<rparr> = (Inr (), Some None, s)
      \<and> store_db s = Some fresh_db) \<and>
    (\<exists>s d'. Open v dsn None \<lparr>pg_catalog = version_catalog n d b, pg_version = n\<rparr> = (Inr (), Some None, s)
      \<and> store_db s = Some d' \<and> db_ok d'
      \<and> carried_over n d b d'
      \<and> Open v dsn (Some None) s = (Inr (), Some None, s))"
proof -
  note opens = Open_reachable [OF assms(1-3)] assms(4)
  have fresh: "Open v dsn None \<lparr>pg_catalog = \<lparr>rels = [], fkeys = []\<rparr>, pg_version = 0\<rparr> =
      (Inr (), Some None, \<lparr>pg_catalog = link_catalog fresh_db, pg_version = 5\<rparr>)"
    by (simp add: opens run_fresh)
  let ?s = "\<lparr>pg_catalog = link_catalog (upgraded n d b), pg_version = 5\<rparr>" and ?d = "upgraded n d b"
  have "Open v dsn None \<lparr>pg_catalog = version_catalog n d b, pg_version = n\<rparr> = (Inr (), Some None, ?s)"
    using run_migrations [OF assms(5,6,8)] by (simp add: opens)
  moreover have "Open v dsn (Some None) ?s = (Inr (), Some None, ?s)"
    by (simp add: opens run_current)
  moreover have "db_ok ?d" using assms(7,8) by (simp add: upgraded_def linked_ok seeded_ok)
  moreover have "carried_over n d b ?d"
    using upgraded_carried [OF assms(7)] .
  ultimately show ?thesis using fresh store_link_catalog by blast
qed


text \<open>A version 4 ledger with a booked stay and one that is not.\<close>

definition sample_old_db :: db where
  "sample_old_db = \<lparr>contracts = [], entries = [\<lparr>e_ID = 3, e_UseYear = 2026, e_Date = 20544, e_Desc = ''Spring'', e_Kind = ''usage'',
      e_Allotted = 0, e_Used = 60, e_Tag = [], e_ContractID = None\<rparr>], dues_rates = [],
     trips = [\<lparr>t_ID = 1, t_Name = ''Spring'', t_StartDate = 20544, t_EndDate = 20551, t_MinNights = 2,
      t_BudgetOverride = None, t_FilterMode = [], t_ExcludeResorts = [], t_ExcludeRoomTypes = []\<rparr>],
     stays = map (\<lambda>i. \<lparr>st_ID = i, st_TripID = 1, st_Resort = ''VGF'', st_RoomType = ''STUDIO'', st_View = [], st_CheckIn = 20544,
      st_CheckOut = 20546, st_Nights = 2, st_Points = 60, st_QuoteHash = []\<rparr>) [1, 2],
     links = [], contract_seq = 0, entry_seq = 3, trip_seq = 1, stay_seq = 2, link_seq = 0\<rparr>"

definition sample_booked :: "stay_row \<Rightarrow> int option" where
  "sample_booked st = (if st_ID st = 2 then Some 3 else None)"

definition sample_open :: open_env where
  "sample_open = \<lparr>oe_SetDialect = None, oe_sql_Open = (\<lambda>dsn. None), oe_Ping = None, oe_Up = run_pending\<rparr>"

theorem open_upgrades_witness:
  "\<exists>s d'. Open sample_open ''postgres://h'' None \<lparr>pg_catalog = version_catalog 4 sample_old_db sample_booked, pg_version = 4\<rparr> =
      (Inr (), Some None, s) \<and> store_db s = Some d' \<and> carried_over 4 sample_old_db sample_booked d'"
proof -
  have env: "oe_SetDialect sample_open = None" "oe_sql_Open sample_open dsn = None" "oe_Ping sample_open = None"
    "oe_Up sample_open migrations s = run_pending migrations s" for dsn s
    by (simp_all add: sample_open_def)
  have ok: "db_ok sample_old_db" "entries_unshared sample_old_db sample_booked" by code_simp+
  from open_upgrades [OF env _ _ ok, of 4] show ?thesis by simp blast
qed


end
