(* ===== verification/Mains.thy ===== *)
theory Mains
  imports Server LedgerMigrate Migrations DvcMain
begin

text \<open>
  The two other programs: \<open>cmd/server/main.go\<close>, up to the server it starts and from the event that stops it,
  with \<open>DefaultConfigPath\<close>, and \<open>cmd/ledger-migrate/main.go\<close>.  What they find in the environment and on disk
  is the record \<open>host\<close>; opening a database gives the ledger behind its name, \<open>opened_ledger\<close>, if it can be
  reached and its migrations applied.  What listens, and the delivery of signals, are not modelled.
\<close>

section \<open>The host\<close>

record host =
  ho_getenv :: "string \<Rightarrow> string"
  ho_config_dir :: "string option"
  ho_read_file :: "string \<Rightarrow> string option"
  ho_charts :: chart_store
  ho_config :: "string \<Rightarrow> config_file"
  ho_ledger :: "string \<Rightarrow> db option"
  ho_sqlite :: "string \<Rightarrow> sqlite_db option"

definition user_file :: "host \<Rightarrow> string \<Rightarrow> string" where
  "user_file h name =
     filepath_Join (case ho_config_dir h of Some dir \<Rightarrow> dir | None \<Rightarrow> ho_getenv h ''HOME'') (''lineleader/'' @ name)"

definition DefaultConfigPath :: "host \<Rightarrow> string" where
  "DefaultConfigPath h = user_file h ''config.json''"

definition defaultSQLitePath :: "host \<Rightarrow> string" where
  "defaultSQLitePath h = user_file h ''ledger.db''"

section \<open>The server\<close>

definition resolveAuthSecret :: "host \<Rightarrow> string \<Rightarrow> string result" where
  "resolveAuthSecret h secretFile =
     (if secretFile \<noteq> [] then
        (case ho_read_file h secretFile of
           None \<Rightarrow> Inl (ErrInput ''reading --auth-secret-file'')
         | Some b \<Rightarrow> (let secret = TrimSpace b in
             if secret = [] then Inl (ErrInput ''--auth-secret-file is empty'') else Inr secret))
      else (let secret = TrimSpace (ho_getenv h ''AUTH_SECRET'') in
        if secret \<noteq> [] then Inr secret else Inl (ErrInput ''no auth secret provided'')))"

record options =
  op_Charts :: "resort_chart list"
  op_Config :: config
  op_ConfigPath :: string
  op_Ledger :: db
  op_AuthSecret :: string
  op_SecureCookies :: bool

datatype startup = Exit nat | Started options string

definition server_main_flags :: "host \<Rightarrow> flag_set" where
  "server_main_flags h = [(''data-dir'', FString ''data/point-charts''), (''config'', FString (DefaultConfigPath h)),
     (''ledger-dsn'', FString (ho_getenv h ''LEDGER_DSN'')), (''addr'', FString '':8080''),
     (''auth-secret-file'', FString []), (''insecure-cookies'', FBool False)]"

text \<open>A configuration that cannot be read is only warned about; the ledger's DSN never reaches the log.\<close>

definition server_main :: "host \<Rightarrow> string list \<Rightarrow> startup" where
  "server_main h args = exit_on_error (server_main_flags h) args (\<lambda>p.
     if str_flag p ''ledger-dsn'' = [] then Exit 1
     else (case resolveAuthSecret h (str_flag p ''auth-secret-file'') of Inl e \<Rightarrow> Exit 1
      | Inr authSecret \<Rightarrow>
     (case LoadAll (ho_charts h (str_flag p ''data-dir'')) of Inl e \<Rightarrow> Exit 1
      | Inr charts \<Rightarrow>
         if charts = [] then Exit 1
         else (let (cfg, warning) = LoadConfig (ho_config h (str_flag p ''config'')) in
           case ho_ledger h (str_flag p ''ledger-dsn'') of None \<Rightarrow> Exit 1
           | Some ledger \<Rightarrow> Started
               \<lparr>op_Charts = charts, op_Config = cfg, op_ConfigPath = str_flag p ''config'', op_Ledger = ledger,
                op_AuthSecret = authSecret, op_SecureCookies = \<not> bool_flag p ''insecure-cookies''\<rparr>
               (str_flag p ''addr'')))))
     Exit"

text \<open>\<open>NewServer\<close>: the state a server starts with, and what its options fix of the environment of its requests.\<close>

definition newGlobalFilters :: "config \<Rightarrow> global_filters" where
  "newGlobalFilters cfg = \<lparr>g_cfg = cfg, g_saved = cfg\<rparr>"

definition NewServer_web :: "options \<Rightarrow> web" where
  "NewServer_web opts = \<lparr>w_db = op_Ledger opts, w_global = newGlobalFilters (op_Config opts), w_costs = newCostProvider\<rparr>"

definition NewServer_env :: "options \<Rightarrow> server_env \<Rightarrow> server_env" where
  "NewServer_env opts v = v\<lparr>v_charts := op_Charts opts, v_secret := op_AuthSecret opts,
     v_secureCookies := op_SecureCookies opts\<rparr>"

lemma TrimSpace_idem: "TrimSpace (TrimSpace s) = TrimSpace s"
proof (cases "TrimSpace s = []")
  case False
  let ?a = "dropWhile is_space s" and ?t = "TrimSpace s"
  have t: "?t = rev (dropWhile is_space (rev ?a))" by (simp add: TrimSpace_def)
  have "dropWhile is_space (rev ?a) \<noteq> []" using False t by simp
  then have last: "\<not> is_space (last ?t)" using hd_dropWhile [of is_space "rev ?a"] by (simp add: t last_rev)
  have "\<exists>u. ?a = ?t @ u" unfolding t
    by (metis rev_append rev_rev_ident takeWhile_dropWhile_id)
  then obtain u where u: "?a = ?t @ u" ..
  then have "?a \<noteq> []" using False by auto
  then have "\<not> is_space (hd ?t)" using hd_dropWhile [of is_space s] u False by (metis hd_append2)
  with False last show ?thesis by (simp add: TrimSpace_id)
next
  case True
  then have "TrimSpace (TrimSpace s) = TrimSpace []" by (simp only:)
  then show ?thesis unfolding True by (simp add: TrimSpace_def)
qed

lemma resolved_secret: "resolveAuthSecret h f = Inr secret \<Longrightarrow> secret \<noteq> [] \<and> TrimSpace secret = secret"
  by (auto simp: resolveAuthSecret_def Let_def TrimSpace_idem split: if_splits option.splits)

lemma started_options:
  assumes "server_main h args = Started opts addr"
  shows "op_Charts opts \<noteq> []" "op_AuthSecret opts \<noteq> []" "TrimSpace (op_AuthSecret opts) = op_AuthSecret opts"
  using assms resolved_secret
  by (auto simp: server_main_def exit_on_error_def split: sum.splits if_splits option.splits prod.splits)

text \<open>The ledger behind a name, as \<open>Open\<close> leaves it.\<close>

definition opened_ledger :: "open_env \<Rightarrow> string \<Rightarrow> pg \<Rightarrow> db option" where
  "opened_ledger v dsn s = (case Open v dsn None s of (Inr u, once, s') \<Rightarrow> store_db s' | _ \<Rightarrow> None)"

lemma opened_empty:
  assumes "oe_SetDialect v = None" and "oe_sql_Open v dsn = None" and "oe_Ping v = None"
    and "\<And>s. oe_Up v migrations s = run_pending migrations s"
  shows "opened_ledger v dsn \<lparr>pg_catalog = \<lparr>rels = [], fkeys = []\<rparr>, pg_version = 0\<rparr> = Some fresh_db"
  by (simp add: opened_ledger_def Open_reachable [OF assms(1-3)] assms(4) run_fresh store_link_catalog)

section \<open>The end of the server\<close>

text \<open>Timeouts are in seconds.\<close>

record http_server =
  hs_Addr :: string
  hs_Handler :: options
  hs_ReadHeaderTimeout :: int
  hs_ReadTimeout :: int
  hs_WriteTimeout :: int
  hs_IdleTimeout :: int

definition http_server_of :: "options \<Rightarrow> string \<Rightarrow> http_server" where
  "http_server_of opts addr = \<lparr>hs_Addr = addr, hs_Handler = opts, hs_ReadHeaderTimeout = 5, hs_ReadTimeout = 10,
     hs_WriteTimeout = 10, hs_IdleTimeout = 120\<rparr>"

text \<open>What \<open>select\<close> waits for: the listener returned, with an error other than that it was closed or not, or a
  signal arrived; and what the program does then, in order.\<close>

datatype stop_event = ListenFailed | ListenClosed | Signalled

datatype stop_action = Shutdown int | CloseLedger | Log string

text \<open>\<open>log.Fatalf\<close> exits at once.\<close>

definition server_stop :: "stop_event \<Rightarrow> bool \<Rightarrow> bool \<Rightarrow> stop_action list \<times> nat" where
  "server_stop ev shutdown_ok close_ok =
     (let closing = [CloseLedger] @ (if close_ok then [] else [Log ''closing ledger'']) @ [Log ''clean shutdown complete''] in
      case ev of
        ListenFailed \<Rightarrow> ([Log ''listen''], 1)
      | ListenClosed \<Rightarrow> (closing, 0)
      | Signalled \<Rightarrow> ([Log ''shutting down'', Shutdown 10] @ (if shutdown_ok then [] else [Log ''graceful shutdown'']) @ closing, 0))"

text \<open>The ledger is closed once unless listening failed, and after the shutdown when a signal asked for one.\<close>

lemma server_stop_closes:
  "server_stop ev a b = (acts, code) \<Longrightarrow>
     (code = 0 \<longleftrightarrow> ev \<noteq> ListenFailed) \<and> count_list acts CloseLedger = (if code = 0 then 1 else 0) \<and>
     (ev = Signalled \<longrightarrow> Shutdown 10 \<in> set (takeWhile (\<lambda>act. act \<noteq> CloseLedger) acts))"
  by (cases ev; cases a; cases b) (auto simp: server_stop_def Let_def)

section \<open>\<open>ledger-migrate\<close>\<close>

definition migrate_flags :: "host \<Rightarrow> flag_set" where
  "migrate_flags h = [(''sqlite'', FString (defaultSQLitePath h)), (''dsn'', FString (ho_getenv h ''LEDGER_DSN''))]"

definition migrate_main :: "host \<Rightarrow> string list \<Rightarrow> outcome \<times> host" where
  "migrate_main h args = exit_on_error (migrate_flags h) args (\<lambda>p.
     let dsn = str_flag p ''dsn''; sqlite = str_flag p ''sqlite'' in
     if dsn = [] then (([], 1), h)
     else (case (ho_sqlite h sqlite, ho_ledger h dsn) of
        (Some sdb, Some d) \<Rightarrow>
          (case Migrate sdb d of
             Inl e \<Rightarrow> (([], 1), h)
           | Inr (summary, d') \<Rightarrow>
               (([Line (''migrated '' @ fmt_d (int (ms_Contracts summary)) @ '' contract(s), ''
                   @ fmt_d (int (ms_Entries summary)) @ '' entries from '' @ sqlite)], 0),
                h\<lparr>ho_ledger := (ho_ledger h)(dsn := Some d')\<rparr>))
      | _ \<Rightarrow> (([], 1), h)))
     (\<lambda>code. (([], code), h))"

end
