(* ===== verification/TemplateFuncs.thy ===== *)
theory TemplateFuncs
  imports ApiHandlers LedgerView TripView ChartStore
begin

text \<open>
  The functions the templates call, \<open>templateFuncs\<close> of \<open>internal/web/render.go\<close>; a value of any type that
  \<open>dict\<close> is given is a string or another value.
\<close>

definition tf_formatDate :: "date \<Rightarrow> string" where
  "tf_formatDate t = format_date t"

definition tf_viewOrDash :: "string \<Rightarrow> string" where
  "tf_viewOrDash v = (if v = [] then view_dash else v)"

definition tf_formatMonth :: "month \<Rightarrow> string" where
  "tf_formatMonth m = month_String m"

definition tf_blankZero :: "int \<Rightarrow> string" where
  "tf_blankZero n = (if n = 0 then [] else fmt_d n)"

definition tf_contractName :: "contract list \<Rightarrow> int option \<Rightarrow> string" where
  "tf_contractName cs i = (case i of None \<Rightarrow> [] | Some c \<Rightarrow> contractNameOf cs c)"

definition tf_deref :: "int option \<Rightarrow> int" where
  "tf_deref p = (case p of None \<Rightarrow> 0 | Some x \<Rightarrow> x)"

fun dict_loop :: "(string + 'v) list \<Rightarrow> (string \<Rightarrow> (string + 'v) option) \<Rightarrow> (string \<Rightarrow> (string + 'v) option) result" where
  "dict_loop (k # v # pairs) m =
     (case k of Inl key \<Rightarrow> dict_loop pairs (m(key \<mapsto> v)) | Inr _ \<Rightarrow> Inl (ErrInput ''dict: key is not a string''))"
| "dict_loop _ m = Inr m"

definition tf_dict :: "(string + 'v) list \<Rightarrow> (string \<Rightarrow> (string + 'v) option) result" where
  "tf_dict pairs =
     (if length pairs mod 2 \<noteq> 0 then Inl (ErrInput ''dict: odd number of arguments'') else dict_loop pairs Map.empty)"

definition tf_filterTitle :: "filter_scope \<Rightarrow> string" where
  "tf_filterTitle s =
     (if \<not> fs_IsTrip s then ''Filters '' @ view_dash @ '' Global''
      else ''Filters '' @ view_dash @ '' '' @ fs_TripName s @ '' ('' @
        (if fs_Mode s = FilterModeOverride then ''override'' else ''inherit'') @ '')'')"

definition tf_modeLabel :: "string \<Rightarrow> string" where
  "tf_modeLabel m = (if m = FilterModeOverride then ''override'' else ''inherit'')"

text \<open>The values of a template call's pairs are those of the last pair of each key.\<close>

lemma dict_pairs:
  "tf_dict (concat (map (\<lambda>(k, v). [Inl k, v]) kvs)) = Inr (map_of (rev kvs))"
proof -
  have "dict_loop (concat (map (\<lambda>(k, v). [Inl k, v]) kvs)) m = Inr (m ++ map_of (rev kvs))" for m
    by (induction kvs arbitrary: m) (auto simp: map_add_def fun_eq_iff split: option.split)
  moreover have "length (concat (map (\<lambda>(k, v). [Inl k, v]) kvs)) = 2 * length kvs"
    by (induction kvs) auto
  ultimately show ?thesis by (simp add: tf_dict_def)
qed

end
