(* ===== verification/FilterColumns.thy ===== *)
theory FilterColumns
  imports ChartJson Trips
begin

text \<open>
  The text columns of the table \<open>trip\<close>: \<open>internal/ledger/trip.go\<close> stores the filters of a trip as two JSON arrays
  and decodes them on every read.  The other theories keep the decoded lists in the table; here the rows hold
  the texts, and the operations over them are shown to be the operations over the lists.
\<close>

section \<open>Rows\<close>

record trip_row =
  tr_ID :: int
  tr_Name :: string
  tr_StartDate :: date
  tr_EndDate :: date
  tr_MinNights :: int
  tr_BudgetOverride :: "int option"
  tr_FilterMode :: string
  tr_ExcludeResorts :: string
  tr_ExcludeRoomTypes :: string

definition marshalStringList :: "string list \<Rightarrow> string" where
  "marshalStringList xs = Marshal (JArr (map JStr xs))"

definition unmarshalStringList :: "string \<Rightarrow> string list option" where
  "unmarshalStringList s = Option.bind (Unmarshal s) (\<lambda>j. dec_list dec_str [] j [])"

definition nullInt32FromIntPtr :: "int option \<Rightarrow> int option" where
  "nullInt32FromIntPtr v = (case v of None \<Rightarrow> None | Some x \<Rightarrow> Some (int32 x))"

definition intPtrFromNullInt32 :: "int option \<Rightarrow> int option" where
  "intPtrFromNullInt32 v = (case v of None \<Rightarrow> None | Some x \<Rightarrow> Some x)"

definition tripFromRow :: "trip_row \<Rightarrow> trip result" where
  "tripFromRow row =
     (case unmarshalStringList (tr_ExcludeResorts row) of None \<Rightarrow> Inl (ErrInput ''decoding exclude_resorts'')
      | Some excludeResorts \<Rightarrow>
     (case unmarshalStringList (tr_ExcludeRoomTypes row) of None \<Rightarrow> Inl (ErrInput ''decoding exclude_room_types'')
      | Some excludeRoomTypes \<Rightarrow> Inr \<lparr>t_ID = tr_ID row, t_Name = tr_Name row, t_StartDate = tr_StartDate row,
          t_EndDate = tr_EndDate row, t_MinNights = tr_MinNights row,
          t_BudgetOverride = intPtrFromNullInt32 (tr_BudgetOverride row), t_FilterMode = tr_FilterMode row,
          t_ExcludeResorts = excludeResorts, t_ExcludeRoomTypes = excludeRoomTypes\<rparr>))"

text \<open>The parameters of the insert and of the update; the insert leaves the id to the identity column.\<close>

definition trip_params :: "trip \<Rightarrow> trip_row" where
  "trip_params t = \<lparr>tr_ID = t_ID t, tr_Name = t_Name t, tr_StartDate = t_StartDate t, tr_EndDate = t_EndDate t,
     tr_MinNights = int32 (t_MinNights t), tr_BudgetOverride = nullInt32FromIntPtr (t_BudgetOverride t),
     tr_FilterMode = t_FilterMode t, tr_ExcludeResorts = marshalStringList (t_ExcludeResorts t),
     tr_ExcludeRoomTypes = marshalStringList (t_ExcludeRoomTypes t)\<rparr>"

section \<open>Operations on the rows\<close>

text \<open>The rows of the table and the last id it issued.\<close>

type_synonym trip_rows = "trip_row list \<times> int"

definition row_check :: "trip_row \<Rightarrow> bool" where
  "row_check r \<longleftrightarrow> tr_StartDate r < tr_EndDate r \<and> 1 \<le> tr_MinNights r \<and> tr_MinNights r \<le> 30 \<and>
     (case tr_BudgetOverride r of None \<Rightarrow> True | Some b \<Rightarrow> 0 \<le> b) \<and>
     tr_FilterMode r \<in> {TripFilterInherit, TripFilterOverride}"

definition AddTrip_rows :: "trip \<Rightarrow> trip_rows \<Rightarrow> (int \<times> trip_rows) result" where
  "AddTrip_rows t tb = (case tb of (rows, issued) \<Rightarrow>
     if \<not> row_check (trip_params t) then Inl ErrConstraint
     else Inr (issued + 1, insert_row (\<lambda>i r. r\<lparr>tr_ID := i\<rparr>) issued (trip_params t) rows, issued + 1))"

fun trips_from_rows :: "trip_row list \<Rightarrow> trip list result" where
  "trips_from_rows [] = Inr []"
| "trips_from_rows (row # rows) =
     and_then (tripFromRow row) (\<lambda>t. and_then (trips_from_rows rows) (\<lambda>ts. Inr (t # ts)))"

definition ListTrips_text :: "trip_rows \<Rightarrow> trip list result" where
  "ListTrips_text tb = trips_from_rows (sort_key (\<lambda>r. (tr_StartDate r, tr_ID r)) (fst tb))"

definition GetTrip_text :: "int \<Rightarrow> trip_rows \<Rightarrow> trip result" where
  "GetTrip_text i tb = (case find (\<lambda>r. tr_ID r = i) (fst tb) of None \<Rightarrow> Inl ErrTripNotFound | Some row \<Rightarrow> tripFromRow row)"

definition UpdateTrip_text :: "trip \<Rightarrow> trip_rows \<Rightarrow> trip_rows result" where
  "UpdateTrip_text t tb = (case tb of (rows, issued) \<Rightarrow>
     if has_row tr_ID (t_ID t) rows \<and> \<not> row_check (trip_params t) then Inl ErrConstraint
     else Inr (update_row tr_ID (trip_params t) rows, issued))"

section \<open>Rows stand for trips\<close>

definition utf8_trip :: "trip \<Rightarrow> bool" where
  "utf8_trip t \<longleftrightarrow> list_all valid_utf8 (t_ExcludeResorts t) \<and> list_all valid_utf8 (t_ExcludeRoomTypes t)"

definition represents :: "trip_rows \<Rightarrow> db \<Rightarrow> bool" where
  "represents tb d \<longleftrightarrow> list_all2 (\<lambda>row t. tripFromRow row = Inr t) (fst tb) (trips d) \<and> snd tb = trip_seq d"

lemma string_list_reads: "list_all valid_utf8 xs \<Longrightarrow> unmarshalStringList (marshalStringList xs) = Some xs"
  using string_list_json_ok [of xs False] dec_string_list [of False xs "[]"]
  by (simp add: unmarshalStringList_def marshalStringList_def string_list_json_def Unmarshal_Marshal)

lemma params_stand_for_trip: "utf8_trip t \<Longrightarrow> tripFromRow (trip_params t) = Inr (narrow_trip t)"
  by (simp add: tripFromRow_def trip_params_def narrow_trip_def utf8_trip_def string_list_reads
      intPtrFromNullInt32_def nullInt32FromIntPtr_def split: option.split)

lemma row_fields:
  assumes "tripFromRow row = Inr t"
  shows "tr_ID row = t_ID t" "tr_StartDate row = t_StartDate t" "row_check row = trip_check t"
    "tripFromRow (row\<lparr>tr_ID := i\<rparr>) = Inr (t\<lparr>t_ID := i\<rparr>)"
  using assms by (auto simp: tripFromRow_def row_check_def trip_check_def intPtrFromNullInt32_def split: option.splits)

lemma list_all2_insort:
  "list_all2 R xs ys \<Longrightarrow> R x y \<Longrightarrow> (\<And>x y. R x y \<Longrightarrow> f x = g y) \<Longrightarrow> list_all2 R (insort_key f x xs) (insort_key g y ys)"
  by (induction xs ys rule: list_all2_induct) auto

lemma list_all2_sort:
  assumes "\<And>x y. R x y \<Longrightarrow> f x = g y"
  shows "list_all2 R xs ys \<Longrightarrow> list_all2 R (sort_key f xs) (sort_key g ys)"
  by (induction xs ys rule: list_all2_induct) (simp_all add: sort_key_def list_all2_insort assms)

lemma trips_from_rows: "list_all2 (\<lambda>row t. tripFromRow row = Inr t) rows ts \<Longrightarrow> trips_from_rows rows = Inr ts"
  by (induction rule: list_all2_induct) (simp_all add: and_then_def)

lemma find_row:
  "list_all2 (\<lambda>row t. tripFromRow row = Inr t) rows ts \<Longrightarrow>
     (case find (\<lambda>r. tr_ID r = i) rows of None \<Rightarrow> Inl ErrTripNotFound | Some row \<Rightarrow> tripFromRow row) =
     (case find (\<lambda>t. t_ID t = i) ts of None \<Rightarrow> Inl ErrTripNotFound | Some t \<Rightarrow> Inr t)"
  by (induction rule: list_all2_induct) (simp_all add: row_fields(1))

lemma has_row_rows:
  "list_all2 (\<lambda>row t. tripFromRow row = Inr t) rows ts \<Longrightarrow> has_row tr_ID i rows = has_row t_ID i ts"
  by (induction rule: list_all2_induct) (simp_all add: has_row_def row_fields(1))

lemma update_rows:
  assumes "tripFromRow row = Inr t"
  shows "list_all2 (\<lambda>row t. tripFromRow row = Inr t) rows ts \<Longrightarrow>
    list_all2 (\<lambda>row t. tripFromRow row = Inr t) (update_row tr_ID row rows) (update_row t_ID t ts)"
  by (induction rule: list_all2_induct) (simp_all add: update_row_def assms row_fields(1))

text \<open>C21: The texts in the columns of the table \<open>trip\<close> stand for the filters of its trips: on a table whose
  rows decode to the trips of the ledger, listing and reading give the ledger's trips, and adding or
  updating a trip whose filters are text does to the rows what it does to the trips, with the same id and
  the same refusals, and leaves a table whose rows decode to the trips of the new ledger.\<close>

theorem trip_rows_refine:
  assumes "represents tb d" and "utf8_trip t"
  shows "ListTrips_text tb = Inr (ListTrips d) \<and> GetTrip_text i tb = GetTrip i d \<and>
    (case AddTrip t d of Inl e \<Rightarrow> AddTrip_rows t tb = Inl e
     | Inr (k, d') \<Rightarrow> \<exists>tb'. AddTrip_rows t tb = Inr (k, tb') \<and> represents tb' d') \<and>
    (case UpdateTrip t d of Inl e \<Rightarrow> UpdateTrip_text t tb = Inl e
     | Inr d' \<Rightarrow> \<exists>tb'. UpdateTrip_text t tb = Inr tb' \<and> represents tb' d')"
proof -
  obtain rows issued where tb: "tb = (rows, issued)" by (cases tb)
  have rows: "list_all2 (\<lambda>row t. tripFromRow row = Inr t) rows (trips d)" and issued: "issued = trip_seq d"
    using assms(1) tb by (simp_all add: represents_def)
  note p = params_stand_for_trip [OF assms(2)]
  have key: "t_ID (narrow_trip t) = t_ID t" by (simp add: narrow_trip_def)
  have "ListTrips_text tb = Inr (ListTrips d)"
    unfolding ListTrips_text_def ListTrips_def ListTrips_rows_def tb fst_conv
    by (rule trips_from_rows, rule list_all2_sort [OF _ rows]) (simp add: row_fields(1,2))
  moreover have "GetTrip_text i tb = GetTrip i d"
    using find_row [OF rows] by (simp add: GetTrip_text_def GetTrip_def GetTrip_row_def tb)
  moreover have "case AddTrip t d of Inl e \<Rightarrow> AddTrip_rows t tb = Inl e
     | Inr (k, d') \<Rightarrow> \<exists>tb'. AddTrip_rows t tb = Inr (k, tb') \<and> represents tb' d'"
    using rows row_fields(3,4) [OF p]
    by (simp add: AddTrip_def InsertTrip_def AddTrip_rows_def tb issued represents_def insert_row_def list_all2_appendI)
  moreover have "case UpdateTrip t d of Inl e \<Rightarrow> UpdateTrip_text t tb = Inl e
     | Inr d' \<Rightarrow> \<exists>tb'. UpdateTrip_text t tb = Inr tb' \<and> represents tb' d'"
    using rows row_fields(3) [OF p] has_row_rows [OF rows, of "t_ID t"] update_rows [OF p rows]
    by (simp add: UpdateTrip_def UpdateTrip_row_def UpdateTrip_text_def tb issued represents_def key)
  ultimately show ?thesis by blast
qed


definition sample_filter_trip :: trip where
  "sample_filter_trip = \<lparr>t_ID = 1, t_Name = ''Spring'', t_StartDate = 20544, t_EndDate = 20551, t_MinNights = 2,
     t_BudgetOverride = Some 100, t_FilterMode = ''override'', t_ExcludeResorts = [''VGF''],
     t_ExcludeRoomTypes = [''1 \"BEDROOM\"'', []]\<rparr>"

definition sample_filter_db :: db where
  "sample_filter_db = fresh_db\<lparr>trips := [sample_filter_trip], trip_seq := 1\<rparr>"

lemma sample_filter_text:
  "marshalStringList (t_ExcludeRoomTypes sample_filter_trip) = ''[\"1 '' @ [backslash] @ ''\"BEDROOM'' @ [backslash] @ ''\"\",\"\"]''"
  by code_simp

theorem trip_rows_refine_witness:
  "ListTrips_text ([trip_params sample_filter_trip], 1) = Inr [sample_filter_trip] \<and>
   (\<exists>tb'. AddTrip_rows sample_filter_trip ([trip_params sample_filter_trip], 1) = Inr (2, tb') \<and>
     represents tb' (snd (the (case AddTrip sample_filter_trip sample_filter_db of Inl e \<Rightarrow> None | Inr x \<Rightarrow> Some x))))"
proof -
  have utf8: "utf8_trip sample_filter_trip" by code_simp
  have narrow: "narrow_trip sample_filter_trip = sample_filter_trip" by code_simp
  have check: "trip_check sample_filter_trip" by code_simp
  have rows: "represents ([trip_params sample_filter_trip], 1) sample_filter_db"
    using params_stand_for_trip [OF utf8] narrow by (simp add: represents_def sample_filter_db_def)
  have "ListTrips sample_filter_db = [sample_filter_trip]" by (simp add: ListTrips_def ListTrips_rows_def sample_filter_db_def)
  moreover obtain d' where "AddTrip sample_filter_trip sample_filter_db = Inr (2, d')"
    by (simp add: AddTrip_def InsertTrip_def narrow check sample_filter_db_def)
  ultimately show ?thesis using trip_rows_refine [OF rows utf8] by auto
qed


end
