(* ===== verification/Spec2Isabelle.thy ===== *)
theory Spec2Isabelle
  imports ServerSteps ContractForm ChartPrices LedgerMigrate DvcFlows DvcMain Mains TemplateFuncs FilterColumns Migrations
begin

text \<open>
  A model of lineleader, a server and a set of tools that keep the points
  ledger of a vacation-club membership: contracts grant points every use year,
  points are banked, borrowed and rented, trips book stays at resorts with
  them, and the cost of a point decides what a trip costs.

  The program and its model.  Everything below the web layer works on one
  Postgres database; every request of the web layer takes the mutex of its
  handler, runs the operations of the ledger package inside it and renders a
  page or a JSON value.  The command line tool reads point charts out of PDFs,
  searches them for stays, and is a client of the server's JSON interface for
  the ledger.  The model follows that layering, one theory per part, from the
  bottom up.  A date is the number of its day at UTC midnight, a string is the
  list of its bytes, a Go \<open>int\<close> or \<open>int64\<close> is an \<open>int\<close> whose wrap-around is
  written out where the code can reach it, an error is the left value of a sum
  and a panic is a value of its own.  Operations that touch the database are
  functions from a \<open>db\<close> to an error or a pair of a result and the new \<open>db\<close>; a
  failed transaction leaves the old one.

  \<^item> \<open>Prelude\<close>: results, the bind \<open>and_then\<close>, stable sorting and the list, map
    and option lemmas the other theories share.
  \<^item> \<open>Calendar\<close>, \<open>Strconv\<close>, \<open>DateText\<close>, \<open>Flags\<close>, \<open>Regexp\<close>, \<open>Json\<close>: the parts of the
    Go library the source calls (\<open>time\<close>, \<open>strconv\<close>, \<open>strings\<close>, \<open>flag\<close>, \<open>regexp\<close>,
    \<open>encoding/json\<close>), with the round trips of their text forms.  \<open>Json\<close> prints and
    parses values with the escapes of strings and the runes of UTF-8; what it
    prints, compact or indented, it parses back.
  \<^item> \<open>Money\<close> (internal/ledger/money.go): cents and micro-cents at 64 bits, the
    rounding division and the text of an amount.  The round trip between an
    amount and its text is \<open>money_roundtrip\<close>.
  \<^item> \<open>LedgerTypes\<close> (types.go, parse.go, dues.go): contracts, entries, the kinds
    of an entry, use years and the parsers of form values.
  \<^item> \<open>Cost\<close> (cost.go): the pricing of a point, from the purchase and the dues
    history; the projection of dues and the blend between two contracts.
  \<^item> \<open>Allocation\<close> (allocation.go): the allocator that funds a list of stays
    from the buckets of each contract.  It is proved complete against a
    declarative allocation, sound (never more than a bucket holds), prioritised
    and independent of the order of its inputs; the shortfall search is exact.
  \<^item> \<open>Database\<close> (dbgen, migrations): the tables with their keys, foreign keys,
    cascades and identity columns, and every generated statement.
    \<open>db_ok\<close> collects the constraints that hold in every reachable state.
  \<^item> \<open>Store\<close>, \<open>Distribute\<close>, \<open>Trips\<close>, \<open>Accounting\<close>, \<open>Booking\<close>, \<open>TripImport\<close>
    (store.go, entries.go, distribute.go, budget.go, trip.go,
    trip_accounting.go, trip_book.go, trip_import.go): the operations of the
    ledger.  A booking is the preview of the allocator turned into entries; a
    preview and a booking agree, a booking never overdraws, is idempotent and
    is reversed by the unbooking.
  \<^item> \<open>FilterColumns\<close> (trip.go): the rows of the table \<open>trip\<close> with their JSON text
    columns, and the operations on them, which refine those on the lists of
    filters that the other theories keep (\<open>trip_rows_refine\<close>).
  \<^item> \<open>Migrations\<close> (store.go, migrations): \<open>Open\<close> and the five migrations as
    statements on a catalog of relations.  A database of any earlier version
    becomes a ledger that satisfies \<open>db_ok\<close> and holds the same rows, ids and
    bookings; an empty one becomes \<open>fresh_db\<close> (\<open>open_upgrades\<close>).
  \<^item> \<open>LedgerSteps\<close>: the operations of the ledger as one step relation, and the
    constraints as an invariant of every reachable database.
  \<^item> \<open>LedgerMigrate\<close> (cmd/ledger-migrate/migrate.go): the copy of a SQLite ledger
    into an empty one, with its ids and sequences (\<open>migrate_exact\<close>).
  \<^item> \<open>Search\<close>, \<open>Filters\<close> (internal/dvc/search.go, types.go, filters.go,
    config.go; internal/web/global_filters.go): the point charts, the pricing
    of a night, the search over windows of stays and the filters, with the index
    panics of the source.
  \<^item> \<open>ChartText\<close>, \<open>ChartColumns\<close>, \<open>ChartParser\<close> (internal/dvc/parser.go): the parser of
    the layout text of a PDF, bottom up: cells and date ranges, the columns from
    the header lines and the first data row, the seasons and the whole chart.
    \<open>ChartLayout\<close> renders seasons to a layout that the parser reads back, and
    \<open>ChartPrices\<close> prices a night of a chart that was read.
  \<^item> \<open>ChartJson\<close>, \<open>ChartStore\<close> (types.go, config.go, store.go, table.go): the JSON of
    charts and of the configuration, the chart files of a directory as texts, the
    search for PDFs in a file tree and the printed table (\<open>saved_files_read\<close>).
  \<^item> \<open>LedgerView\<close>, \<open>TripView\<close>, \<open>CostCache\<close>, \<open>Auth\<close>, \<open>TemplateFuncs\<close> (ledger_view.go,
    render.go, costs.go, auth.go): the projections a page shows, the functions its
    template calls, the cache of the pricing and the gate of the server.
  \<^item> \<open>Handlers\<close>, \<open>LedgerHandlers\<close>, \<open>ApiHandlers\<close>, \<open>Server\<close> (handlers.go,
    ledger_handlers.go, api_handlers.go, server.go): every handler as a function
    from a \<open>web\<close> state (the database, the saved global filters, the cost cache)
    and a request to a response and the next state; the route table, the mux
    and the gate compose them into \<open>serve\<close>.
  \<^item> \<open>LedgerClient\<close>, \<open>WireJson\<close> (internal/ledgerclient): the client of the JSON
    interface over a link to a server, and the texts the two sides exchange, which
    each side reads as the other means (\<open>wire_agrees\<close>).
  \<^item> \<open>DvcCommands\<close>, \<open>DvcMain\<close>, \<open>DvcFlows\<close>, \<open>Mains\<close> (cmd/dvc, cmd/server,
    cmd/ledger-migrate): the commands from their arguments to what they print, and
    the two other programs from their flags to their exit.  \<open>DvcFlows\<close> composes
    commands, client and server: an edit changes the given fields of one entry,
    what is added is shown, and without the token nothing is shown or changed.
  \<^item> \<open>ServerSteps\<close>, \<open>TripFlows\<close>, \<open>ContractForm\<close> and this theory: what the
    composition guarantees.  Each handler either answers without touching the
    database or moves it by one operation of \<open>LedgerSteps\<close>
    (\<open>server_refines_ledger\<close>), so the invariant of the ledger is an invariant of
    the server; no request the gate refuses changes anything, and a server that
    starts has a gate (\<open>server_blind\<close>, \<open>started_guarded\<close>); the cost cache agrees with
    the database after every request except one the source forgets to invalidate
    (\<open>costs_current\<close>, and \<open>api_delete_contract_stale\<close> for that one); whole flows,
    from creating a trip to booking it, do what the pages say.

  Interfaces.  Where one part relies on laws of another the laws are a locale,
  interpreted on the definitions of the part that provides them, and the
  client's lemmas are proved once inside it.

  Parameters.  Code that is not in the repository is an argument: HMAC and
  SHA-256, the host of an Origin header, the clock (each reading is one
  argument), the environment, the file system, the text \<open>pdftotext\<close> returns,
  goose, the network between client and server, and the texts of errors.
  Hypotheses on a parameter are its documented behaviour, and a witness
  discharges them on a concrete function.  The commands of other clients that
  may run between two attempts of \<open>BookTrip\<close> enter as an environment of the
  retry loop; the loop makes three attempts, as the source does, and so needs no
  fuel.  The search bounds a stay at the thirty nights of the source.  The JSON
  parser has the length of its text as fuel, and \<open>parse_fuel\<close> shows that more
  fuel never reads more; every other recursion is structural or has a measure.

  Not modelled.  The HTML of the templates; failures of the database connection
  and of scanning a row, and the limits of a connection pool; the redirects of
  the mux to a cleaned path; cookie attributes other than the value; the bytes
  of HTTP below its method, path, headers, form and body; widths of printed
  columns, usage texts and messages on the standard error; unreadable
  directories below the one that is walked; the listener and the delivery of
  signals; the downward migrations, which the program never runs; the helper
  that opens test databases (testsupport.go).  What is left out is input and
  output of the operating system, markup, or code of tests: no function that
  decides anything is left.
\<close>

section \<open>The gate in front of the server\<close>

definition admitted :: "server_env \<Rightarrow> server_request \<Rightarrow> bool" where
  "admitted v r \<longleftrightarrow>
     (if q_Header r ''Authorization'' \<noteq> [] then validBearer (request.truncate r) (v_secret v)
      else (\<exists>c. q_Cookie r = Some c \<and> verifySession (v_hmac v) (v_unix v) (v_secret v) c) \<and>
        (isMutating (q_Method r) \<longrightarrow> sameOriginRequest (v_origin_host v) (request.truncate r)))"

lemma truncate_request [simp]:
  "q_Method (request.truncate r) = q_Method r" "q_Path (request.truncate r) = q_Path r"
  "q_Header (request.truncate r) = q_Header r" "q_Cookie (request.truncate r) = q_Cookie r"
  by (simp_all add: request.truncate_def)

lemma gate_refuses:
  "\<not> admitted v r \<Longrightarrow> \<not> isAuthExempt (request.truncate r) \<Longrightarrow>
     authMiddleware (v_hmac v) (v_origin_host v) (v_unix v) (v_secret v) (request.truncate r) \<noteq> Serve"
  by (cases "q_Header r ''Authorization'' = []"; cases "q_Cookie r")
    (simp_all add: authMiddleware_def admitted_def)

lemma split_static:
  assumes "HasPrefix path ''/static/''"
  shows "\<exists>s segs. split_on (CHR ''/'') path = [] # ''static'' # s # segs"
proof -
  define t where "t = drop (length ''/static/'') path"
  have "path = ''/static/'' @ t" using assms unfolding t_def by (rule HasPrefix_drop [THEN iffD1])
  then have "split_on (CHR ''/'') path = [] # ''static'' # split_on (CHR ''/'') t" by simp
  then show ?thesis by (cases "split_on (CHR ''/'') t") auto
qed

lemma exempt_blind:
  assumes "isAuthExempt (request.truncate r)"
  shows "\<exists>resp. \<forall>w. dispatch (login_routes v @ routes v) r w = (resp, w)"
proof -
  consider (health) "q_Method r = ''GET''" "q_Path r = ''/healthz''"
    | (login) "q_Method r = ''GET'' \<or> q_Method r = ''POST''" "q_Path r = ''/login''"
    | (static) "q_Method r = ''GET''" "HasPrefix (q_Path r) ''/static/''"
    using assms by (auto simp: isAuthExempt_def split: if_splits)
  then show ?thesis
  proof cases
    case health
    then have "dispatch (login_routes v @ routes v) r w = (if v_ping v then Healthy else Unavailable, w)" for w
      by (simp add: login_routes_def routes_def Let_def route_def match_route healthz_def)
    then show ?thesis by blast
  next
    case login
    then show ?thesis
      by (auto simp: login_routes_def route_def match_route login_page_def login_submit_def)
  next
    case static
    from split_static [OF static(2)] obtain s segs where "split_on (CHR ''/'') (q_Path r) = [] # ''static'' # s # segs"
      by blast
    with static(1) have "dispatch (login_routes v @ routes v) r w = (StaticFile (q_Path r), w)" for w
      by (simp add: login_routes_def routes_def Let_def route_def subtree_def match_route match_pattern_def
          static_file_def set_path_values_def)
    then show ?thesis by blast
  qed
qed

text \<open>A request that is not admitted gets an answer that does not depend on the state, and changes none of it.\<close>

lemma server_blind:
  assumes "v_secret v \<noteq> []" and "\<not> admitted v r"
  shows "\<exists>resp. \<forall>w. serve v r w = (resp, w)"
proof (cases "isAuthExempt (request.truncate r)")
  case True
  then have "authMiddleware (v_hmac v) (v_origin_host v) (v_unix v) (v_secret v) (request.truncate r) = Serve"
    by (simp add: authMiddleware_def)
  then show ?thesis using exempt_blind [OF True] assms(1) by (simp add: serve_def)
next
  case False
  define g where "g = authMiddleware (v_hmac v) (v_origin_host v) (v_unix v) (v_secret v) (request.truncate r)"
  have "g \<noteq> Serve" using gate_refuses [OF assms(2) False] by (simp add: g_def)
  then have "serve v r w = (Gate g, w)" for w
    using assms(1) by (cases g) (simp_all add: serve_def g_def [symmetric])
  then show ?thesis by blast
qed


text \<open>C5: A server that starts is never open: whatever its arguments, environment and files, if
  \<open>main\<close> gets as far as serving, it has charts and a secret that is not blank, and a request that shows
  neither that secret as its bearer token nor a session signed with it, or a mutating one from another
  site, gets an answer that does not depend on the state of the server, and changes none of it: not the
  ledger, not the filters, not the cache.\<close>

theorem started_guarded:
  assumes "server_main h args = Started opts addr" and "\<not> admitted (NewServer_env opts v) r"
  shows "op_Charts opts \<noteq> [] \<and> op_AuthSecret opts \<noteq> [] \<and> TrimSpace (op_AuthSecret opts) = op_AuthSecret opts \<and>
    (\<exists>resp. \<forall>w. serve (NewServer_env opts v) r w = (resp, w))"
proof -
  have "v_secret (NewServer_env opts v) \<noteq> []" using started_options(2) [OF assms(1)] by (simp add: NewServer_env_def)
  from server_blind [OF this assms(2)] show ?thesis using started_options [OF assms(1)] by simp
qed

definition sample_trip_form :: "string \<Rightarrow> string" where
  "sample_trip_form k = (if k = ''name'' then ''Spring'' else if k = ''from'' then ''2026-04-01''
     else if k = ''to'' then ''2026-04-08'' else if k = ''min_nights'' then ''2'' else [])"

definition sample_host :: host where
  "sample_host = \<lparr>ho_getenv = (\<lambda>k. if k = ''LEDGER_DSN'' then ''postgres://h'' else if k = ''AUTH_SECRET'' then '' s '' else []),
     ho_config_dir = Some ''/c'', ho_read_file = (\<lambda>f. None), ho_charts = (\<lambda>d. [(''2026_VGF.json'', Some (chart_text sample_chart))]),
     ho_config = (\<lambda>f. NoFile), ho_ledger = (\<lambda>dsn. Some sample_db), ho_sqlite = (\<lambda>f. None)\<rparr>"

definition sample_options :: options where
  "sample_options = \<lparr>op_Charts = [sample_chart], op_Config = no_config, op_ConfigPath = ''/c/lineleader/config.json'',
     op_Ledger = sample_db, op_AuthSecret = ''s'', op_SecureCookies = False\<rparr>"

lemma sample_host_fields:
  "ho_getenv sample_host ''LEDGER_DSN'' = ''postgres://h''" "ho_getenv sample_host ''AUTH_SECRET'' = '' s ''"
  "ho_config_dir sample_host = Some ''/c''" "ho_config sample_host f = NoFile" "ho_ledger sample_host dsn = Some sample_db"
  by (simp_all add: sample_host_def)

definition sample_formal :: flag_set where
  "sample_formal = [(''data-dir'', FString ''data/point-charts''), (''config'', FString ''/c/lineleader/config.json''),
     (''ledger-dsn'', FString ''postgres://h''), (''addr'', FString '':8080''),
     (''auth-secret-file'', FString []), (''insecure-cookies'', FBool False)]"

definition sample_start_flags :: parsed_flags where
  "sample_start_flags = \<lparr>pf_formal = sample_formal, pf_actual = [(''insecure-cookies'', FBool True)], pf_Args = []\<rparr>"

lemma sample_start_formal: "server_main_flags sample_host = sample_formal"
proof -
  have "filepath_Join ''/c'' ''lineleader/config.json'' = ''/c/lineleader/config.json''" by code_simp
  then show ?thesis
    by (simp add: server_main_flags_def sample_formal_def DefaultConfigPath_def user_file_def sample_host_fields)
qed

lemma sample_start_args:
  "flag_Parse sample_formal [''-insecure-cookies''] = Inr sample_start_flags"
  "str_flag sample_start_flags ''ledger-dsn'' = ''postgres://h''" "str_flag sample_start_flags ''auth-secret-file'' = []"
  "str_flag sample_start_flags ''data-dir'' = ''data/point-charts''" "str_flag sample_start_flags ''addr'' = '':8080''"
  "str_flag sample_start_flags ''config'' = ''/c/lineleader/config.json''" "bool_flag sample_start_flags ''insecure-cookies''"
  by code_simp+

lemma sample_secret: "resolveAuthSecret sample_host [] = Inr ''s''"
  by (simp add: resolveAuthSecret_def sample_host_fields TrimSpace_def is_space_def)

lemma sample_start_charts: "LoadAll (ho_charts sample_host dir) = Inr [sample_chart]"
  by (simp add: LoadAll_def json_names_def sample_host_def is_json_def TrimSuffix_def chart_text_reads sample_texts(1) and_then_def)

lemma sample_start: "server_main sample_host [''-insecure-cookies''] = Started sample_options '':8080''"
  by (simp add: server_main_def exit_on_error_def sample_start_formal sample_start_args sample_secret sample_start_charts
      sample_host_fields LoadConfig_def sample_options_def)

theorem started_guarded_witness:
  "op_AuthSecret sample_options \<noteq> [] \<and>
   (\<exists>resp. \<forall>w. serve (NewServer_env sample_options sample_server)
      (sample_call [] ''POST'' ''/trips/1/book'' sample_trip_form) w = (resp, w))"
proof -
  have "\<not> admitted (NewServer_env sample_options sample_server) (sample_call [] ''POST'' ''/trips/1/book'' sample_trip_form)"
    by (simp add: admitted_def sample_call_def)
  from started_guarded [OF sample_start this] show ?thesis by blast
qed

section \<open>A sample server\<close>

lemma sample_server_calm: "calm (env.truncate sample_server)"
  by (simp add: calm_def sample_server_def env.truncate_def)

section \<open>Runs of the server\<close>

text \<open>A run starts with a ledger and a configuration read from disk and serves one request after another,
  each with its own clock, outcomes and interfering transactions.\<close>

inductive server_reachable :: "web \<Rightarrow> bool" where
  start: "reachable d \<Longrightarrow> server_reachable \<lparr>w_db = d, w_global = \<lparr>g_cfg = c, g_saved = c\<rparr>, w_costs = newCostProvider\<rparr>"
| request: "server_reachable w \<Longrightarrow> calm (env.truncate v) \<Longrightarrow> server_reachable (snd (serve v r w))"

inductive page_reachable :: "web \<Rightarrow> bool" where
  start: "reachable d \<Longrightarrow> page_reachable \<lparr>w_db = d, w_global = \<lparr>g_cfg = c, g_saved = c\<rparr>, w_costs = newCostProvider\<rparr>"
| request: "page_reachable w \<Longrightarrow> calm (env.truncate v) \<Longrightarrow> \<not> contract_api r \<Longrightarrow>
    page_reachable (snd (serve v r w))"

lemma reachable_steps: "ledger_step\<^sup>*\<^sup>* d d' \<Longrightarrow> reachable d \<Longrightarrow> reachable d'"
  by (induction rule: rtranclp_induct) (auto intro: reachable.step)

lemma reachable_ok: "reachable d \<Longrightarrow> db_ok d"
  by (induction rule: reachable.induct) (auto simp: db_ok_fresh intro: ledger_step_ok)

lemma page_reachable_coherent: "page_reachable w \<Longrightarrow> coherent w"
proof (induction rule: page_reachable.induct)
  case (start d c)
  then show ?case by (simp add: coherent_def newCostProvider_def)
next
  case (request w v r)
  then show ?case using serve_moves [of v r w] by (simp add: moves_def)
qed



text \<open>C9: As long as contracts are edited on the ledger page and not through the API, a trip page is never
  priced by an outdated ledger: it gets the cost basis of the current one, or none, and none only when
  the query for it failed.\<close>

theorem costs_current:
  assumes "page_reachable w"
  shows "fst (costBasis v w) = (CostBasis (w_db w), Known (CostBasis (w_db w))) \<or>
    \<not> v_fetch_ok v \<and> fst (costBasis v w) = (zero_basis, False)"
  using page_reachable_coherent [OF assms]
  by (auto simp: costBasis_def Basis_def coherent_def Let_def)

theorem costs_current_witness:
  "fst (costBasis (env.truncate sample_server) (snd (serve sample_server
      (sample_call ''Bearer s'' ''POST'' ''/trips'' sample_trip_form) (sample_web fresh_db)))) =
    (let d = w_db (snd (serve sample_server (sample_call ''Bearer s'' ''POST'' ''/trips'' sample_trip_form)
       (sample_web fresh_db))) in (CostBasis d, Known (CostBasis d)))"
proof -
  let ?r = "sample_call ''Bearer s'' ''POST'' ''/trips'' sample_trip_form"
  have "page_reachable (sample_web fresh_db)"
    unfolding sample_web_def by (rule page_reachable.start [OF reachable.init])
  moreover have "\<not> contract_api ?r" by (simp add: contract_api_def sample_call_def HasPrefix_def)
  ultimately have "page_reachable (snd (serve sample_server ?r (sample_web fresh_db)))"
    by (rule page_reachable.request [OF _ sample_server_calm])
  from costs_current [OF this, of "env.truncate sample_server"]
  show ?thesis by (simp add: Let_def sample_server_def env.truncate_def)
qed

text \<open>The API breaks this: deleting the only priced contract through it leaves its price in the cache.\<close>

lemma api_delete_contract_stale:
  assumes "coherent w" and "cp_ok (w_costs w)" and "hasRate (CostBasis (w_db w))"
    and "contracts (w_db w) = [c]" and "c_ID c = 1" and "q_PathValue r ''id'' = ''1''"
  shows "\<not> coherent (snd (on_api (\<lambda>r. api_deleteContract (q_PathValue r ''id'')) r w))"
proof -
  have "ParseInt ''1'' = Some 1" by code_simp
  then have "snd (on_api (\<lambda>r. api_deleteContract (q_PathValue r ''id'')) r w) = w\<lparr>w_db := DeleteContract 1 (w_db w)\<rparr>"
    using assms(6) by (simp add: on_api_def api_deleteContract_def apiPathID_def)
  moreover have "contracts (DeleteContract 1 (w_db w)) = []"
    using assms(4,5) by (simp add: DeleteContract_def DeleteContract_row_def delete_rows_def)
  then have "\<not> hasRate (CostBasis (DeleteContract 1 (w_db w)))"
    by (simp add: CostBasis_def NewCostBasis_def ListContracts_def ListContracts_rows_def Let_def split: prod.split)
  ultimately show ?thesis using assms(1-3) by (auto simp: coherent_def)
qed

end
